theory Spec2Isabelle
  imports Main
begin

section \<open>Python values, their text and their truth value\<close>

text \<open>
  The report generator of \<^verbatim>\<open>src/src/excel_report_maker/__init__.py\<close> is a class
  \<^verbatim>\<open>ExcelReportGenerator\<close> over an openpyxl workbook. The embedding follows the
  class method by method. Python integers are \<^typ>\<open>int\<close>, strings are
  \<^typ>\<open>string\<close> (ASCII text, one \<^typ>\<open>char\<close> per character), an ordered
  \<^verbatim>\<open>dict\<close> is an association list whose keys are distinct, and a raised exception
  is the left injection of a sum.

  A cell value is a scalar. Of a value the program observes two things, in the width
  passes: its truth value (\<^verbatim>\<open>if cell.value\<close>) and the length of its text
  (\<^verbatim>\<open>len(str(cell.value))\<close>); openpyxl observes its type when the value is put
  into a cell. \<open>VFloat\<close> is a number that is not an \<^verbatim>\<open>int\<close> (a float, a Decimal, a
  numpy number), \<open>VTime\<close> a value of one of the four date and time types, \<open>VObject\<close>
  a value of any other type; each carries its text and its truth value.
\<close>

datatype time_kind = DateTime | Date | Time | TimeDelta

datatype pyval =
  VNone | VBool bool | VInt int | VStr string | VFloat string bool
  | VTime time_kind string bool | VObject string bool

fun truthy :: "pyval \<Rightarrow> bool" where
  "truthy VNone = False"
| "truthy (VBool b) = b"
| "truthy (VInt i) = (i \<noteq> 0)"
| "truthy (VStr s) = (s \<noteq> [])"
| "truthy (VFloat s t) = t"
| "truthy (VTime k s t) = t"
| "truthy (VObject s t) = t"

text \<open>\<^verbatim>\<open>ord(c)\<close> and \<^verbatim>\<open>chr(n)\<close>.\<close>

definition ord :: "char \<Rightarrow> int" where
  "ord c = of_char c"

definition chr :: "int \<Rightarrow> char" where
  "chr n = char_of n"

text \<open>\<^verbatim>\<open>str(n)\<close> of a non-negative integer: its decimal digits.\<close>

function str_digits :: "int \<Rightarrow> string" where
  "str_digits n =
     (if n < 10 then [chr (48 + n)]
      else str_digits (n div 10) @ [chr (48 + n mod 10)])"
  by pat_completeness auto
termination
  by (relation "measure nat") auto

definition str_int :: "int \<Rightarrow> string" where
  "str_int i = (if i < 0 then CHR ''-'' # str_digits (- i) else str_digits i)"

fun py_str :: "pyval \<Rightarrow> string" where
  "py_str VNone = ''None''"
| "py_str (VBool b) = (if b then ''True'' else ''False'')"
| "py_str (VInt i) = str_int i"
| "py_str (VStr s) = s"
| "py_str (VFloat s t) = s"
| "py_str (VTime k s t) = s"
| "py_str (VObject s t) = s"

text \<open>\<^verbatim>\<open>sub in s\<close> on strings: \<open>sub\<close> occurs in \<open>s\<close> as a contiguous block.\<close>

fun str_contains :: "string \<Rightarrow> string \<Rightarrow> bool" where
  "str_contains sub [] = (sub = [])"
| "str_contains sub (c # cs) = (take (length sub) (c # cs) = sub \<or> str_contains sub cs)"

text \<open>\<^verbatim>\<open>max(xs, default=d)\<close> and \<^verbatim>\<open>int(a / b)\<close> for integers and a positive
  \<open>b\<close> (true division, then truncation towards zero).\<close>

fun py_max_default :: "int list \<Rightarrow> int \<Rightarrow> int" where
  "py_max_default [] d = d"
| "py_max_default (x # xs) d = fold max xs x"

definition py_int_truediv :: "int \<Rightarrow> int \<Rightarrow> int" where
  "py_int_truediv a b = (if a < 0 then - ((- a) div b) else a div b)"

section \<open>Exceptions\<close>

text \<open>
  An exception is an instance of a subclass of \<^verbatim>\<open>Exception\<close>, given by its class
  and its message (\<^verbatim>\<open>str(e)\<close>). \<^verbatim>\<open>except ImportError\<close> catches the class
  \<open>ImportError\<close>, \<^verbatim>\<open>except Exception\<close> every value of this type. Requests to end
  the process (\<^verbatim>\<open>SystemExit\<close>, \<^verbatim>\<open>KeyboardInterrupt\<close>), which are not instances of
  \<^verbatim>\<open>Exception\<close>, are not values of it.
\<close>

datatype exn_class =
  ImportError | ValueError | OSError | IllegalCharacterError | OtherException string

datatype exn = Exn (exn_cls: exn_class) (exn_msg: string)



section \<open>The openpyxl primitives the generator calls\<close>

subsection \<open>Column letters\<close>

text \<open>
  \<^verbatim>\<open>openpyxl.utils.get_column_letter\<close>: the loop
  \<^verbatim>\<open>
  while col_idx > 0:
      col_idx, remainder = divmod(col_idx, 26)
      if remainder == 0:
          remainder = 26
          col_idx -= 1
      letters.append(chr(remainder + 64))
  return ''.join(reversed(letters))
  \<close>
  for an index from 1 to 18278 (\<open>ZZZ\<close>), and \<^verbatim>\<open>ValueError\<close> for any other.
\<close>

function column_letter_loop :: "int \<Rightarrow> string \<Rightarrow> string" where
  "column_letter_loop col_idx letters =
     (if col_idx > 0 then
        (if col_idx mod 26 = 0
         then column_letter_loop (col_idx div 26 - 1) (letters @ [chr (26 + 64)])
         else column_letter_loop (col_idx div 26) (letters @ [chr (col_idx mod 26 + 64)]))
      else letters)"
  by pat_completeness auto
termination
  by (relation "measure (\<lambda>(col_idx, letters). nat col_idx)") auto

definition get_column_letter :: "int \<Rightarrow> exn + string" where
  "get_column_letter col_idx =
     (if \<not> (1 \<le> col_idx \<and> col_idx \<le> 18278)
      then Inl (Exn ValueError (''Invalid column index '' @ str_int col_idx))
      else Inr (rev (column_letter_loop col_idx [])))"

text \<open>
  The reading of a column name, \<open>A = 1\<close>, ..., \<open>Z = 26\<close>, \<open>AA = 27\<close>, ...: what a
  spreadsheet means by a column letter (openpyxl's \<^verbatim>\<open>column_index_from_string\<close> on
  capital letters).
\<close>

definition column_index_from_string :: "string \<Rightarrow> int" where
  "column_index_from_string s = fold (\<lambda>c idx. idx * 26 + (ord c - 64)) s 0"

definition capital_letter :: "char \<Rightarrow> bool" where
  "capital_letter c = (ord (CHR ''A'') \<le> ord c \<and> ord c \<le> ord (CHR ''Z''))"

subsection \<open>Cells and worksheets\<close>

record font =
  font_bold :: bool
  font_size :: int

record cell =
  cell_value :: pyval
  cell_font :: "font option"
  number_format :: string

record table_style =
  style_name :: string
  showFirstColumn :: bool
  showLastColumn :: bool
  showRowStripes :: bool
  showColumnStripes :: bool

record table =
  displayName :: string
  ref :: string
  tableStyleInfo :: "table_style option"

record image =
  anchor :: string
  img_width :: int
  img_height :: int

text \<open>
  A worksheet: the dictionary \<^verbatim>\<open>_cells\<close> from (row, column) to cell, as an association
  list that \<open>map_of\<close> reads (a later binding is put in front of an earlier one of the same
  key), the counter \<^verbatim>\<open>_current_row\<close> that \<^verbatim>\<open>append\<close> continues from, the registered
  tables and images in the order they were added, and the column widths by column letter.
\<close>

record worksheet =
  cells :: "((int \<times> int) \<times> cell) list"
  current_row :: int
  tables :: "table list"
  images :: "image list"
  column_dimensions :: "string \<rightharpoonup> int"

definition new_worksheet :: worksheet where
  "new_worksheet =
     \<lparr>cells = [], current_row = 0, tables = [], images = [], column_dimensions = Map.empty\<rparr>"

text \<open>
  A value on its way into a cell (\<^verbatim>\<open>Cell._bind_value\<close>). A string is checked by
  \<^verbatim>\<open>check_string\<close>: it is cut to its first 32767 characters, and a control character
  (\<^verbatim>\<open>[\000-\010]|[\013-\014]|[\016-\037]\<close>) in what is left raises
  \<^verbatim>\<open>IllegalCharacterError\<close>. A date or time value gives a cell whose number format
  is not a date format the format of its type. A value of a type that has no cell type
  raises \<^verbatim>\<open>ValueError\<close>.
\<close>

definition illegal_character :: "char \<Rightarrow> bool" where
  "illegal_character c = (ord c \<le> 8 \<or> ord c = 11 \<or> ord c = 12 \<or> (14 \<le> ord c \<and> ord c \<le> 31))"

definition check_string :: "string \<Rightarrow> exn + string" where
  "check_string s =
     (let value = take 32767 s
      in if list_ex illegal_character value
         then Inl (Exn IllegalCharacterError (value @ '' cannot be used in worksheets.''))
         else Inr value)"

fun time_format :: "time_kind \<Rightarrow> string" where
  "time_format DateTime = ''yyyy-mm-dd h:mm:ss''"
| "time_format Date = ''yyyy-mm-dd''"
| "time_format Time = ''h:mm:ss''"
| "time_format TimeDelta = ''[hh]:mm:ss''"

text \<open>
  \<^verbatim>\<open>Cell(ws, row, column, value)\<close>: a new cell has no font of its own and the number
  format \<open>General\<close>, which is not a date format; a value other than \<^verbatim>\<open>None\<close> is
  bound to it. \<open>new_cell v\<close> is the cell that holds \<open>v\<close> once \<open>v\<close> is bound.
\<close>

fun value_format :: "pyval \<Rightarrow> string" where
  "value_format (VTime k s t) = time_format k"
| "value_format v = ''General''"

definition new_cell :: "pyval \<Rightarrow> cell" where
  "new_cell v = \<lparr>cell_value = v, cell_font = None, number_format = value_format v\<rparr>"

definition Cell :: "pyval \<Rightarrow> exn + cell" where
  "Cell v =
     (case v of
        VStr s \<Rightarrow> (case check_string s of Inl e \<Rightarrow> Inl e | Inr s' \<Rightarrow> Inr (new_cell (VStr s')))
      | VObject s t \<Rightarrow> Inl (Exn ValueError (''Cannot convert '' @ s @ '' to Excel''))
      | _ \<Rightarrow> Inr (new_cell v))"

definition value_at :: "worksheet \<Rightarrow> int \<times> int \<Rightarrow> pyval" where
  "value_at ws rc = (case map_of (cells ws) rc of None \<Rightarrow> VNone | Some c \<Rightarrow> cell_value c)"


definition font_at :: "worksheet \<Rightarrow> int \<times> int \<Rightarrow> font option" where
  "font_at ws rc = (case map_of (cells ws) rc of None \<Rightarrow> None | Some c \<Rightarrow> cell_font c)"

text \<open>An assignment to an attribute of the cell object at a coordinate.\<close>

definition modify_cell :: "worksheet \<Rightarrow> int \<times> int \<Rightarrow> (cell \<Rightarrow> cell) \<Rightarrow> worksheet" where
  "modify_cell ws rc f =
     (case map_of (cells ws) rc of
        None \<Rightarrow> ws
      | Some c \<Rightarrow> ws\<lparr>cells := (rc, f c) # cells ws\<rparr>)"

text \<open>
  \<^verbatim>\<open>ws._get_cell(row, column)\<close>: a cell that does not exist yet is created empty,
  and \<^verbatim>\<open>_current_row\<close> is raised to its row.
\<close>

definition ws_get_cell :: "worksheet \<Rightarrow> int \<times> int \<Rightarrow> worksheet" where
  "ws_get_cell ws rc =
     (case map_of (cells ws) rc of
        None \<Rightarrow> ws\<lparr>cells := (rc, new_cell VNone) # cells ws,
                    current_row := max (fst rc) (current_row ws)\<rparr>
      | Some c \<Rightarrow> ws)"

text \<open>
  \<^verbatim>\<open>ws.cell(row, column, value)\<close>: \<^verbatim>\<open>ValueError\<close> below row or column 1;
  otherwise the cell is fetched, and a value other than \<^verbatim>\<open>None\<close> is bound to it. The
  generator passes a string, the title of a table, or nothing; a string leaves the number
  format of the cell as it is.
\<close>

definition ws_cell :: "worksheet \<Rightarrow> int \<Rightarrow> int \<Rightarrow> string option \<Rightarrow> exn + worksheet" where
  "ws_cell ws row column v =
     (if row < 1 \<or> column < 1
      then Inl (Exn ValueError ''Row or column values must be at least 1'')
      else
        (let ws1 = ws_get_cell ws (row, column)
         in case v of
              None \<Rightarrow> Inr ws1
            | Some s \<Rightarrow>
                (case check_string s of
                   Inl e \<Rightarrow> Inl e
                 | Inr s' \<Rightarrow> Inr (modify_cell ws1 (row, column) (\<lambda>c. c\<lparr>cell_value := VStr s'\<rparr>)))))"

text \<open>
  \<^verbatim>\<open>ws.append(row)\<close>: a cell is made of each value in turn, for row
  \<^verbatim>\<open>_current_row + 1\<close> and the columns 1, 2, ...; when all are made,
  \<^verbatim>\<open>_current_row\<close> moves to that row. The first value that cannot be bound ends the
  call with its exception.
\<close>

fun row_cells :: "pyval list \<Rightarrow> exn + cell list" where
  "row_cells [] = Inr []"
| "row_cells (content # rest) =
     (case Cell content of
        Inl e \<Rightarrow> Inl e
      | Inr c \<Rightarrow> (case row_cells rest of Inl e \<Rightarrow> Inl e | Inr cs \<Rightarrow> Inr (c # cs)))"

definition ws_append :: "worksheet \<Rightarrow> pyval list \<Rightarrow> exn + worksheet" where
  "ws_append ws row =
     (let row_idx = current_row ws + 1
      in case row_cells row of
           Inl e \<Rightarrow> Inl e
         | Inr cs \<Rightarrow>
             Inr (ws\<lparr>cells := map (\<lambda>(col_idx, c). ((row_idx, col_idx), c))
                                 (zip [1..int (length cs)] cs) @ cells ws,
                     current_row := row_idx\<rparr>))"

text \<open>A loop that appends one row after the other.\<close>

fun append_rows :: "worksheet \<Rightarrow> pyval list list \<Rightarrow> exn + worksheet" where
  "append_rows ws [] = Inr ws"
| "append_rows ws (row # rows) =
     (case ws_append ws row of Inl e \<Rightarrow> Inl e | Inr ws' \<Rightarrow> append_rows ws' rows)"

text \<open>
  \<^verbatim>\<open>ws.max_row\<close> and \<^verbatim>\<open>ws.max_column\<close>: the largest row and column of a cell, 1 for
  a sheet without cells (rows and columns of cells are at least 1).
\<close>

definition max_row :: "worksheet \<Rightarrow> int" where
  "max_row ws = fold max (map (\<lambda>(rc, c). fst rc) (cells ws)) 1"

definition max_column :: "worksheet \<Rightarrow> int" where
  "max_column ws = fold max (map (\<lambda>(rc, c). snd rc) (cells ws)) 1"

text \<open>
  \<^verbatim>\<open>ws.columns\<close>: nothing for a sheet that was never written; otherwise for every column
  from 1 to \<^verbatim>\<open>max_column\<close> the cells of the rows 1 to \<^verbatim>\<open>max_row\<close>, a blank cell where
  none was written. A column is given by its index (\<^verbatim>\<open>col[0].column\<close>) and the values
  of its cells.
\<close>

definition ws_columns :: "worksheet \<Rightarrow> (int \<times> pyval list) list" where
  "ws_columns ws =
     (if current_row ws = 0 then []
      else map (\<lambda>c. (c, map (\<lambda>r. value_at ws (r, c)) [1..max_row ws])) [1..max_column ws])"

subsection \<open>Workbooks and sheet titles\<close>

record workbook =
  sheets :: "(string \<times> worksheet) list"

definition sheetnames :: "workbook \<Rightarrow> string list" where
  "sheetnames w = map fst (sheets w)"

text \<open>\<^verbatim>\<open>Workbook()\<close> starts with one blank sheet, titled \<open>Sheet\<close>.\<close>

definition Workbook :: workbook where
  "Workbook = \<lparr>sheets = [(''Sheet'', new_worksheet)]\<rparr>"

definition del_sheet :: "workbook \<Rightarrow> string \<Rightarrow> workbook" where
  "del_sheet w title = w\<lparr>sheets := filter (\<lambda>(n, ws). n \<noteq> title) (sheets w)\<rparr>"

definition lower_char :: "char \<Rightarrow> char" where
  "lower_char c =
     (if capital_letter c then chr (ord c + 32) else c)"

definition lower :: "string \<Rightarrow> string" where
  "lower s = map lower_char s"

definition is_digit :: "char \<Rightarrow> bool" where
  "is_digit c = (ord (CHR ''0'') \<le> ord c \<and> ord c \<le> ord (CHR ''9''))"

definition int_of_digits :: "string \<Rightarrow> int" where
  "int_of_digits s = fold (\<lambda>c n. n * 10 + (ord c - 48)) s 0"

text \<open>
  A sheet title must not contain one of the characters \<^verbatim>\<open>\ * ? : / [ ]\<close>; the
  \<^verbatim>\<open>ValueError\<close> names the first of them that the title has.
\<close>

definition invalid_title_char :: "char \<Rightarrow> bool" where
  "invalid_title_char c = (c \<in> set [CHR 0x5C, CHR ''*'', CHR ''?'', CHR '':'', CHR ''/'', CHR ''['', CHR '']''])"

text \<open>
  \<^verbatim>\<open>avoid_duplicate_name(names, value)\<close>: a title that equals one of the workbook's,
  letter case ignored, is renamed. The new title is the old one followed by a number, one
  more than the largest number that follows an occurrence of the title in the
  comma-joined list of the workbook's titles (the matches of the pattern
  \<^verbatim>\<open>(value)(\d*),?\<close>, case ignored, from left to right; \<open>skip\<close> counts the
  characters of the last match that are still to be passed over).
\<close>

fun title_counts :: "string \<Rightarrow> nat \<Rightarrow> string \<Rightarrow> string list" where
  "title_counts v skip [] = []"
| "title_counts v skip (c # cs) =
     (if skip > 0 then title_counts v (skip - 1) cs
      else if v \<noteq> [] \<and> lower (take (length v) (c # cs)) = lower v
      then
        (let rest = drop (length v) (c # cs);
             count = takeWhile is_digit rest;
             comma = (case dropWhile is_digit rest of [] \<Rightarrow> 0 | d # ds \<Rightarrow> if d = CHR '','' then 1 else 0)
         in count # title_counts v (length v + length count + comma - 1) cs)
      else title_counts v 0 cs)"

fun join_comma :: "string list \<Rightarrow> string" where
  "join_comma [] = []"
| "join_comma [n] = n"
| "join_comma (n # m # ns) = n @ CHR '','' # join_comma (m # ns)"

definition avoid_duplicate_name :: "string list \<Rightarrow> string \<Rightarrow> string" where
  "avoid_duplicate_name names v =
     (if \<exists>n \<in> set names. lower n = lower v
      then
        (let counts = map int_of_digits (filter (\<lambda>d. d \<noteq> []) (title_counts v 0 (join_comma names)))
         in v @ str_int (py_max_default counts 0 + 1))
      else v)"

text \<open>
  \<^verbatim>\<open>wb.create_sheet(title, index)\<close>: an empty title becomes \<open>Sheet\<close>; the title is
  checked and, where needed, renamed; the new sheet is appended, or inserted at
  \<open>index\<close>. The result is the workbook and the position of the new sheet in it.
\<close>

definition create_sheet :: "workbook \<Rightarrow> string \<Rightarrow> nat option \<Rightarrow> exn + (workbook \<times> nat)" where
  "create_sheet w title index =
     (let value = (if title = [] then ''Sheet'' else title)
      in case filter invalid_title_char value of
           c # cs \<Rightarrow>
             Inl (Exn ValueError (''Invalid character '' @ [c] @ '' found in sheet title''))
         | [] \<Rightarrow>
             (let value' = avoid_duplicate_name (sheetnames w) value;
                  i = (case index of None \<Rightarrow> length (sheets w) | Some k \<Rightarrow> min k (length (sheets w)))
              in Inr (w\<lparr>sheets := take i (sheets w) @ (value', new_worksheet) # drop i (sheets w)\<rparr>, i)))"

text \<open>The worksheet object at a position, and the effect of mutating it in place.\<close>

definition sheet_at :: "workbook \<Rightarrow> nat \<Rightarrow> worksheet" where
  "sheet_at w i = snd (sheets w ! i)"

definition set_sheet :: "workbook \<Rightarrow> nat \<Rightarrow> worksheet \<Rightarrow> workbook" where
  "set_sheet w i ws = w\<lparr>sheets := (sheets w)[i := (fst (sheets w ! i), ws)]\<rparr>"

text \<open>
  \<^verbatim>\<open>ws.add_table(table)\<close>: \<^verbatim>\<open>ValueError\<close> when a table of a sheet of the workbook
  has the name of the new table, letter case ignored (\<^verbatim>\<open>Workbook._duplicate_name\<close>);
  otherwise the table is registered on the sheet. The worksheet is a sheet of the workbook
  \<open>w\<close>; \<open>ws\<close> is its state at the call, which \<open>w\<close> need not have yet.
\<close>

definition duplicate_name :: "workbook \<Rightarrow> worksheet \<Rightarrow> string \<Rightarrow> bool" where
  "duplicate_name w ws name =
     (lower name \<in> set (map (\<lambda>t. lower (displayName t))
                           (tables ws @ concat (map (\<lambda>(n, sheet). tables sheet) (sheets w)))))"

definition add_table :: "workbook \<Rightarrow> worksheet \<Rightarrow> table \<Rightarrow> exn + worksheet" where
  "add_table w ws t =
     (if duplicate_name w ws (displayName t)
      then Inl (Exn ValueError (''Table with name '' @ displayName t @ '' already exists''))
      else Inr (ws\<lparr>tables := tables ws @ [t]\<rparr>))"

section \<open>The data the generator is given\<close>

text \<open>
  A pandas DataFrame: its column names in order and its rows, each a list of scalars.
  \<^verbatim>\<open>df.shape[1]\<close> is the number of columns, and
  \<^verbatim>\<open>dataframe_to_rows(df, index=False, header=True)\<close> yields the row of column
  names and then the data rows.
\<close>

record dataframe =
  columns :: "string list"
  data_rows :: "pyval list list"

definition shape1 :: "dataframe \<Rightarrow> int" where
  "shape1 df = int (length (columns df))"

definition dataframe_to_rows :: "dataframe \<Rightarrow> pyval list list" where
  "dataframe_to_rows df = map VStr (columns df) # data_rows df"

text \<open>
  A figure is an object of the caller's. The generator calls its \<^verbatim>\<open>savefig\<close>, which
  writes a PNG image or raises. An image function returns one object or a list of
  objects, each a figure or \<^verbatim>\<open>None\<close>, or raises.
\<close>

datatype figure = Figure (savefig: "exn option")

datatype provided = Single "figure option" | Sequence "figure option list"

type_synonym image_func = "dataframe \<Rightarrow> string \<Rightarrow> exn + provided"

text \<open>
  The runtime around the generator: whether Pillow is installed (without it the
  constructor \<^verbatim>\<open>openpyxl.drawing.image.Image\<close> raises \<^verbatim>\<open>ImportError\<close>), which paths
  exist, and which of them Pillow reads as an image.
\<close>

record environment =
  pillow_installed :: bool
  path_exists :: "string \<Rightarrow> bool"
  path_is_image :: "string \<Rightarrow> bool"

text \<open>
  What the process has printed, the workbooks it has saved, latest first, and the paths a
  file can be written to.
\<close>

record world =
  stdout :: "string list"
  saved :: "(string \<times> workbook) list"
  writable :: "string \<Rightarrow> bool"

section \<open>The class ExcelReportGenerator\<close>

record generator =
  results :: "(string \<times> (string \<times> dataframe) list) list"
  intro_text :: "string list"
  wb :: workbook
  global_table_counter :: int

text \<open>\<^verbatim>\<open>__init__\<close> (lines 10 to 24).\<close>

definition ExcelReportGenerator ::
  "(string \<times> (string \<times> dataframe) list) list \<Rightarrow> string list \<Rightarrow> generator" where
  "ExcelReportGenerator results0 intro_text0 =
     (let wb0 = Workbook;
          wb1 = (if ''Sheet'' \<in> set (sheetnames wb0) then del_sheet wb0 ''Sheet'' else wb0)
      in \<lparr>results = results0, intro_text = intro_text0, wb = wb1, global_table_counter = 1\<rparr>)"

text \<open>\<^verbatim>\<open>create_introduction_sheet\<close> (lines 26 to 37).\<close>

definition create_introduction_sheet :: "generator \<Rightarrow> exn + generator" where
  "create_introduction_sheet self =
     (case create_sheet (wb self) ''Introduction'' (Some 0) of
        Inl e \<Rightarrow> Inl e
      | Inr (w, i) \<Rightarrow>
          (case ws_append (sheet_at w i) [VStr ''Introduction''] of
             Inl e \<Rightarrow> Inl e
           | Inr ws1 \<Rightarrow>
               (let ws2 = modify_cell (ws_get_cell ws1 (1, 1)) (1, 1)
                            (\<lambda>c. c\<lparr>cell_font := Some \<lparr>font_bold = True, font_size = 14\<rparr>\<rparr>)
                in case append_rows ws2 (map (\<lambda>line. [VStr line]) (intro_text self)) of
                     Inl e \<Rightarrow> Inl e
                   | Inr ws3 \<Rightarrow>
                       (let ws4 = ws3\<lparr>column_dimensions := (column_dimensions ws3)(''A'' \<mapsto> 100)\<rparr>
                        in Inr (self\<lparr>wb := set_sheet w i ws4\<rparr>)))))"

text \<open>
  \<^verbatim>\<open>append_df_as_table\<close> (lines 39 to 83). The two loops of lines 78 to 81 first:
  every row of \<open>rows\<close> in one column, and every column whose name is in \<open>rate\<close>.
\<close>

fun format_rows :: "worksheet \<Rightarrow> int \<Rightarrow> int list \<Rightarrow> exn + worksheet" where
  "format_rows ws col_idx [] = Inr ws"
| "format_rows ws col_idx (row_idx # rest) =
     (case ws_cell ws row_idx col_idx None of
        Inl e \<Rightarrow> Inl e
      | Inr ws' \<Rightarrow>
          format_rows (modify_cell ws' (row_idx, col_idx) (\<lambda>c. c\<lparr>number_format := ''0%''\<rparr>))
            col_idx rest)"

fun format_rate_columns ::
  "worksheet \<Rightarrow> string list \<Rightarrow> (int \<times> string) list \<Rightarrow> int list \<Rightarrow> exn + worksheet" where
  "format_rate_columns ws rate [] rows = Inr ws"
| "format_rate_columns ws rate ((col_idx, col_name) # rest) rows =
     (if col_name \<in> set rate
      then (case format_rows ws col_idx rows of
              Inl e \<Rightarrow> Inl e
            | Inr ws' \<Rightarrow> format_rate_columns ws' rate rest rows)
      else format_rate_columns ws rate rest rows)"

definition TableStyleMedium9 :: table_style where
  "TableStyleMedium9 =
     \<lparr>style_name = ''TableStyleMedium9'', showFirstColumn = False, showLastColumn = False,
      showRowStripes = True, showColumnStripes = False\<rparr>"

definition append_df_as_table ::
  "generator \<Rightarrow> worksheet \<Rightarrow> dataframe \<Rightarrow> string \<Rightarrow> int \<Rightarrow> exn + (generator \<times> worksheet \<times> int)" where
  "append_df_as_table self ws df table_title start_row =
     (case ws_cell ws start_row 1 (Some table_title) of
        Inl e \<Rightarrow> Inl e
      | Inr ws1 \<Rightarrow>
          (let ws2 = modify_cell ws1 (start_row, 1)
                       (\<lambda>c. c\<lparr>cell_font := Some \<lparr>font_bold = True, font_size = 12\<rparr>\<rparr>);
               initial_data_row = start_row + 1;
               rows = dataframe_to_rows df
           in case append_rows ws2 rows of
                Inl e \<Rightarrow> Inl e
              | Inr ws3 \<Rightarrow>
                  (let rows_appended = int (length rows);
                       end_row = initial_data_row + rows_appended - 1;
                       start_col = 1;
                       end_col = shape1 df
                   in case get_column_letter start_col of
                        Inl e \<Rightarrow> Inl e
                      | Inr first_letter \<Rightarrow>
                          (case get_column_letter end_col of
                             Inl e \<Rightarrow> Inl e
                           | Inr last_letter \<Rightarrow>
                               (let table_ref = first_letter @ str_int initial_data_row @ '':'' @
                                                last_letter @ str_int end_row;
                                    table = \<lparr>displayName =
                                               ''Table'' @ str_int (global_table_counter self),
                                             ref = table_ref,
                                             tableStyleInfo = Some TableStyleMedium9\<rparr>;
                                    self' = self\<lparr>global_table_counter :=
                                                   global_table_counter self + 1\<rparr>
                                in case add_table (wb self) ws3 table of
                                     Inl e \<Rightarrow> Inl e
                                   | Inr ws4 \<Rightarrow>
                                       (case format_rate_columns ws4
                                               (filter (str_contains ''Rate'') (columns df))
                                               (zip [1..int (length (columns df))] (columns df))
                                               [initial_data_row + 1..end_row] of
                                          Inl e \<Rightarrow> Inl e
                                        | Inr ws5 \<Rightarrow> Inr (self', ws5, end_row + 2)))))))"

text \<open>
  The anchor of an image (lines 112 to 115 and 154 to 157): \<open>start_col\<close> is a string
  or an integer.
\<close>

datatype col_arg = ColStr string | ColInt int

definition anchor_cell :: "col_arg \<Rightarrow> int \<Rightarrow> exn + string" where
  "anchor_cell start_col start_row =
     (case start_col of
        ColStr s \<Rightarrow> Inr (s @ str_int start_row)
      | ColInt k \<Rightarrow>
          (case get_column_letter k of
             Inl e \<Rightarrow> Inl e
           | Inr letter \<Rightarrow> Inr (letter @ str_int start_row)))"

text \<open>
  The constructor \<^verbatim>\<open>Image(src)\<close>: \<^verbatim>\<open>ImportError\<close> without Pillow, an
  \<^verbatim>\<open>OSError\<close> of Pillow's when the source is not an image.
\<close>

definition Image :: "environment \<Rightarrow> bool \<Rightarrow> exn + image" where
  "Image env is_image =
     (if \<not> pillow_installed env
      then Inl (Exn ImportError ''You must install Pillow to fetch image objects'')
      else if \<not> is_image then Inl (Exn OSError ''cannot identify image file'')
      else Inr \<lparr>anchor = ''A1'', img_width = 0, img_height = 0\<rparr>)"

text \<open>
  \<^verbatim>\<open>add_image_from_figure\<close> (lines 85 to 125) and \<^verbatim>\<open>add_image_from_file\<close> (lines
  127 to 167). The result is the worksheet, the returned row and what has been printed;
  an exception that is not an \<^verbatim>\<open>ImportError\<close> leaves the function.
\<close>

definition add_image_from_figure ::
  "environment \<Rightarrow> worksheet \<Rightarrow> figure \<Rightarrow> int \<Rightarrow> col_arg \<Rightarrow> int \<Rightarrow> int \<Rightarrow> string list
     \<Rightarrow> exn + (worksheet \<times> int \<times> string list)" where
  "add_image_from_figure env ws fig start_row start_col width height out =
     (let body =
        (case savefig fig of
           Some e \<Rightarrow> Inl e
         | None \<Rightarrow>
             (case Image env True of
                Inl e \<Rightarrow> Inl e
              | Inr img \<Rightarrow>
                  (case anchor_cell start_col start_row of
                     Inl e \<Rightarrow> Inl e
                   | Inr anchor_cell' \<Rightarrow>
                       (let img' = img\<lparr>img_width := width, img_height := height,
                                      anchor := anchor_cell'\<rparr>;
                            ws' = ws\<lparr>images := images ws @ [img']\<rparr>;
                            rows_occupied = py_int_truediv height 15 + 2
                        in Inr (ws', start_row + rows_occupied, out)))))
      in case body of
           Inl e \<Rightarrow>
             (if exn_cls e = ImportError
              then Inr (ws, start_row + 1,
                        out @ [''Warning: Image embedding requires matplotlib. Skipping image.''])
              else Inl e)
         | Inr r \<Rightarrow> Inr r)"

definition add_image_from_file ::
  "environment \<Rightarrow> worksheet \<Rightarrow> string \<Rightarrow> int \<Rightarrow> col_arg \<Rightarrow> int \<Rightarrow> int \<Rightarrow> string list
     \<Rightarrow> exn + (worksheet \<times> int \<times> string list)" where
  "add_image_from_file env ws image_path start_row start_col width height out =
     (let body =
        (if \<not> path_exists env image_path
         then Inr (ws, start_row + 1, out @ [''Warning: Image file not found: '' @ image_path])
         else
           (case Image env (path_is_image env image_path) of
              Inl e \<Rightarrow> Inl e
            | Inr img \<Rightarrow>
                (case anchor_cell start_col start_row of
                   Inl e \<Rightarrow> Inl e
                 | Inr anchor_cell' \<Rightarrow>
                     (let img' = img\<lparr>img_width := width, img_height := height,
                                    anchor := anchor_cell'\<rparr>;
                          ws' = ws\<lparr>images := images ws @ [img']\<rparr>;
                          rows_occupied = py_int_truediv height 15 + 2
                      in Inr (ws', start_row + rows_occupied, out)))))
      in case body of
           Inl e \<Rightarrow>
             (if exn_cls e = ImportError
              then Inr (ws, start_row + 1,
                        out @ [''Warning: Image embedding not available. Skipping image.''])
              else Inl e)
         | Inr r \<Rightarrow> Inr r)"

text \<open>
  The width pass that ends the work on a sheet (lines 183 to 186 and 225 to 228): the
  length a cell contributes, the largest of a column, and the assignment of the adjusted
  width to the column's letter. \<open>adjusted\<close> is \<^verbatim>\<open>max_length + 2\<close> in
  \<^verbatim>\<open>create_results_sheets\<close> and \<^verbatim>\<open>min(max_length + 2, 50)\<close> in
  \<^verbatim>\<open>create_results_sheets_with_images\<close>.
\<close>

definition cell_length :: "pyval \<Rightarrow> int" where
  "cell_length v = (if truthy v then int (length (py_str v)) else 0)"

definition max_length :: "pyval list \<Rightarrow> int" where
  "max_length col = py_max_default (map cell_length col) 0"

fun set_widths :: "(int \<Rightarrow> int) \<Rightarrow> (int \<times> pyval list) list \<Rightarrow> worksheet \<Rightarrow> exn + worksheet" where
  "set_widths adjusted [] ws = Inr ws"
| "set_widths adjusted ((c, col) # cols) ws =
     (case get_column_letter c of
        Inl e \<Rightarrow> Inl e
      | Inr letter \<Rightarrow>
          set_widths adjusted cols
            (ws\<lparr>column_dimensions := (column_dimensions ws)(letter \<mapsto> adjusted (max_length col))\<rparr>))"

definition auto_width :: "(int \<Rightarrow> int) \<Rightarrow> worksheet \<Rightarrow> exn + worksheet" where
  "auto_width adjusted ws = set_widths adjusted (ws_columns ws) ws"

definition adjusted_width :: "int \<Rightarrow> int" where
  "adjusted_width m = m + 2"

definition adjusted_width_capped :: "int \<Rightarrow> int" where
  "adjusted_width_capped m = min (m + 2) 50"

text \<open>\<^verbatim>\<open>create_results_sheets\<close> (lines 169 to 186): the loop over the tables of a
  sheet, and the loop over the sheets.\<close>

fun place_tables ::
  "generator \<Rightarrow> worksheet \<Rightarrow> (string \<times> dataframe) list \<Rightarrow> int
     \<Rightarrow> exn + (generator \<times> worksheet \<times> int)" where
  "place_tables self ws [] row = Inr (self, ws, row)"
| "place_tables self ws ((table_title, df) # rest) row =
     (case append_df_as_table self ws df table_title row of
        Inl e \<Rightarrow> Inl e
      | Inr (self', ws', row') \<Rightarrow> place_tables self' ws' rest row')"

fun results_sheets_loop ::
  "generator \<Rightarrow> (string \<times> (string \<times> dataframe) list) list \<Rightarrow> exn + generator" where
  "results_sheets_loop self [] = Inr self"
| "results_sheets_loop self ((sheet_name, queries_dict) # rest) =
     (case create_sheet (wb self) sheet_name None of
        Inl e \<Rightarrow> Inl e
      | Inr (w, i) \<Rightarrow>
          (case place_tables (self\<lparr>wb := w\<rparr>) (sheet_at w i) queries_dict 1 of
             Inl e \<Rightarrow> Inl e
           | Inr (self1, ws1, row) \<Rightarrow>
               (case auto_width adjusted_width ws1 of
                  Inl e \<Rightarrow> Inl e
                | Inr ws2 \<Rightarrow> results_sheets_loop (self1\<lparr>wb := set_sheet (wb self1) i ws2\<rparr>) rest)))"

definition create_results_sheets :: "generator \<Rightarrow> exn + generator" where
  "create_results_sheets self = results_sheets_loop self (results self)"

text \<open>
  \<^verbatim>\<open>create_results_sheets_with_images\<close> (lines 188 to 228). The loop over the figures
  (lines 212 to 221) stops at the first exception, with the sheet and the row as they
  are then; closing a figure has no effect on the report, and what it raises is
  discarded. The \<^verbatim>\<open>try\<close> block of one table (lines 204 to 223) turns every exception
  into a printed warning.
\<close>

fun place_figures ::
  "environment \<Rightarrow> worksheet \<Rightarrow> figure option list \<Rightarrow> int \<Rightarrow> string list
     \<Rightarrow> exn option \<times> worksheet \<times> int \<times> string list" where
  "place_figures env ws [] row out = (None, ws, row, out)"
| "place_figures env ws (None # figs) row out = place_figures env ws figs row out"
| "place_figures env ws (Some fig # figs) row out =
     (case add_image_from_figure env ws fig row (ColStr ''A'') 600 400 out of
        Inl e \<Rightarrow> (Some e, ws, row, out)
      | Inr (ws', row', out') \<Rightarrow> place_figures env ws' figs (row' + 1) out')"

definition dict_truthy :: "('k \<times> 'v) list option \<Rightarrow> bool" where
  "dict_truthy d = (case d of None \<Rightarrow> False | Some kvs \<Rightarrow> kvs \<noteq> [])"

definition failed_images_warning :: "string \<Rightarrow> string \<Rightarrow> exn \<Rightarrow> string" where
  "failed_images_warning sheet_name table_title e =
     ''Warning: Failed to add images for '' @ sheet_name @ ''/'' @ table_title @ '': '' @ exn_msg e"

definition table_images ::
  "environment \<Rightarrow> (string \<times> image_func) list option \<Rightarrow> string \<Rightarrow> dataframe \<Rightarrow> string
     \<Rightarrow> worksheet \<Rightarrow> int \<Rightarrow> string list \<Rightarrow> worksheet \<times> int \<times> string list" where
  "table_images env image_functions sheet_name df table_title ws row out =
     (if dict_truthy image_functions \<and> map_of (the image_functions) sheet_name \<noteq> None
      then
        (let image_func = the (map_of (the image_functions) sheet_name)
         in case image_func df table_title of
              Inl e \<Rightarrow> (ws, row, out @ [failed_images_warning sheet_name table_title e])
            | Inr provided \<Rightarrow>
                (let figures = (case provided of Sequence figs \<Rightarrow> figs | Single fig \<Rightarrow> [fig])
                 in case place_figures env ws figures row out of
                      (Some e, ws', row', out') \<Rightarrow>
                        (ws', row', out' @ [failed_images_warning sheet_name table_title e])
                    | (None, ws', row', out') \<Rightarrow> (ws', row', out')))
      else (ws, row, out))"

fun place_tables_with_images ::
  "environment \<Rightarrow> (string \<times> image_func) list option \<Rightarrow> string \<Rightarrow> generator \<Rightarrow> worksheet
     \<Rightarrow> (string \<times> dataframe) list \<Rightarrow> int \<Rightarrow> string list
     \<Rightarrow> exn + (generator \<times> worksheet \<times> int \<times> string list)" where
  "place_tables_with_images env image_functions sheet_name self ws [] row out =
     Inr (self, ws, row, out)"
| "place_tables_with_images env image_functions sheet_name self ws ((table_title, df) # rest) row out =
     (case append_df_as_table self ws df table_title row of
        Inl e \<Rightarrow> Inl e
      | Inr (self', ws', row') \<Rightarrow>
          (case table_images env image_functions sheet_name df table_title ws' row' out of
             (ws'', row'', out') \<Rightarrow>
               place_tables_with_images env image_functions sheet_name self' ws'' rest row'' out'))"

fun results_sheets_with_images_loop ::
  "environment \<Rightarrow> (string \<times> image_func) list option \<Rightarrow> generator
     \<Rightarrow> (string \<times> (string \<times> dataframe) list) list \<Rightarrow> string list
     \<Rightarrow> exn + (generator \<times> string list)" where
  "results_sheets_with_images_loop env image_functions self [] out = Inr (self, out)"
| "results_sheets_with_images_loop env image_functions self ((sheet_name, queries_dict) # rest) out =
     (case create_sheet (wb self) sheet_name None of
        Inl e \<Rightarrow> Inl e
      | Inr (w, i) \<Rightarrow>
          (case place_tables_with_images env image_functions sheet_name (self\<lparr>wb := w\<rparr>)
                  (sheet_at w i) queries_dict 1 out of
             Inl e \<Rightarrow> Inl e
           | Inr (self1, ws1, row, out1) \<Rightarrow>
               (case auto_width adjusted_width_capped ws1 of
                  Inl e \<Rightarrow> Inl e
                | Inr ws2 \<Rightarrow>
                    results_sheets_with_images_loop env image_functions
                      (self1\<lparr>wb := set_sheet (wb self1) i ws2\<rparr>) rest out1)))"

definition create_results_sheets_with_images ::
  "environment \<Rightarrow> generator \<Rightarrow> (string \<times> image_func) list option \<Rightarrow> string list
     \<Rightarrow> exn + (generator \<times> string list)" where
  "create_results_sheets_with_images env self image_functions out =
     results_sheets_with_images_loop env image_functions self (results self) out"

text \<open>
  \<^verbatim>\<open>wb.save(path)\<close> writes the file, or raises the \<^verbatim>\<open>OSError\<close> of the operating
  system (of the class \<^verbatim>\<open>FileNotFoundError\<close>, \<^verbatim>\<open>PermissionError\<close>, ...) when
  the path cannot be written to (the message is that of the operating system; the model
  keeps the path). The file format is not part of the model: saving records the workbook
  under the path.
\<close>

definition save :: "workbook \<Rightarrow> string \<Rightarrow> world \<Rightarrow> exn + world" where
  "save w path wd =
     (if writable wd path then Inr (wd\<lparr>saved := (path, w) # saved wd\<rparr>)
      else Inl (Exn OSError path))"

text \<open>\<^verbatim>\<open>generate_workbook\<close> (lines 230 to 246).\<close>

definition generate_workbook ::
  "environment \<Rightarrow> generator \<Rightarrow> string \<Rightarrow> (string \<times> image_func) list option \<Rightarrow> world
     \<Rightarrow> exn + (generator \<times> world)" where
  "generate_workbook env self output_path image_functions w =
     (case create_introduction_sheet self of
        Inl e \<Rightarrow> Inl e
      | Inr self1 \<Rightarrow>
          (case (if dict_truthy image_functions
                 then create_results_sheets_with_images env self1 image_functions (stdout w)
                 else (case create_results_sheets self1 of
                         Inl e \<Rightarrow> Inl e
                       | Inr self2 \<Rightarrow> Inr (self2, stdout w))) of
             Inl e \<Rightarrow> Inl e
           | Inr (self2, out) \<Rightarrow>
               (case save (wb self2) output_path (w\<lparr>stdout := out\<rparr>) of
                  Inl e \<Rightarrow> Inl e
                | Inr w' \<Rightarrow>
                    Inr (self2,
                         w'\<lparr>stdout := stdout w' @
                              [''Workbook successfully saved to '' @ output_path]\<rparr>))))"

section \<open>Well-formed inputs and sheets\<close>

text \<open>
  The cell object found at a coordinate (a blank one where none was written), and the
  coordinates that have a cell.
\<close>

definition cell_at :: "worksheet \<Rightarrow> int \<times> int \<Rightarrow> cell" where
  "cell_at ws rc = (case map_of (cells ws) rc of None \<Rightarrow> new_cell VNone | Some c \<Rightarrow> c)"

definition cell_keys :: "worksheet \<Rightarrow> (int \<times> int) set" where
  "cell_keys ws = fst ` set (cells ws)"

text \<open>
  What openpyxl maintains of a worksheet: every cell lies in a row from 1 to
  \<^verbatim>\<open>_current_row\<close> and in a column from 1 to 18278.
\<close>

definition ws_inv :: "worksheet \<Rightarrow> bool" where
  "ws_inv ws =
     (0 \<le> current_row ws \<and>
      list_all (\<lambda>(rc, c). 1 \<le> fst rc \<and> fst rc \<le> current_row ws \<and> 1 \<le> snd rc \<and> snd rc \<le> 18278)
        (cells ws))"

text \<open>
  A string that a cell takes as it is: at most 32767 characters, none of them a control
  character that \<^verbatim>\<open>check_string\<close> refuses. A value that a cell takes as it is: such
  a string, or a value of another type that has a cell type.
\<close>

definition storable_string :: "string \<Rightarrow> bool" where
  "storable_string s = (length s \<le> 32767 \<and> \<not> list_ex illegal_character s)"

fun storable :: "pyval \<Rightarrow> bool" where
  "storable (VStr s) = storable_string s"
| "storable (VObject s t) = False"
| "storable v = True"

text \<open>The sheet after a row of such values was appended.\<close>

definition append_row :: "worksheet \<Rightarrow> pyval list \<Rightarrow> worksheet" where
  "append_row ws row =
     (let row_idx = current_row ws + 1
      in ws\<lparr>cells := map (\<lambda>(col_idx, content). ((row_idx, col_idx), new_cell content))
                         (zip [1..int (length row)] row) @ cells ws,
            current_row := row_idx\<rparr>)"

text \<open>
  A table as pandas builds it has rows as long as its list of columns. A table the
  generator can place has at least one column and at most 18278, the last column a
  worksheet has a letter for, and column names and values that a cell takes as they are.
\<close>

definition wf_dataframe :: "dataframe \<Rightarrow> bool" where
  "wf_dataframe df =
     (1 \<le> length (columns df) \<and> length (columns df) \<le> 18278 \<and>
      list_all (\<lambda>row. length row = length (columns df)) (data_rows df) \<and>
      list_all storable_string (columns df) \<and>
      list_all (list_all storable) (data_rows df))"

text \<open>
  A sheet name the workbook takes as it is: not empty, without a character a title
  must not have. The input mapping is well formed when its sheet names are such names,
  differ from each other and from \<open>Introduction\<close> also when letter case is ignored (a
  workbook renames a sheet whose title it already has in another case), and all its tables
  are well formed and have a title that a cell takes as it is.
\<close>

definition valid_title :: "string \<Rightarrow> bool" where
  "valid_title n = (n \<noteq> [] \<and> list_all (\<lambda>c. \<not> invalid_title_char c) n)"

definition wf_results :: "(string \<times> (string \<times> dataframe) list) list \<Rightarrow> bool" where
  "wf_results rs =
     (list_all valid_title (map fst rs) \<and>
      distinct (map lower (''Introduction'' # map fst rs)) \<and>
      list_all (\<lambda>(sheet_name, queries_dict). list_all (\<lambda>(title, df). storable_string title \<and> wf_dataframe df) queries_dict) rs)"

text \<open>The font of a table title.\<close>

definition bold12 :: font where
  "bold12 = \<lparr>font_bold = True, font_size = 12\<rparr>"

text \<open>
  The names the generator gives to \<open>n\<close> tables from the counter value \<open>c\<close> on, and
  what it means that a table stands on a sheet from row \<open>start_row\<close> on: the title in
  column 1 of that row, the column names in the next row, the data rows below.
\<close>

definition table_names :: "int \<Rightarrow> int \<Rightarrow> string list" where
  "table_names c n = map (\<lambda>k. ''Table'' @ str_int k) [c..c + n - 1]"

definition table_at :: "worksheet \<Rightarrow> string \<Rightarrow> dataframe \<Rightarrow> int \<Rightarrow> bool" where
  "table_at ws table_title df start_row =
     (value_at ws (start_row, 1) = VStr table_title \<and>
      list_all (\<lambda>c. value_at ws (start_row + 1, c) = VStr (columns df ! nat (c - 1)))
        [1..int (length (columns df))] \<and>
      list_all (\<lambda>r. list_all (\<lambda>c. value_at ws (r, c) =
                                   data_rows df ! nat (r - start_row - 2) ! nat (c - 1))
                        [1..int (length (columns df))])
        [start_row + 2..start_row + 1 + int (length (data_rows df))])"

text \<open>
  The values of the cells of a column as the width pass reads them, and what the pass
  leaves on a sheet: every column from 1 to \<^verbatim>\<open>max_column\<close> has the adjusted width of
  its largest length. A list of tables stands on a sheet when each has its place, one
  below the other.
\<close>

definition column_values :: "worksheet \<Rightarrow> int \<Rightarrow> pyval list" where
  "column_values ws c = map (\<lambda>r. value_at ws (r, c)) [1..max_row ws]"

definition widths_set :: "(int \<Rightarrow> int) \<Rightarrow> worksheet \<Rightarrow> bool" where
  "widths_set adjusted ws =
     list_all (\<lambda>c. case get_column_letter c of
                     Inl e \<Rightarrow> False
                   | Inr letter \<Rightarrow>
                       column_dimensions ws letter = Some (adjusted (max_length (column_values ws c))))
       (if current_row ws = 0 then [] else [1..max_column ws])"

definition tables_placed :: "worksheet \<Rightarrow> (string \<times> dataframe) list \<Rightarrow> bool" where
  "tables_placed ws qs =
     (\<exists>starts. length starts = length qs
        \<and> (\<forall>i < length qs. 1 \<le> starts ! i
              \<and> starts ! i + 1 + int (length (data_rows (snd (qs ! i)))) \<le> current_row ws
              \<and> table_at ws (fst (qs ! i)) (snd (qs ! i)) (starts ! i))
        \<and> (\<forall>i j. i < j \<and> j < length qs \<longrightarrow>
              starts ! i + 1 + int (length (data_rows (snd (qs ! i)))) < starts ! j))"

text \<open>The number of tables of an input mapping, and the table names of a workbook in
  the order of its sheets.\<close>

definition total_tables :: "(string \<times> (string \<times> dataframe) list) list \<Rightarrow> int" where
  "total_tables rs = sum_list (map (\<lambda>(sheet_name, queries_dict). int (length queries_dict)) rs)"

definition sheet_table_names :: "(string \<times> worksheet) list \<Rightarrow> string list" where
  "sheet_table_names shs = concat (map (\<lambda>(n, ws). map displayName (tables ws)) shs)"

text \<open>
  No table of the workbook, and none of the sheet at hand, has one of the names the
  counter gives from the value \<open>c\<close> on.
\<close>

definition names_free :: "workbook \<Rightarrow> worksheet \<Rightarrow> int \<Rightarrow> bool" where
  "names_free w ws c = (\<forall>k \<ge> c. \<not> duplicate_name w ws (''Table'' @ str_int k))"

section \<open>Inputs of the examples\<close>

definition empty_table :: dataframe where
  "empty_table = \<lparr>columns = [''A'', ''B''], data_rows = []\<rparr>"

definition category_data :: dataframe where
  "category_data =
     \<lparr>columns = [''Category'', ''Values'', ''Rate''],
      data_rows = [[VStr ''A'', VInt 10, VFloat ''0.1'' True],
                   [VStr ''B'', VInt 20, VFloat ''0.2'' True],
                   [VStr ''C'', VInt 30, VFloat ''0.3'' True]]\<rparr>"

text \<open>The introduction lines of the repository's tests.\<close>

definition test_intro_text :: "string list" where
  "test_intro_text = [''Test Report'', ''This is a test report.'', ''Generated automatically.'']"

definition two_sheets :: "(string \<times> (string \<times> dataframe) list) list" where
  "two_sheets =
     [(''Analysis'', [(''Category Data'', category_data), (''Empty'', empty_table)]),
      (''Summary'', [(''Totals'', category_data)])]"

definition with_pillow :: environment where
  "with_pillow = \<lparr>pillow_installed = True, path_exists = (\<lambda>p. False), path_is_image = (\<lambda>p. False)\<rparr>"

definition new_world :: world where
  "new_world = \<lparr>stdout = [], saved = [], writable = (\<lambda>p. True)\<rparr>"

section \<open>Strings and column letters\<close>

declare str_digits.simps [simp del] column_letter_loop.simps [simp del]

lemma ord_chr: "0 \<le> n \<Longrightarrow> n < 256 \<Longrightarrow> ord (chr n) = n"
  by (simp add: ord_def chr_def of_char_of)

lemma chr_ord: "chr (ord c) = c"
  by (simp add: ord_def chr_def)

lemma column_letter_loop_stop: "k \<le> 0 \<Longrightarrow> column_letter_loop k acc = acc"
  by (subst column_letter_loop.simps) simp

lemma column_letter_loop_Z:
  "0 < k \<Longrightarrow> k mod 26 = 0 \<Longrightarrow>
   column_letter_loop k acc = column_letter_loop (k div 26 - 1) (acc @ [chr (26 + 64)])"
  by (subst column_letter_loop.simps) simp

lemma column_letter_loop_other:
  "0 < k \<Longrightarrow> k mod 26 \<noteq> 0 \<Longrightarrow>
   column_letter_loop k acc = column_letter_loop (k div 26) (acc @ [chr (k mod 26 + 64)])"
  by (subst column_letter_loop.simps) simp

lemma column_letter_loop_acc:
  "column_letter_loop k acc = acc @ column_letter_loop k []"
proof (induction "nat k" arbitrary: k acc rule: less_induct)
  case less
  consider "k \<le> 0" | "0 < k" "k mod 26 = 0" | "0 < k" "k mod 26 \<noteq> 0"
    by linarith
  then show ?case
  proof cases
    case 1
    then show ?thesis by (simp add: column_letter_loop_stop)
  next
    case 2
    have lt: "nat (k div 26 - 1) < nat k"
      using 2 by simp
    show ?thesis
      using less[OF lt, of "acc @ [chr (26 + 64)]"] less[OF lt, of "[chr (26 + 64)]"]
      by (simp add: column_letter_loop_Z[OF 2])
  next
    case 3
    have lt: "nat (k div 26) < nat k"
      using 3 by simp
    show ?thesis
      using less[OF lt, of "acc @ [chr (k mod 26 + 64)]"] less[OF lt, of "[chr (k mod 26 + 64)]"]
      by (simp add: column_letter_loop_other[OF 3])
  qed
qed

text \<open>Reading the letters back gives the index.\<close>

lemma column_index_snoc:
  "column_index_from_string (s @ [c]) = column_index_from_string s * 26 + (ord c - 64)"
  by (simp add: column_index_from_string_def)

lemma column_index_of_letters:
  "0 \<le> k \<Longrightarrow> column_index_from_string (rev (column_letter_loop k [])) = k"
proof (induction "nat k" arbitrary: k rule: less_induct)
  case less
  consider "k = 0" | "0 < k" "k mod 26 = 0" | "0 < k" "k mod 26 \<noteq> 0"
    using less.prems by linarith
  then show ?case
  proof cases
    case 1
    then show ?thesis by (simp add: column_letter_loop_stop column_index_from_string_def)
  next
    case 2
    have lt: "nat (k div 26 - 1) < nat k" and ge: "0 \<le> k div 26 - 1"
      using 2 by auto
    have "column_letter_loop k [] = chr (26 + 64) # column_letter_loop (k div 26 - 1) []"
      using column_letter_loop_acc[of "k div 26 - 1" "[chr (26 + 64)]"]
      by (simp add: column_letter_loop_Z[OF 2])
    then have "column_index_from_string (rev (column_letter_loop k []))
                 = (k div 26 - 1) * 26 + (ord (chr (26 + 64)) - 64)"
      using less.hyps[OF lt ge] by (simp add: column_index_snoc)
    also have "\<dots> = k"
      using 2 by (simp add: ord_chr) presburger
    finally show ?thesis .
  next
    case 3
    have lt: "nat (k div 26) < nat k" and ge: "0 \<le> k div 26"
      using 3 by auto
    have m: "0 \<le> k mod 26 + 64" "k mod 26 + 64 < 256"
      by (auto intro: order_less_trans[OF pos_mod_bound])
    have "column_letter_loop k [] = chr (k mod 26 + 64) # column_letter_loop (k div 26) []"
      using column_letter_loop_acc[of "k div 26" "[chr (k mod 26 + 64)]"]
      by (simp add: column_letter_loop_other[OF 3])
    then have "column_index_from_string (rev (column_letter_loop k []))
                 = (k div 26) * 26 + (ord (chr (k mod 26 + 64)) - 64)"
      using less.hyps[OF lt ge] by (simp add: column_index_snoc)
    also have "\<dots> = k"
      using m by (simp add: ord_chr)
    finally show ?thesis .
  qed
qed

text \<open>Writing the index of a name in capital letters gives the name back.\<close>

lemma column_index_nonneg:
  "\<forall>c \<in> set s. capital_letter c \<Longrightarrow> 0 \<le> column_index_from_string s"
  by (induction s rule: rev_induct) (auto simp: column_index_snoc capital_letter_def ord_def column_index_from_string_def)

lemma letters_of_column_index:
  "\<forall>c \<in> set s. capital_letter c \<Longrightarrow> column_letter_loop (column_index_from_string s) [] = rev s"
proof (induction s rule: rev_induct)
  case Nil
  then show ?case by (simp add: column_index_from_string_def column_letter_loop_stop)
next
  case (snoc c s)
  let ?m = "column_index_from_string s"
  let ?v = "ord c - 64"
  have m: "0 \<le> ?m" using snoc.prems by (simp add: column_index_nonneg)
  have v: "1 \<le> ?v" "?v \<le> 26" using snoc.prems by (auto simp: capital_letter_def ord_def)
  have IH: "column_letter_loop ?m [] = rev s" using snoc by simp
  have k: "column_index_from_string (s @ [c]) = ?m * 26 + ?v" by (rule column_index_snoc)
  have pos: "0 < ?m * 26 + ?v" using m v by linarith
  define K where "K = ?m * 26 + ?v"
  have posK: "0 < K" using pos by (simp add: K_def)
  show ?case
  proof (cases "?v = 26")
    case True
    have md: "K mod 26 = 0" "K div 26 - 1 = ?m"
      using True by (auto simp: K_def)
    have c: "chr (26 + 64) = c" using True chr_ord[of c] by (simp add: algebra_simps)
    have "column_letter_loop K [] = column_letter_loop ?m [c]"
      using column_letter_loop_Z[OF posK md(1), of "[]"] by (simp only: md c append_Nil)
    also have "\<dots> = c # rev s"
      using column_letter_loop_acc[of ?m "[c]"] IH by simp
    finally show ?thesis by (simp add: k K_def)
  next
    case False
    have md: "K mod 26 = ?v" "K div 26 = ?m"
      using False v by (auto simp: K_def)
    have ne: "K mod 26 \<noteq> 0" using md v by linarith
    have c: "chr (?v + 64) = c" using chr_ord[of c] by simp
    have "column_letter_loop K [] = column_letter_loop ?m [c]"
      using column_letter_loop_other[OF posK ne, of "[]"] by (simp only: md c append_Nil)
    also have "\<dots> = c # rev s"
      using column_letter_loop_acc[of ?m "[c]"] IH by simp
    finally show ?thesis by (simp add: k K_def)
  qed
qed


lemma str_digits_small: "n < 10 \<Longrightarrow> str_digits n = [chr (48 + n)]"
  by (subst str_digits.simps) simp

lemma str_digits_large:
  "10 \<le> n \<Longrightarrow> str_digits n = str_digits (n div 10) @ [chr (48 + n mod 10)]"
  by (subst str_digits.simps) simp

lemma int_of_digits_snoc: "int_of_digits (s @ [c]) = int_of_digits s * 10 + (ord c - 48)"
  by (simp add: int_of_digits_def)

lemma int_of_str_digits: "0 \<le> n \<Longrightarrow> int_of_digits (str_digits n) = n"
proof (induction n rule: str_digits.induct)
  case (1 n)
  show ?case
  proof (cases "n < 10")
    case True
    then show ?thesis
      using "1.prems" by (simp add: str_digits_small int_of_digits_def ord_chr)
  next
    case False
    have d: "0 \<le> 48 + n mod 10" "48 + n mod 10 < 256"
      by (auto intro: order_less_trans[OF pos_mod_bound])
    have "int_of_digits (str_digits (n div 10)) = n div 10"
      using "1.IH" False "1.prems" by simp
    then show ?thesis
      using False d by (simp add: str_digits_large int_of_digits_snoc ord_chr)
  qed
qed

lemma str_int_inj: "0 \<le> a \<Longrightarrow> 0 \<le> b \<Longrightarrow> str_int a = str_int b \<Longrightarrow> a = b"
  by (metis int_of_str_digits str_int_def not_less)

lemma str_digits_nonempty: "str_digits n \<noteq> []"
  by (subst str_digits.simps) simp

lemma get_column_letter_ok:
  "1 \<le> k \<Longrightarrow> k \<le> 18278 \<Longrightarrow> get_column_letter k = Inr (rev (column_letter_loop k []))"
  by (simp add: get_column_letter_def)

lemma get_column_letter_index:
  "get_column_letter k = Inr s \<Longrightarrow> column_index_from_string s = k"
  by (auto simp: get_column_letter_def column_index_of_letters split: if_splits)

lemma get_column_letter_inj:
  "get_column_letter k = Inr s \<Longrightarrow> get_column_letter k' = Inr s \<Longrightarrow> k = k'"
  using get_column_letter_index by blast

lemma get_column_letter_of_index:
  assumes "\<forall>c \<in> set s. capital_letter c" and "s \<noteq> []"
    and "column_index_from_string s \<le> 18278"
  shows "get_column_letter (column_index_from_string s) = Inr s"
proof -
  obtain s' c where s: "s = s' @ [c]"
    using assms(2) by (meson rev_exhaust)
  have "0 \<le> column_index_from_string s'" "1 \<le> ord c - 64"
    using assms(1) s by (auto simp: column_index_nonneg capital_letter_def ord_def)
  then have "1 \<le> column_index_from_string s"
    by (simp add: s column_index_snoc)
  then show ?thesis
    using assms by (simp add: get_column_letter_def letters_of_column_index)
qed

lemma get_column_letter_1: "get_column_letter 1 = Inr ''A''"
proof -
  have "column_letter_loop 1 [] = ''A''"
    by (simp add: column_letter_loop_other column_letter_loop_stop chr_def char_of_def)
  then show ?thesis by (simp add: get_column_letter_def)
qed

lemma lower_append: "lower (xs @ ys) = lower xs @ lower ys"
  by (simp add: lower_def)

lemma lower_char_digit: "0 \<le> d \<Longrightarrow> d < 10 \<Longrightarrow> lower_char (chr (48 + d)) = chr (48 + d)"
  by (simp add: lower_char_def capital_letter_def ord_chr) (simp add: ord_def)

lemma lower_str_digits: "0 \<le> n \<Longrightarrow> lower (str_digits n) = str_digits n"
proof (induction n rule: str_digits.induct)
  case (1 n)
  show ?case
  proof (cases "n < 10")
    case True
    then show ?thesis
      using "1.prems" by (simp add: str_digits_small lower_def lower_char_digit)
  next
    case False
    have "lower (str_digits (n div 10)) = str_digits (n div 10)"
      using "1.IH" False "1.prems" by simp
    then show ?thesis
      using False by (simp add: str_digits_large lower_append) (simp add: lower_def lower_char_digit)
  qed
qed

lemma lower_table_name_inj:
  assumes "0 \<le> a" and "0 \<le> b"
    and "lower (''Table'' @ str_int a) = lower (''Table'' @ str_int b)"
  shows "a = b"
proof -
  have "lower (str_int a) = lower (str_int b)"
    using assms(3) unfolding lower_append by simp
  then have "str_int a = str_int b"
    using assms(1,2) by (simp add: str_int_def lower_str_digits)
  then show ?thesis
    using assms(1,2) by (rule str_int_inj[rotated 2])
qed

section \<open>Cells of a worksheet\<close>

lemma value_at_cell_at: "value_at ws rc = cell_value (cell_at ws rc)"
  by (simp add: value_at_def cell_at_def new_cell_def split: option.splits)


lemma font_at_cell_at: "font_at ws rc = cell_font (cell_at ws rc)"
  by (simp add: font_at_def cell_at_def new_cell_def split: option.splits)

lemma cell_keys_map_of: "(rc \<in> cell_keys ws) = (map_of (cells ws) rc \<noteq> None)"
  by (simp add: cell_keys_def map_of_eq_None_iff)

lemma cell_at_blank: "rc \<notin> cell_keys ws \<Longrightarrow> cell_at ws rc = new_cell VNone"
  by (simp add: cell_at_def cell_keys_map_of)

subsection \<open>ws_get_cell\<close>

lemma cell_at_get_cell [simp]: "cell_at (ws_get_cell ws rc) rc' = cell_at ws rc'"
  by (auto simp: ws_get_cell_def cell_at_def split: option.splits)

lemma cell_keys_get_cell [simp]: "cell_keys (ws_get_cell ws rc) = insert rc (cell_keys ws)"
  by (auto simp: ws_get_cell_def cell_keys_def split: option.splits dest: map_of_SomeD
      intro: rev_image_eqI)

lemma current_row_get_cell:
  "current_row (ws_get_cell ws rc) =
     (if rc \<in> cell_keys ws then current_row ws else max (fst rc) (current_row ws))"
  by (cases "map_of (cells ws) rc") (auto simp: ws_get_cell_def cell_keys_map_of)

lemma others_get_cell [simp]:
  "tables (ws_get_cell ws rc) = tables ws"
  "images (ws_get_cell ws rc) = images ws"
  "column_dimensions (ws_get_cell ws rc) = column_dimensions ws"
  by (auto simp: ws_get_cell_def split: option.splits)

subsection \<open>modify_cell\<close>

lemma cell_at_modify_cell:
  "cell_at (modify_cell ws rc f) rc' =
     (if rc' = rc \<and> rc \<in> cell_keys ws then f (cell_at ws rc) else cell_at ws rc')"
  by (auto simp: modify_cell_def cell_at_def cell_keys_map_of split: option.splits)

lemma cell_keys_modify_cell [simp]: "cell_keys (modify_cell ws rc f) = cell_keys ws"
  by (auto simp: modify_cell_def cell_keys_def split: option.splits dest: map_of_SomeD
      intro: rev_image_eqI)

lemma others_modify_cell [simp]:
  "current_row (modify_cell ws rc f) = current_row ws"
  "tables (modify_cell ws rc f) = tables ws"
  "images (modify_cell ws rc f) = images ws"
  "column_dimensions (modify_cell ws rc f) = column_dimensions ws"
  by (auto simp: modify_cell_def split: option.splits)

subsection \<open>ws_cell\<close>

lemma check_string_ok: "storable_string s \<Longrightarrow> check_string s = Inr s"
  by (simp add: check_string_def storable_string_def)

text \<open>The same without a count up to 32767, for the evaluation of examples.\<close>

lemma check_string_code [code]:
  "check_string s =
     (let value = (if int (length s) \<le> 32767 then s else take 32767 s)
      in if list_ex illegal_character value
         then Inl (Exn IllegalCharacterError (value @ '' cannot be used in worksheets.''))
         else Inr value)"
  by (simp add: check_string_def)

lemma storable_string_code [code]:
  "storable_string s = (int (length s) \<le> 32767 \<and> \<not> list_ex illegal_character s)"
  by (simp add: storable_string_def)

lemma check_string_illegal:
  "length s \<le> 32767 \<Longrightarrow> list_ex illegal_character s \<Longrightarrow>
   check_string s = Inl (Exn IllegalCharacterError (s @ '' cannot be used in worksheets.''))"
  by (simp add: check_string_def)

lemma ws_cell_None:
  "1 \<le> r \<Longrightarrow> 1 \<le> c \<Longrightarrow> ws_cell ws r c None = Inr (ws_get_cell ws (r, c))"
  by (simp add: ws_cell_def)

lemma ws_cell_Some:
  "1 \<le> r \<Longrightarrow> 1 \<le> c \<Longrightarrow> storable_string s \<Longrightarrow>
   ws_cell ws r c (Some s) =
     Inr (modify_cell (ws_get_cell ws (r, c)) (r, c) (\<lambda>c. c\<lparr>cell_value := VStr s\<rparr>))"
  by (simp add: ws_cell_def check_string_ok)

subsection \<open>ws_append\<close>

lemma Cell_ok: "storable v \<Longrightarrow> Cell v = Inr (new_cell v)"
  by (cases v) (simp_all add: Cell_def check_string_ok)

lemma row_cells_ok: "list_all storable row \<Longrightarrow> row_cells row = Inr (map new_cell row)"
  by (induction row) (simp_all add: Cell_ok)

lemma ws_append_ok: "list_all storable row \<Longrightarrow> ws_append ws row = Inr (append_row ws row)"
  by (simp add: ws_append_def append_row_def row_cells_ok Let_def zip_map2 case_prod_beta)

lemma append_rows_ok:
  "list_all (list_all storable) rows \<Longrightarrow>
   append_rows ws rows = Inr (fold (\<lambda>row ws'. append_row ws' row) rows ws)"
  by (induction rows arbitrary: ws) (simp_all add: ws_append_ok)

lemma map_of_enumerate:
  "map_of (zip [k..k + int (length xs) - 1] xs) c =
     (if k \<le> c \<and> c < k + int (length xs) then Some (xs ! nat (c - k)) else None)"
proof (induction xs arbitrary: k)
  case Nil
  then show ?case by simp
next
  case (Cons x xs)
  have up: "[k..k + int (length (x # xs)) - 1] = k # [k + 1..(k + 1) + int (length xs) - 1]"
    by (simp add: upto_rec1 algebra_simps)
  have nth: "nat (c - k) = Suc (nat (c - (k + 1)))" if "k < c"
    using that by simp
  show ?case
    unfolding up using Cons.IH[of "k + 1"] nth by auto
qed

lemma map_of_keyed_row:
  "map_of (map (\<lambda>(col_idx, content). ((R, col_idx), g content)) ps) (r, c) =
     (if r = R then map_option g (map_of ps c) else None)"
  by (induction ps) auto

lemma map_of_row_cells:
  "map_of (map (\<lambda>(col_idx, content). ((R, col_idx), new_cell content)) (zip [1..int (length row)] row)) (r, c) =
     (if r = R \<and> 1 \<le> c \<and> c \<le> int (length row) then Some (new_cell (row ! nat (c - 1))) else None)"
  using map_of_enumerate[of 1 row c] by (auto simp: map_of_keyed_row)

lemma cell_at_append:
  "cell_at (append_row ws row) (r, c) =
     (if r = current_row ws + 1 \<and> 1 \<le> c \<and> c \<le> int (length row)
      then new_cell (row ! nat (c - 1)) else cell_at ws (r, c))"
  by (simp add: append_row_def Let_def cell_at_def map_of_append map_of_row_cells map_add_def)

lemma cell_keys_append:
  "cell_keys (append_row ws row) =
     {(current_row ws + 1, c) | c. 1 \<le> c \<and> c \<le> int (length row)} \<union> cell_keys ws"
proof -
  have "\<And>rc. (rc \<in> cell_keys (append_row ws row)) =
          (rc \<in> {(current_row ws + 1, c) | c. 1 \<le> c \<and> c \<le> int (length row)} \<union> cell_keys ws)"
    by (auto simp add: cell_keys_map_of append_row_def Let_def map_of_append map_of_row_cells
          map_add_def split: option.splits if_splits)
  then show ?thesis by blast
qed

lemma others_append [simp]:
  "current_row (append_row ws row) = current_row ws + 1"
  "tables (append_row ws row) = tables ws"
  "images (append_row ws row) = images ws"
  "column_dimensions (append_row ws row) = column_dimensions ws"
  by (simp_all add: append_row_def Let_def)

text \<open>A block of rows appended one after the other.\<close>

lemma current_row_appends [simp]:
  "current_row (fold (\<lambda>row ws'. append_row ws' row) rows ws) = current_row ws + int (length rows)"
  by (induction rows arbitrary: ws) auto

lemma others_appends [simp]:
  "tables (fold (\<lambda>row ws'. append_row ws' row) rows ws) = tables ws"
  "images (fold (\<lambda>row ws'. append_row ws' row) rows ws) = images ws"
  "column_dimensions (fold (\<lambda>row ws'. append_row ws' row) rows ws) = column_dimensions ws"
  by (induction rows arbitrary: ws) auto

lemma cell_at_appends:
  "cell_at (fold (\<lambda>row ws'. append_row ws' row) rows ws) (r, c) =
     (if current_row ws < r \<and> r \<le> current_row ws + int (length rows) \<and> 1 \<le> c
         \<and> c \<le> int (length (rows ! nat (r - current_row ws - 1)))
      then new_cell (rows ! nat (r - current_row ws - 1) ! nat (c - 1))
      else cell_at ws (r, c))"
proof (induction rows arbitrary: ws)
  case Nil
  then show ?case by auto
next
  case (Cons row rows)
  have nth: "nat (r - current_row ws - 1) = Suc (nat (r - (current_row ws + 1) - 1))"
    if "current_row ws + 1 < r"
    using that by simp
  have step: "fold (\<lambda>row ws'. append_row ws' row) (row # rows) ws
              = fold (\<lambda>row ws'. append_row ws' row) rows (append_row ws row)"
    by simp
  consider "r \<le> current_row ws" | "r = current_row ws + 1" | "current_row ws + 1 < r"
    by linarith
  then show ?case
  proof cases
    case 1
    then show ?thesis
      unfolding step Cons.IH[of "append_row ws row"] by (simp add: cell_at_append)
  next
    case 2
    then show ?thesis
      unfolding step Cons.IH[of "append_row ws row"] by (simp add: cell_at_append)
  next
    case 3
    then show ?thesis
      unfolding step Cons.IH[of "append_row ws row"]
      using nth[OF 3] by (simp add: cell_at_append algebra_simps)
  qed
qed

lemma cell_keys_appends:
  "cell_keys (fold (\<lambda>row ws'. append_row ws' row) rows ws) =
     {(current_row ws + 1 + int i, c) | i c. i < length rows \<and> 1 \<le> c \<and> c \<le> int (length (rows ! i))}
     \<union> cell_keys ws"
proof (induction rows arbitrary: ws)
  case Nil
  then show ?case by simp
next
  case (Cons row rows)
  have "{(current_row ws + 1 + int i, c) | i c. i < length (row # rows) \<and> 1 \<le> c \<and> c \<le> int (length ((row # rows) ! i))}
        = {(current_row ws + 1, c) | c. 1 \<le> c \<and> c \<le> int (length row)}
          \<union> {(current_row ws + 1 + 1 + int i, c) | i c. i < length rows \<and> 1 \<le> c \<and> c \<le> int (length (rows ! i))}"
    (is "?L = ?A \<union> ?B")
  proof (intro set_eqI iffI)
    fix x assume "x \<in> ?L"
    then obtain i c where x: "x = (current_row ws + 1 + int i, c)" "i < length (row # rows)"
      "1 \<le> c" "c \<le> int (length ((row # rows) ! i))" by blast
    show "x \<in> ?A \<union> ?B"
    proof (cases i)
      case 0
      then show ?thesis using x by simp
    next
      case (Suc j)
      then have "x = (current_row ws + 1 + 1 + int j, c)" "j < length rows" "c \<le> int (length (rows ! j))"
        using x by simp_all
      then show ?thesis using x(3) by blast
    qed
  next
    fix x assume "x \<in> ?A \<union> ?B"
    then show "x \<in> ?L"
    proof
      assume "x \<in> ?A"
      then obtain c where "x = (current_row ws + 1 + int 0, c)" "1 \<le> c" "c \<le> int (length ((row # rows) ! 0))"
        by auto
      then show ?thesis by (metis (mono_tags, lifting) length_Cons mem_Collect_eq zero_less_Suc)
    next
      assume "x \<in> ?B"
      then obtain j c where "x = (current_row ws + 1 + int (Suc j), c)" "Suc j < length (row # rows)"
        "1 \<le> c" "c \<le> int (length ((row # rows) ! Suc j))"
        by auto
      then show ?thesis by blast
    qed
  qed
  then show ?case
    by (simp add: Cons.IH cell_keys_append Un_assoc Un_commute Un_left_commute)
qed

lemma cell_at_tables_update [simp]: "cell_at (ws\<lparr>tables := t\<rparr>) rc = cell_at ws rc"
  by (simp add: cell_at_def)

lemma cell_keys_tables_update [simp]: "cell_keys (ws\<lparr>tables := t\<rparr>) = cell_keys ws"
  by (simp add: cell_keys_def)

subsection \<open>The percentage format of the Rate columns\<close>

lemma format_rows_result:
  assumes "\<forall>r \<in> set rows. 1 \<le> r" and "1 \<le> col"
  shows "\<exists>ws'. format_rows ws col rows = Inr ws'
          \<and> (\<forall>r c. cell_at ws' (r, c) =
                (if c = col \<and> r \<in> set rows then (cell_at ws (r, c))\<lparr>number_format := ''0%''\<rparr>
                 else cell_at ws (r, c)))
          \<and> cell_keys ws' = cell_keys ws \<union> {(r, col) | r. r \<in> set rows}
          \<and> ((\<forall>r \<in> set rows. r \<le> current_row ws) \<longrightarrow> current_row ws' = current_row ws)
          \<and> tables ws' = tables ws \<and> images ws' = images ws
          \<and> column_dimensions ws' = column_dimensions ws"
  using assms
proof (induction rows arbitrary: ws)
  case Nil
  then show ?case by simp
next
  case (Cons row rows)
  let ?ws1 = "modify_cell (ws_get_cell ws (row, col)) (row, col) (\<lambda>c. c\<lparr>number_format := ''0%''\<rparr>)"
  have step: "format_rows ws col (row # rows) = format_rows ?ws1 col rows"
    using Cons.prems by (simp add: ws_cell_None)
  obtain ws' where ws': "format_rows ?ws1 col rows = Inr ws'"
      "\<forall>r c. cell_at ws' (r, c) =
                (if c = col \<and> r \<in> set rows then (cell_at ?ws1 (r, c))\<lparr>number_format := ''0%''\<rparr>
                 else cell_at ?ws1 (r, c))"
      "cell_keys ws' = cell_keys ?ws1 \<union> {(r, col) | r. r \<in> set rows}"
      "(\<forall>r \<in> set rows. r \<le> current_row ?ws1) \<longrightarrow> current_row ws' = current_row ?ws1"
      "tables ws' = tables ?ws1" "images ws' = images ?ws1"
      "column_dimensions ws' = column_dimensions ?ws1"
    using Cons.IH[of ?ws1] Cons.prems by auto
  have cr: "current_row ?ws1 = current_row ws" if "row \<le> current_row ws"
    using that by (simp add: current_row_get_cell)
  show ?case
  proof (intro exI[of _ ws'] conjI allI)
    show "format_rows ws col (row # rows) = Inr ws'"
      by (simp only: step ws')
    show "cell_at ws' (r, c) =
           (if c = col \<and> r \<in> set (row # rows) then (cell_at ws (r, c))\<lparr>number_format := ''0%''\<rparr>
            else cell_at ws (r, c))" for r c
      by (auto simp: ws'(2) cell_at_modify_cell)
    show "cell_keys ws' = cell_keys ws \<union> {(r, col) | r. r \<in> set (row # rows)}"
      by (auto simp: ws'(3))
    show "(\<forall>r \<in> set (row # rows). r \<le> current_row ws) \<longrightarrow> current_row ws' = current_row ws"
      using ws'(4) cr by auto
  qed (simp_all add: ws')
qed

lemma format_rate_columns_result:
  assumes "\<forall>r \<in> set rows. 1 \<le> r" and "\<forall>p \<in> set cols. 1 \<le> fst p"
  shows "\<exists>ws'. format_rate_columns ws rate cols rows = Inr ws'
          \<and> (\<forall>r c. cell_at ws' (r, c) =
                (if r \<in> set rows \<and> (\<exists>name. (c, name) \<in> set cols \<and> name \<in> set rate)
                 then (cell_at ws (r, c))\<lparr>number_format := ''0%''\<rparr>
                 else cell_at ws (r, c)))
          \<and> cell_keys ws' =
              cell_keys ws \<union> {(r, c) | r c. r \<in> set rows \<and> (\<exists>name. (c, name) \<in> set cols \<and> name \<in> set rate)}
          \<and> ((\<forall>r \<in> set rows. r \<le> current_row ws) \<longrightarrow> current_row ws' = current_row ws)
          \<and> tables ws' = tables ws \<and> images ws' = images ws
          \<and> column_dimensions ws' = column_dimensions ws"
  using assms
proof (induction cols arbitrary: ws)
  case Nil
  then show ?case by simp
next
  case (Cons p cols)
  obtain col_idx col_name where p: "p = (col_idx, col_name)" by (cases p)
  show ?case
  proof (cases "col_name \<in> set rate")
    case False
    obtain ws' where ws': "format_rate_columns ws rate cols rows = Inr ws'"
      "\<forall>r c. cell_at ws' (r, c) =
                (if r \<in> set rows \<and> (\<exists>name. (c, name) \<in> set cols \<and> name \<in> set rate)
                 then (cell_at ws (r, c))\<lparr>number_format := ''0%''\<rparr>
                 else cell_at ws (r, c))"
      "cell_keys ws' =
              cell_keys ws \<union> {(r, c) | r c. r \<in> set rows \<and> (\<exists>name. (c, name) \<in> set cols \<and> name \<in> set rate)}"
      "(\<forall>r \<in> set rows. r \<le> current_row ws) \<longrightarrow> current_row ws' = current_row ws"
      "tables ws' = tables ws" "images ws' = images ws"
      "column_dimensions ws' = column_dimensions ws"
      using Cons.IH[of ws] Cons.prems by auto
    have same: "(\<exists>name. (c, name) \<in> set (p # cols) \<and> name \<in> set rate)
                = (\<exists>name. (c, name) \<in> set cols \<and> name \<in> set rate)" for c
      using False by (auto simp: p)
    show ?thesis
    proof (intro exI[of _ ws'] conjI allI)
      show "format_rate_columns ws rate (p # cols) rows = Inr ws'"
        using False by (simp add: p ws')
    qed (unfold same, simp_all add: ws')
  next
    case True
    obtain ws1 where ws1: "format_rows ws col_idx rows = Inr ws1"
      "\<forall>r c. cell_at ws1 (r, c) =
                (if c = col_idx \<and> r \<in> set rows then (cell_at ws (r, c))\<lparr>number_format := ''0%''\<rparr>
                 else cell_at ws (r, c))"
      "cell_keys ws1 = cell_keys ws \<union> {(r, col_idx) | r. r \<in> set rows}"
      "(\<forall>r \<in> set rows. r \<le> current_row ws) \<longrightarrow> current_row ws1 = current_row ws"
      "tables ws1 = tables ws" "images ws1 = images ws"
      "column_dimensions ws1 = column_dimensions ws"
      using format_rows_result[of rows col_idx ws] Cons.prems by (auto simp: p)
    obtain ws' where ws': "format_rate_columns ws1 rate cols rows = Inr ws'"
      "\<forall>r c. cell_at ws' (r, c) =
                (if r \<in> set rows \<and> (\<exists>name. (c, name) \<in> set cols \<and> name \<in> set rate)
                 then (cell_at ws1 (r, c))\<lparr>number_format := ''0%''\<rparr>
                 else cell_at ws1 (r, c))"
      "cell_keys ws' =
              cell_keys ws1 \<union> {(r, c) | r c. r \<in> set rows \<and> (\<exists>name. (c, name) \<in> set cols \<and> name \<in> set rate)}"
      "(\<forall>r \<in> set rows. r \<le> current_row ws1) \<longrightarrow> current_row ws' = current_row ws1"
      "tables ws' = tables ws1" "images ws' = images ws1"
      "column_dimensions ws' = column_dimensions ws1"
      using Cons.IH[of ws1] Cons.prems by auto
    show ?thesis
    proof (intro exI[of _ ws'] conjI allI)
      show "format_rate_columns ws rate (p # cols) rows = Inr ws'"
        using True by (simp add: p ws1 ws')
      show "cell_at ws' (r, c) =
           (if r \<in> set rows \<and> (\<exists>name. (c, name) \<in> set (p # cols) \<and> name \<in> set rate)
            then (cell_at ws (r, c))\<lparr>number_format := ''0%''\<rparr>
            else cell_at ws (r, c))" for r c
        using True by (auto simp: ws'(2) ws1(2) p)
      show "cell_keys ws' =
              cell_keys ws \<union> {(r, c) | r c. r \<in> set rows \<and> (\<exists>name. (c, name) \<in> set (p # cols) \<and> name \<in> set rate)}"
        using True by (auto simp: ws'(3) ws1(3) p)
      show "(\<forall>r \<in> set rows. r \<le> current_row ws) \<longrightarrow> current_row ws' = current_row ws"
        using ws'(4) ws1(4) by auto
    qed (simp_all add: ws' ws1)
  qed
qed

lemma map_of_enumerate1:
  "map_of (zip [1..int (length xs)] xs) c =
     (if 1 \<le> c \<and> c \<le> int (length xs) then Some (xs ! nat (c - 1)) else None)"
  using map_of_enumerate[of 1 xs c] by simp

lemma in_set_enumerate:
  "((c, name) \<in> set (zip [1..int (length xs)] xs)) =
     (1 \<le> c \<and> c \<le> int (length xs) \<and> name = xs ! nat (c - 1))"
proof -
  have eq: "((c, name) \<in> set (zip [1..int (length xs)] xs)) =
          (map_of (zip [1..int (length xs)] xs) c = Some name)"
    by (simp add: distinct_upto)
  show ?thesis
    unfolding eq map_of_enumerate1 by auto
qed

section \<open>Placing a table\<close>

lemma ws_inv_keys:
  "ws_inv ws =
     (0 \<le> current_row ws \<and>
      (\<forall>(r, c) \<in> cell_keys ws. 1 \<le> r \<and> r \<le> current_row ws \<and> 1 \<le> c \<and> c \<le> 18278))"
  by (auto simp: ws_inv_def cell_keys_def list_all_iff)

lemma ws_inv_new_worksheet: "ws_inv new_worksheet"
  by (simp add: ws_inv_def new_worksheet_def)

lemma str_contains_iff: "str_contains sub s = (\<exists>ps ss. s = ps @ sub @ ss)"
proof (induction s)
  case Nil
  then show ?case by auto
next
  case (Cons c cs)
  have "(take (length sub) (c # cs) = sub) = (\<exists>ss. c # cs = sub @ ss)"
    by (metis append_eq_conv_conj append_take_drop_id)
  moreover have "(\<exists>ps ss. c # cs = ps @ sub @ ss) =
                   ((\<exists>ss. c # cs = sub @ ss) \<or> (\<exists>ps ss. cs = ps @ sub @ ss))"
  proof
    assume "\<exists>ps ss. c # cs = ps @ sub @ ss"
    then obtain ps ss where e: "c # cs = ps @ sub @ ss" by blast
    show "(\<exists>ss. c # cs = sub @ ss) \<or> (\<exists>ps ss. cs = ps @ sub @ ss)"
    proof (cases ps)
      case Nil
      then show ?thesis using e by auto
    next
      case (Cons p ps')
      then have "cs = ps' @ sub @ ss" using e by simp
      then show ?thesis by blast
    qed
  next
    assume "(\<exists>ss. c # cs = sub @ ss) \<or> (\<exists>ps ss. cs = ps @ sub @ ss)"
    then show "\<exists>ps ss. c # cs = ps @ sub @ ss"
    proof
      assume "\<exists>ss. c # cs = sub @ ss"
      then show ?thesis by (metis append_Nil)
    next
      assume "\<exists>ps ss. cs = ps @ sub @ ss"
      then show ?thesis by (metis append_Cons)
    qed
  qed
  ultimately show ?case
    using Cons.IH by simp
qed

text \<open>The cells, the row counter and the tables of a sheet after a table was placed.\<close>

lemma duplicate_name_cong:
  "tables ws' = tables ws \<Longrightarrow> duplicate_name w ws' name = duplicate_name w ws name"
  by (simp add: duplicate_name_def)

lemma append_df_as_table_result:
  assumes sr: "1 \<le> start_row"
    and nc: "1 \<le> length (columns df)" "length (columns df) \<le> 18278"
    and st: "storable_string table_title"
    and sc: "list_all storable_string (columns df)"
    and sv: "list_all (list_all storable) (data_rows df)"
    and fresh: "\<not> duplicate_name (wb self) ws (''Table'' @ str_int (global_table_counter self))"
  shows "\<exists>ws' last_letter.
      get_column_letter (int (length (columns df))) = Inr last_letter
    \<and> append_df_as_table self ws df table_title start_row =
        Inr (self\<lparr>global_table_counter := global_table_counter self + 1\<rparr>, ws',
             start_row + int (length (data_rows df)) + 3)
    \<and> tables ws' = tables ws @ [\<lparr>displayName = ''Table'' @ str_int (global_table_counter self),
            ref = ''A'' @ str_int (start_row + 1) @ '':'' @ last_letter @
                  str_int (start_row + 1 + int (length (data_rows df))),
            tableStyleInfo = Some TableStyleMedium9\<rparr>]
    \<and> images ws' = images ws
    \<and> column_dimensions ws' = column_dimensions ws
    \<and> (ws_inv ws \<and> current_row ws < start_row
          \<and> list_all (\<lambda>row. length row = length (columns df)) (data_rows df) \<longrightarrow>
        current_row ws' = start_row + 1 + int (length (data_rows df))
        \<and> ws_inv ws'
        \<and> (\<forall>r c. cell_at ws' (r, c) =
             (if r = start_row \<and> c = 1
              then \<lparr>cell_value = VStr table_title, cell_font = Some bold12, number_format = ''General''\<rparr>
              else if r = start_row + 1 \<and> 1 \<le> c \<and> c \<le> int (length (columns df))
              then new_cell (VStr (columns df ! nat (c - 1)))
              else if start_row + 2 \<le> r \<and> r \<le> start_row + 1 + int (length (data_rows df))
                      \<and> 1 \<le> c \<and> c \<le> int (length (columns df))
              then \<lparr>cell_value = data_rows df ! nat (r - start_row - 2) ! nat (c - 1),
                    cell_font = None,
                    number_format = (if str_contains ''Rate'' (columns df ! nat (c - 1))
                                     then ''0%''
                                     else value_format (data_rows df ! nat (r - start_row - 2) ! nat (c - 1)))\<rparr>
              else cell_at ws (r, c))))"
proof -
  let ?N = "int (length (data_rows df))"
  let ?n = "int (length (columns df))"
  define ws1 where "ws1 = modify_cell (ws_get_cell ws (start_row, 1)) (start_row, 1)
                            (\<lambda>c. c\<lparr>cell_value := VStr table_title\<rparr>)"
  define ws2 where "ws2 = modify_cell ws1 (start_row, 1) (\<lambda>c. c\<lparr>cell_font := Some bold12\<rparr>)"
  define ws3 where "ws3 = fold (\<lambda>row ws'. append_row ws' row) (dataframe_to_rows df) ws2"
  obtain last_letter where ll: "get_column_letter ?n = Inr last_letter"
    using nc by (simp add: get_column_letter_def)
  define tbl where "tbl = \<lparr>displayName = ''Table'' @ str_int (global_table_counter self),
            ref = ''A'' @ str_int (start_row + 1) @ '':'' @ last_letter @
                  str_int (start_row + 1 + ?N),
            tableStyleInfo = Some TableStyleMedium9\<rparr>"
  define ws4 where "ws4 = ws3\<lparr>tables := tables ws3 @ [tbl]\<rparr>"
  define rate where "rate = filter (str_contains ''Rate'') (columns df)"
  define cols where "cols = zip [1..?n] (columns df)"
  define rows where "rows = [start_row + 1 + 1..start_row + 1 + ?N]"
  have rows_ok: "\<forall>r \<in> set rows. 1 \<le> r"
    using sr by (auto simp: rows_def)
  have cols_ok: "\<forall>p \<in> set cols. 1 \<le> fst p"
    by (auto simp: cols_def in_set_enumerate)
  obtain ws5 where ws5: "format_rate_columns ws4 rate cols rows = Inr ws5"
      "\<forall>r c. cell_at ws5 (r, c) =
                (if r \<in> set rows \<and> (\<exists>name. (c, name) \<in> set cols \<and> name \<in> set rate)
                 then (cell_at ws4 (r, c))\<lparr>number_format := ''0%''\<rparr>
                 else cell_at ws4 (r, c))"
      "cell_keys ws5 =
          cell_keys ws4 \<union> {(r, c) | r c. r \<in> set rows \<and> (\<exists>name. (c, name) \<in> set cols \<and> name \<in> set rate)}"
      "(\<forall>r \<in> set rows. r \<le> current_row ws4) \<longrightarrow> current_row ws5 = current_row ws4"
      "tables ws5 = tables ws4" "images ws5 = images ws4"
      "column_dimensions ws5 = column_dimensions ws4"
    using format_rate_columns_result[OF rows_ok cols_ok, of ws4 rate] by blast
  have len_rows: "int (length (dataframe_to_rows df)) = 1 + ?N"
    by (simp add: dataframe_to_rows_def)
  have storable_rows: "list_all (list_all storable) (dataframe_to_rows df)"
    using sc sv by (simp add: dataframe_to_rows_def list_all_iff)
  have t3: "tables ws3 = tables ws"
    by (simp add: ws3_def ws2_def ws1_def)
  have add: "add_table (wb self) ws3 tbl = Inr ws4"
    using fresh by (simp add: add_table_def duplicate_name_cong[OF t3] tbl_def ws4_def)
  have run: "append_df_as_table self ws df table_title start_row =
        Inr (self\<lparr>global_table_counter := global_table_counter self + 1\<rparr>, ws5, start_row + ?N + 3)"
    using sr ws5(1) add
    unfolding tbl_def ws3_def ws2_def ws1_def rate_def cols_def rows_def bold12_def
    by (simp add: append_df_as_table_def ws_cell_Some[OF _ _ st] append_rows_ok[OF storable_rows]
          Let_def get_column_letter_1 ll shape1_def len_rows algebra_simps)
  have rate_col: "(\<exists>name. (c, name) \<in> set cols \<and> name \<in> set rate) =
                   (1 \<le> c \<and> c \<le> ?n \<and> str_contains ''Rate'' (columns df ! nat (c - 1)))" for c
    by (auto simp: cols_def rate_def in_set_enumerate)
  have in_rows: "(r \<in> set rows) = (start_row + 2 \<le> r \<and> r \<le> start_row + 1 + ?N)" for r
    by (auto simp: rows_def)
  have frame: "tables ws5 = tables ws @ [tbl]" "images ws5 = images ws"
      "column_dimensions ws5 = column_dimensions ws"
    by (simp_all add: ws5 ws4_def ws3_def ws2_def ws1_def)
  have cells: "current_row ws5 = start_row + 1 + ?N \<and> ws_inv ws5 \<and>
        (\<forall>r c. cell_at ws5 (r, c) =
             (if r = start_row \<and> c = 1
              then \<lparr>cell_value = VStr table_title, cell_font = Some bold12, number_format = ''General''\<rparr>
              else if r = start_row + 1 \<and> 1 \<le> c \<and> c \<le> ?n
              then new_cell (VStr (columns df ! nat (c - 1)))
              else if start_row + 2 \<le> r \<and> r \<le> start_row + 1 + ?N \<and> 1 \<le> c \<and> c \<le> ?n
              then \<lparr>cell_value = data_rows df ! nat (r - start_row - 2) ! nat (c - 1),
                    cell_font = None,
                    number_format = (if str_contains ''Rate'' (columns df ! nat (c - 1))
                                     then ''0%''
                                     else value_format (data_rows df ! nat (r - start_row - 2) ! nat (c - 1)))\<rparr>
              else cell_at ws (r, c)))"
    if inv: "ws_inv ws" and cur: "current_row ws < start_row"
      and wf: "list_all (\<lambda>row. length row = length (columns df)) (data_rows df)"
  proof -
    have fresh: "(start_row, 1) \<notin> cell_keys ws"
      using inv cur by (auto simp: ws_inv_keys)
    have beyond: "cell_at ws (r, c) = new_cell VNone" if "current_row ws < r" for r c
      using inv that by (intro cell_at_blank) (auto simp: ws_inv_keys)
    have cr2: "current_row ws2 = start_row"
      using fresh cur by (simp add: ws2_def ws1_def current_row_get_cell)
    have keys2: "cell_keys ws2 = insert (start_row, 1) (cell_keys ws)"
      by (simp add: ws2_def ws1_def)
    have at2: "cell_at ws2 (r, c) =
        (if r = start_row \<and> c = 1
         then \<lparr>cell_value = VStr table_title, cell_font = Some bold12, number_format = ''General''\<rparr>
         else cell_at ws (r, c))" for r c
      using fresh
      by (auto simp: ws2_def ws1_def cell_at_modify_cell cell_at_blank new_cell_def)
    have row_len: "int (length (dataframe_to_rows df ! nat (r - start_row - 1))) = ?n"
      if "start_row < r" "r \<le> start_row + 1 + ?N" for r
    proof (cases "r = start_row + 1")
      case True
      then show ?thesis by (simp add: dataframe_to_rows_def)
    next
      case False
      then have i: "nat (r - start_row - 1) = Suc (nat (r - start_row - 2))"
          "nat (r - start_row - 2) < length (data_rows df)"
        using that by auto
      then show ?thesis
        using wf by (simp add: dataframe_to_rows_def list_all_length)
    qed
    have at3: "cell_at ws3 (r, c) =
        (if start_row < r \<and> r \<le> start_row + 1 + ?N \<and> 1 \<le> c \<and> c \<le> ?n
         then new_cell (dataframe_to_rows df ! nat (r - start_row - 1) ! nat (c - 1))
         else cell_at ws2 (r, c))" for r c
    proof (cases "start_row < r \<and> r \<le> start_row + 1 + ?N")
      case True
      then have "int (length (dataframe_to_rows df ! nat (r - start_row - 1))) = ?n"
        using row_len by blast
      then show ?thesis
        using True by (simp add: ws3_def cell_at_appends cr2 len_rows algebra_simps)
    next
      case False
      then show ?thesis
        by (auto simp add: ws3_def cell_at_appends cr2 len_rows)
    qed
    have cr3: "current_row ws3 = start_row + 1 + ?N"
      by (simp add: ws3_def cr2 len_rows)
    have keys3: "cell_keys ws3 \<subseteq>
        {(r, c) | r c. start_row < r \<and> r \<le> start_row + 1 + ?N \<and> 1 \<le> c \<and> c \<le> ?n}
        \<union> cell_keys ws2"
    proof -
      have "(current_row ws2 + 1 + int i, c)
             \<in> {(r, c) | r c. start_row < r \<and> r \<le> start_row + 1 + ?N \<and> 1 \<le> c \<and> c \<le> ?n}"
        if "i < length (dataframe_to_rows df)" "1 \<le> c"
           "c \<le> int (length (dataframe_to_rows df ! i))" for i c
      proof -
        have "int i < 1 + ?N" using that(1) len_rows by linarith
        then have b: "start_row < start_row + 1 + int i" "start_row + 1 + int i \<le> start_row + 1 + ?N"
          by auto
        have "nat (start_row + 1 + int i - start_row - 1) = i" by simp
        then have "c \<le> ?n"
          using row_len[OF b] that(3) by simp
        then show ?thesis
          using b that(2) by (simp add: cr2)
      qed
      then show ?thesis
        unfolding ws3_def cell_keys_appends by blast
    qed
    have cr5: "current_row ws5 = start_row + 1 + ?N"
      using ws5(4) by (simp add: ws4_def cr3 in_rows)
    have keys5: "cell_keys ws5 \<subseteq>
        {(r, c) | r c. start_row \<le> r \<and> r \<le> start_row + 1 + ?N \<and> 1 \<le> c \<and> c \<le> ?n}
        \<union> cell_keys ws"
    proof -
      have "(start_row, 1) \<in> {(r, c) | r c. start_row \<le> r \<and> r \<le> start_row + 1 + ?N \<and> 1 \<le> c \<and> c \<le> ?n}"
        using nc by simp
      then show ?thesis
        using keys3 unfolding ws5(3) rate_col in_rows keys2
        by (auto simp: ws4_def)
    qed
    have inv5: "ws_inv ws5"
      unfolding ws_inv_keys cr5
    proof (intro conjI ballI)
      show "0 \<le> start_row + 1 + ?N" using sr by linarith
      fix x assume x: "x \<in> cell_keys ws5"
      obtain r c where rc: "x = (r, c)" by (cases x)
      have "1 \<le> r \<and> r \<le> start_row + 1 + ?N \<and> 1 \<le> c \<and> c \<le> 18278"
      proof (cases "(r, c) \<in> cell_keys ws")
        case True
        then show ?thesis
          using inv cur by (auto simp: ws_inv_keys)
      next
        case False
        then have "start_row \<le> r \<and> r \<le> start_row + 1 + ?N \<and> 1 \<le> c \<and> c \<le> ?n"
          using keys5 x rc by auto
        then show ?thesis
          using sr nc by linarith
      qed
      then show "case x of (r, c) \<Rightarrow> 1 \<le> r \<and> r \<le> start_row + 1 + ?N \<and> 1 \<le> c \<and> c \<le> 18278"
        by (simp add: rc)
    qed
    have at5: "cell_at ws5 (r, c) =
             (if r = start_row \<and> c = 1
              then \<lparr>cell_value = VStr table_title, cell_font = Some bold12, number_format = ''General''\<rparr>
              else if r = start_row + 1 \<and> 1 \<le> c \<and> c \<le> ?n
              then new_cell (VStr (columns df ! nat (c - 1)))
              else if start_row + 2 \<le> r \<and> r \<le> start_row + 1 + ?N \<and> 1 \<le> c \<and> c \<le> ?n
              then \<lparr>cell_value = data_rows df ! nat (r - start_row - 2) ! nat (c - 1),
                    cell_font = None,
                    number_format = (if str_contains ''Rate'' (columns df ! nat (c - 1))
                                     then ''0%''
                                     else value_format (data_rows df ! nat (r - start_row - 2) ! nat (c - 1)))\<rparr>
              else cell_at ws (r, c))" for r c
    proof -
      consider "r < start_row" | "r = start_row" | "r = start_row + 1"
        | "start_row + 2 \<le> r" "r \<le> start_row + 1 + ?N" | "start_row + 1 + ?N < r" "start_row + 2 \<le> r"
        by linarith
      then show ?thesis
      proof cases
        case 1
        then show ?thesis
          unfolding ws5(2)[rule_format] in_rows rate_col by (simp add: ws4_def at3 at2)
      next
        case 2
        then show ?thesis
          unfolding ws5(2)[rule_format] in_rows rate_col by (simp add: ws4_def at3 at2)
      next
        case 3
        have "c < 1 \<or> ?n < c \<Longrightarrow> c \<noteq> 1 \<or> True" by simp
        show ?thesis
          unfolding ws5(2)[rule_format] in_rows rate_col
          using 3 nth_map[of "nat (c - 1)" "columns df" VStr]
          by (auto simp: ws4_def at3 at2 dataframe_to_rows_def)
      next
        case 4
        then have i: "nat (r - start_row - 1) = Suc (nat (r - start_row - 2))"
          by auto
        show ?thesis
          unfolding ws5(2)[rule_format] in_rows rate_col
          using 4 by (auto simp: ws4_def at3 at2 dataframe_to_rows_def i new_cell_def)
      next
        case 5
        then show ?thesis
          unfolding ws5(2)[rule_format] in_rows rate_col by (simp add: ws4_def at3 at2)
      qed
    qed
    show ?thesis
      using cr5 inv5 at5 by blast
  qed
  show ?thesis
    apply (rule exI[of _ ws5], rule exI[of _ last_letter])
    using ll run frame cells unfolding tbl_def by blast
qed

lemma table_at_iff:
  "table_at ws table_title df start_row =
     (value_at ws (start_row, 1) = VStr table_title \<and>
      (\<forall>c. 1 \<le> c \<and> c \<le> int (length (columns df)) \<longrightarrow>
           value_at ws (start_row + 1, c) = VStr (columns df ! nat (c - 1))) \<and>
      (\<forall>r c. start_row + 2 \<le> r \<and> r \<le> start_row + 1 + int (length (data_rows df))
             \<and> 1 \<le> c \<and> c \<le> int (length (columns df)) \<longrightarrow>
           value_at ws (r, c) = data_rows df ! nat (r - start_row - 2) ! nat (c - 1)))"
  by (auto simp: table_at_def list_all_iff)

lemma table_at_frame:
  assumes "table_at ws table_title df start_row"
    and "start_row + 1 + int (length (data_rows df)) \<le> cr"
    and "\<forall>r c. r \<le> cr \<longrightarrow> cell_at ws' (r, c) = cell_at ws (r, c)"
  shows "table_at ws' table_title df start_row"
proof -
  have "value_at ws' (r, c) = value_at ws (r, c)" if "r \<le> cr" for r c
    using assms(3) that by (simp add: value_at_cell_at)
  then show ?thesis
    using assms(1,2) unfolding table_at_iff by auto
qed

lemma table_names_Cons: "0 \<le> n \<Longrightarrow> table_names c (1 + n) = (''Table'' @ str_int c) # table_names (c + 1) n"
  by (simp add: table_names_def upto_rec1)

lemma table_names_Nil [simp]: "table_names c 0 = []"
  by (simp add: table_names_def)

lemma ws_inv_cong:
  "cells ws' = cells ws \<Longrightarrow> current_row ws' = current_row ws \<Longrightarrow> ws_inv ws' = ws_inv ws"
  by (simp add: ws_inv_def)

lemma cell_at_cong: "cells ws' = cells ws \<Longrightarrow> cell_at ws' rc = cell_at ws rc"
  by (simp add: cell_at_def)

text \<open>One table placed at the cursor row: what the later steps rely on.\<close>

lemma append_df_as_table_cursor:
  assumes "ws_inv ws" and "current_row ws < row" and "wf_dataframe df"
    and "storable_string table_title"
    and "\<not> duplicate_name (wb self) ws (''Table'' @ str_int (global_table_counter self))"
  shows "\<exists>ws'.
      append_df_as_table self ws df table_title row =
        Inr (self\<lparr>global_table_counter := global_table_counter self + 1\<rparr>, ws',
             row + int (length (data_rows df)) + 3)
    \<and> ws_inv ws' \<and> current_row ws' = row + 1 + int (length (data_rows df))
    \<and> map displayName (tables ws') =
        map displayName (tables ws) @ [''Table'' @ str_int (global_table_counter self)]
    \<and> images ws' = images ws
    \<and> column_dimensions ws' = column_dimensions ws
    \<and> (\<forall>r c. r < row \<longrightarrow> cell_at ws' (r, c) = cell_at ws (r, c))
    \<and> table_at ws' table_title df row"
proof -
  have sr: "1 \<le> row"
    using assms(1,2) by (simp add: ws_inv_def)
  have nc: "1 \<le> length (columns df)" "length (columns df) \<le> 18278"
    and rows: "list_all (\<lambda>row. length row = length (columns df)) (data_rows df)"
    and sc: "list_all storable_string (columns df)"
    and sv: "list_all (list_all storable) (data_rows df)"
    using assms(3) by (simp_all add: wf_dataframe_def)
  obtain ws' last_letter where r:
    "append_df_as_table self ws df table_title row =
        Inr (self\<lparr>global_table_counter := global_table_counter self + 1\<rparr>, ws',
             row + int (length (data_rows df)) + 3)"
    "tables ws' = tables ws @ [\<lparr>displayName = ''Table'' @ str_int (global_table_counter self),
            ref = ''A'' @ str_int (row + 1) @ '':'' @ last_letter @
                  str_int (row + 1 + int (length (data_rows df))),
            tableStyleInfo = Some TableStyleMedium9\<rparr>]"
    "images ws' = images ws" "column_dimensions ws' = column_dimensions ws"
    "current_row ws' = row + 1 + int (length (data_rows df))" "ws_inv ws'"
    "\<forall>r c. cell_at ws' (r, c) =
             (if r = row \<and> c = 1
              then \<lparr>cell_value = VStr table_title, cell_font = Some bold12, number_format = ''General''\<rparr>
              else if r = row + 1 \<and> 1 \<le> c \<and> c \<le> int (length (columns df))
              then new_cell (VStr (columns df ! nat (c - 1)))
              else if row + 2 \<le> r \<and> r \<le> row + 1 + int (length (data_rows df))
                      \<and> 1 \<le> c \<and> c \<le> int (length (columns df))
              then \<lparr>cell_value = data_rows df ! nat (r - row - 2) ! nat (c - 1),
                    cell_font = None,
                    number_format = (if str_contains ''Rate'' (columns df ! nat (c - 1))
                                     then ''0%''
                                     else value_format (data_rows df ! nat (r - row - 2) ! nat (c - 1)))\<rparr>
              else cell_at ws (r, c))"
    using append_df_as_table_result[OF sr nc assms(4) sc sv assms(5)] assms(1,2) rows by blast
  have "table_at ws' table_title df row"
    unfolding table_at_iff by (auto simp: value_at_cell_at r(7) new_cell_def)
  moreover have "\<forall>r c. r < row \<longrightarrow> cell_at ws' (r, c) = cell_at ws (r, c)"
    by (simp add: r(7))
  ultimately show ?thesis
    using r(1-6) by (intro exI[of _ ws']) simp
qed







subsection \<open>Images leave the cells alone\<close>

lemma add_image_from_figure_default:
  assumes "add_image_from_figure env ws fig row (ColStr ''A'') 600 400 out = Inr (ws', row', out')"
  shows "cells ws' = cells ws \<and> current_row ws' = current_row ws \<and> tables ws' = tables ws
       \<and> column_dimensions ws' = column_dimensions ws \<and> row < row'
       \<and> (\<exists>extra. out' = out @ extra)"
  using assms
  by (auto simp: add_image_from_figure_def Image_def anchor_cell_def py_int_truediv_def Let_def
      split: option.splits if_splits sum.splits)

lemma place_figures_result:
  "\<exists>err ws' row' out'. place_figures env ws figs row out = (err, ws', row', out')
     \<and> cells ws' = cells ws \<and> current_row ws' = current_row ws \<and> tables ws' = tables ws
     \<and> column_dimensions ws' = column_dimensions ws \<and> row \<le> row'
     \<and> (\<exists>extra. out' = out @ extra)"
proof (induction figs arbitrary: ws row out)
  case Nil
  then show ?case by simp
next
  case (Cons fig figs)
  show ?case
  proof (cases fig)
    case None
    then show ?thesis using Cons.IH[of ws row out] by simp
  next
    case (Some f)
    show ?thesis
    proof (cases "add_image_from_figure env ws f row (ColStr ''A'') 600 400 out")
      case (Inl e)
      then show ?thesis by (simp add: Some)
    next
      case (Inr r)
      obtain ws1 row1 out1 where r: "r = (ws1, row1, out1)" by (cases r)
      have f: "cells ws1 = cells ws" "current_row ws1 = current_row ws" "tables ws1 = tables ws"
        "column_dimensions ws1 = column_dimensions ws" "row < row1" "\<exists>extra. out1 = out @ extra"
        using add_image_from_figure_default[OF Inr[unfolded r]] by auto
      obtain err ws' row' out' where s:
        "place_figures env ws1 figs (row1 + 1) out1 = (err, ws', row', out')"
        "cells ws' = cells ws1" "current_row ws' = current_row ws1" "tables ws' = tables ws1"
        "column_dimensions ws' = column_dimensions ws1" "row1 + 1 \<le> row'"
        "\<exists>extra. out' = out1 @ extra"
        using Cons.IH[of ws1 "row1 + 1" out1] by blast
      have "\<exists>extra. out' = out @ extra"
        using f(6) s(7) by auto
      then show ?thesis
        using f s by (simp add: Some Inr r)
    qed
  qed
qed

lemma table_images_result:
  "\<exists>ws' row' out'.
     table_images env image_functions sheet_name df table_title ws row out = (ws', row', out')
     \<and> cells ws' = cells ws \<and> current_row ws' = current_row ws \<and> tables ws' = tables ws
     \<and> column_dimensions ws' = column_dimensions ws \<and> row \<le> row'
     \<and> (\<exists>extra. out' = out @ extra)
     \<and> (\<forall>fs f e. image_functions = Some fs \<and> map_of fs sheet_name = Some f
            \<and> f df table_title = Inl e \<longrightarrow>
          ws' = ws \<and> row' = row
          \<and> out' = out @ [failed_images_warning sheet_name table_title e])"
proof (cases "dict_truthy image_functions \<and> map_of (the image_functions) sheet_name \<noteq> None")
  case False
  then show ?thesis
    by (auto simp: table_images_def dict_truthy_def split: option.splits)
next
  case True
  then obtain fs f where fs: "image_functions = Some fs" "fs \<noteq> []" "map_of fs sheet_name = Some f"
    by (auto simp: dict_truthy_def split: option.splits)
  show ?thesis
  proof (cases "f df table_title")
    case (Inl e)
    then show ?thesis
      using True fs by (simp add: table_images_def)
  next
    case (Inr provided)
    define figures where "figures = (case provided of Sequence figs \<Rightarrow> figs | Single fig \<Rightarrow> [fig])"
    obtain err ws' row' out' where s:
        "place_figures env ws figures row out = (err, ws', row', out')"
        "cells ws' = cells ws" "current_row ws' = current_row ws" "tables ws' = tables ws"
        "column_dimensions ws' = column_dimensions ws" "row \<le> row'"
        "\<exists>extra. out' = out @ extra"
      using place_figures_result[of env ws figures row out] by blast
    show ?thesis
    proof (cases err)
      case None
      then show ?thesis
        using True fs Inr s by (simp add: table_images_def figures_def[symmetric])
    next
      case (Some e)
      have "\<exists>extra. out' @ [failed_images_warning sheet_name table_title e] = out @ extra"
        using s(7) by auto
      then show ?thesis
        using True fs Inr s Some by (simp add: table_images_def figures_def[symmetric])
    qed
  qed
qed

text \<open>Names that no table has yet.\<close>

lemma duplicate_name_iff:
  "duplicate_name w ws name =
     (lower name \<in> lower ` (displayName ` set (tables ws) \<union> set (sheet_table_names (sheets w))))"
proof -
  have "map (\<lambda>t. lower (displayName t))
          (tables ws @ concat (map (\<lambda>(n, sheet). tables sheet) (sheets w)))
        = map lower (map displayName (tables ws) @ sheet_table_names (sheets w))"
    by (simp add: sheet_table_names_def map_concat comp_def case_prod_beta)
  then show ?thesis
    by (simp add: duplicate_name_def image_Un image_image)
qed

lemma names_free_step:
  assumes "names_free w ws c" and "0 \<le> c"
    and "map displayName (tables ws') = map displayName (tables ws) @ [''Table'' @ str_int c]"
  shows "names_free w ws' (c + 1)"
  unfolding names_free_def
proof (intro allI impI)
  fix k assume k: "c + 1 \<le> k"
  have s: "displayName ` set (tables ws') = insert (''Table'' @ str_int c) (displayName ` set (tables ws))"
    using arg_cong[OF assms(3), of set] by simp
  have "\<not> duplicate_name w ws (''Table'' @ str_int k)"
    using assms(1) k by (simp add: names_free_def)
  moreover have "lower (''Table'' @ str_int k) \<noteq> lower (''Table'' @ str_int c)"
    using lower_table_name_inj[of k c] assms(2) k by auto
  ultimately show "\<not> duplicate_name w ws' (''Table'' @ str_int k)"
    by (auto simp: duplicate_name_iff s)
qed

lemma names_free_cong:
  "tables ws' = tables ws \<Longrightarrow> sheet_table_names (sheets w') = sheet_table_names (sheets w)
   \<Longrightarrow> names_free w' ws' c = names_free w ws c"
  by (simp add: names_free_def duplicate_name_iff)

lemma names_free_mono: "names_free w ws c \<Longrightarrow> c \<le> c' \<Longrightarrow> names_free w ws c'"
  by (simp add: names_free_def)

text \<open>The tables of one sheet, with the images of each table placed after it.\<close>

lemma place_tables_with_images_result:
  assumes "ws_inv ws" and "current_row ws < row"
    and "list_all (\<lambda>(title, df). storable_string title \<and> wf_dataframe df) qs"
    and "0 \<le> global_table_counter self"
    and "names_free (wb self) ws (global_table_counter self)"
  shows "\<exists>ws' row' out' starts.
      place_tables_with_images env image_functions sheet_name self ws qs row out =
        Inr (self\<lparr>global_table_counter := global_table_counter self + int (length qs)\<rparr>,
             ws', row', out')
    \<and> ws_inv ws' \<and> current_row ws' < row'
    \<and> map displayName (tables ws') =
        map displayName (tables ws) @ table_names (global_table_counter self) (int (length qs))
    \<and> column_dimensions ws' = column_dimensions ws
    \<and> (\<forall>r c. r < row \<longrightarrow> cell_at ws' (r, c) = cell_at ws (r, c))
    \<and> length starts = length qs
    \<and> (\<forall>i < length qs. row \<le> starts ! i
          \<and> starts ! i + 1 + int (length (data_rows (snd (qs ! i)))) \<le> current_row ws'
          \<and> table_at ws' (fst (qs ! i)) (snd (qs ! i)) (starts ! i))
    \<and> (\<forall>i j. i < j \<and> j < length qs \<longrightarrow>
          starts ! i + 1 + int (length (data_rows (snd (qs ! i)))) < starts ! j)
    \<and> (\<exists>extra. out' = out @ extra)
    \<and> (\<forall>title df fs f e. (title, df) \<in> set qs \<and> image_functions = Some fs
            \<and> map_of fs sheet_name = Some f \<and> f df title = Inl e \<longrightarrow>
          failed_images_warning sheet_name title e \<in> set out')"
  using assms
proof (induction qs arbitrary: self ws row out)
  case Nil
  then show ?case by simp
next
  case (Cons q qs)
  obtain title df where q: "q = (title, df)" by (cases q)
  let ?N = "int (length (data_rows df))"
  have wf: "wf_dataframe df" and st: "storable_string title"
    and wfs: "list_all (\<lambda>(title, df). storable_string title \<and> wf_dataframe df) qs"
    using Cons.prems(3) by (simp_all add: q)
  have fresh: "\<not> duplicate_name (wb self) ws (''Table'' @ str_int (global_table_counter self))"
    using Cons.prems(5) by (simp add: names_free_def)
  define self1 where "self1 = self\<lparr>global_table_counter := global_table_counter self + 1\<rparr>"
  obtain ws1 where a:
    "append_df_as_table self ws df title row = Inr (self1, ws1, row + ?N + 3)"
    "ws_inv ws1" "current_row ws1 = row + 1 + ?N"
    "map displayName (tables ws1) =
        map displayName (tables ws) @ [''Table'' @ str_int (global_table_counter self)]"
    "column_dimensions ws1 = column_dimensions ws"
    "\<forall>r c. r < row \<longrightarrow> cell_at ws1 (r, c) = cell_at ws (r, c)"
    "table_at ws1 title df row"
    using append_df_as_table_cursor[OF Cons.prems(1,2) wf st fresh]
    unfolding self1_def by (elim exE conjE) blast
  obtain ws2 row2 out2 where b:
    "table_images env image_functions sheet_name df title ws1 (row + ?N + 3) out = (ws2, row2, out2)"
    "cells ws2 = cells ws1" "current_row ws2 = current_row ws1" "tables ws2 = tables ws1"
    "column_dimensions ws2 = column_dimensions ws1" "row + ?N + 3 \<le> row2"
    "\<exists>extra. out2 = out @ extra"
    "\<forall>fs f e. image_functions = Some fs \<and> map_of fs sheet_name = Some f
            \<and> f df title = Inl e \<longrightarrow>
          ws2 = ws1 \<and> row2 = row + ?N + 3
          \<and> out2 = out @ [failed_images_warning sheet_name title e]"
    using table_images_result[of env image_functions sheet_name df title ws1 "row + ?N + 3" out]
    by (elim exE conjE) blast
  have inv2: "ws_inv ws2" and cur2: "current_row ws2 < row2"
    using a(2,3) b(3,6) by (simp_all add: ws_inv_cong[OF b(2,3)])
  have c1: "0 \<le> global_table_counter self1"
    using Cons.prems(4) by (simp add: self1_def)
  have free1: "names_free (wb self1) ws2 (global_table_counter self1)"
  proof -
    have "names_free (wb self) ws1 (global_table_counter self + 1)"
      by (rule names_free_step[OF Cons.prems(5,4) a(4)])
    then show ?thesis
      by (simp add: self1_def names_free_cong[OF b(4) refl])
  qed
  obtain ws' row' out' starts where c:
    "place_tables_with_images env image_functions sheet_name self1 ws2 qs row2 out2 =
        Inr (self1\<lparr>global_table_counter := global_table_counter self1 + int (length qs)\<rparr>,
             ws', row', out')"
    "ws_inv ws'" "current_row ws' < row'"
    "map displayName (tables ws') =
        map displayName (tables ws2) @ table_names (global_table_counter self1) (int (length qs))"
    "column_dimensions ws' = column_dimensions ws2"
    "\<forall>r c. r < row2 \<longrightarrow> cell_at ws' (r, c) = cell_at ws2 (r, c)"
    "length starts = length qs"
    "\<forall>i < length qs. row2 \<le> starts ! i
          \<and> starts ! i + 1 + int (length (data_rows (snd (qs ! i)))) \<le> current_row ws'
          \<and> table_at ws' (fst (qs ! i)) (snd (qs ! i)) (starts ! i)"
    "\<forall>i j. i < j \<and> j < length qs \<longrightarrow>
          starts ! i + 1 + int (length (data_rows (snd (qs ! i)))) < starts ! j"
    "\<exists>extra. out' = out2 @ extra"
    "\<forall>title df fs f e. (title, df) \<in> set qs \<and> image_functions = Some fs
            \<and> map_of fs sheet_name = Some f \<and> f df title = Inl e \<longrightarrow>
          failed_images_warning sheet_name title e \<in> set out'"
    using Cons.IH[OF inv2 cur2 wfs c1 free1, of out2]
    by (elim exE conjE) blast
  have run: "place_tables_with_images env image_functions sheet_name self ws (q # qs) row out =
        Inr (self\<lparr>global_table_counter := global_table_counter self + int (length (q # qs))\<rparr>,
             ws', row', out')"
    by (simp add: q a(1) b(1) c(1)) (simp add: self1_def add.assoc)
  have names: "map displayName (tables ws') =
        map displayName (tables ws) @ table_names (global_table_counter self) (int (length (q # qs)))"
    using table_names_Cons[of "int (length qs)" "global_table_counter self"]
    by (simp add: c(4) b(4) a(4) self1_def add.commute)
  have frame: "\<forall>r c. r < row \<longrightarrow> cell_at ws' (r, c) = cell_at ws (r, c)"
    using c(6) a(6) b(2,6) by (auto simp: cell_at_cong[OF b(2)])
  have keep: "\<forall>r c. r \<le> current_row ws1 \<longrightarrow> cell_at ws' (r, c) = cell_at ws1 (r, c)"
    using c(6) b(6) a(3) by (auto simp: cell_at_cong[OF b(2)])
  have le_cur: "current_row ws1 \<le> current_row ws'"
  proof -
    have "current_row ws2 \<le> current_row ws'"
    proof (cases qs)
      case Nil
      then show ?thesis using c(1) by simp
    next
      case (Cons q' qs')
      then have "row2 \<le> starts ! 0 \<and> starts ! 0 + 1 + int (length (data_rows (snd (qs ! 0)))) \<le> current_row ws'"
        using c(8) by auto
      then show ?thesis using cur2 by linarith
    qed
    then show ?thesis by (simp add: b(3))
  qed
  have first: "table_at ws' title df row"
    using table_at_frame[OF a(7) _ keep] a(3) by simp
  define starts' where "starts' = row # starts"
  have len: "length starts' = length (q # qs)"
    by (simp add: starts'_def c(7))
  have each: "\<forall>i < length (q # qs). row \<le> starts' ! i
          \<and> starts' ! i + 1 + int (length (data_rows (snd ((q # qs) ! i)))) \<le> current_row ws'
          \<and> table_at ws' (fst ((q # qs) ! i)) (snd ((q # qs) ! i)) (starts' ! i)"
  proof (intro allI impI)
    fix i assume i: "i < length (q # qs)"
    show "row \<le> starts' ! i
          \<and> starts' ! i + 1 + int (length (data_rows (snd ((q # qs) ! i)))) \<le> current_row ws'
          \<and> table_at ws' (fst ((q # qs) ! i)) (snd ((q # qs) ! i)) (starts' ! i)"
    proof (cases i)
      case 0
      then show ?thesis
        using first le_cur a(3) by (simp add: starts'_def q)
    next
      case (Suc j)
      then have "j < length qs" using i by simp
      then have "row2 \<le> starts ! j
          \<and> starts ! j + 1 + int (length (data_rows (snd (qs ! j)))) \<le> current_row ws'
          \<and> table_at ws' (fst (qs ! j)) (snd (qs ! j)) (starts ! j)"
        using c(8) by blast
      then show ?thesis
        using b(6) by (simp add: starts'_def Suc)
    qed
  qed
  have incr: "\<forall>i j. i < j \<and> j < length (q # qs) \<longrightarrow>
          starts' ! i + 1 + int (length (data_rows (snd ((q # qs) ! i)))) < starts' ! j"
  proof (intro allI impI)
    fix i j assume ij: "i < j \<and> j < length (q # qs)"
    then obtain j' where j: "j = Suc j'" "j' < length qs"
      by (cases j) auto
    show "starts' ! i + 1 + int (length (data_rows (snd ((q # qs) ! i)))) < starts' ! j"
    proof (cases i)
      case 0
      have "row2 \<le> starts ! j'" using c(8) j(2) by blast
      then show ?thesis
        using b(6) by (simp add: starts'_def 0 j q)
    next
      case (Suc i')
      then have "i' < j' \<and> j' < length qs" using ij j by simp
      then show ?thesis
        using c(9) by (simp add: starts'_def Suc j)
    qed
  qed
  have outs: "\<exists>extra. out' = out @ extra"
    using b(7) c(10) by auto
  have warn: "\<forall>title' df' fs f e. (title', df') \<in> set (q # qs) \<and> image_functions = Some fs
            \<and> map_of fs sheet_name = Some f \<and> f df' title' = Inl e \<longrightarrow>
          failed_images_warning sheet_name title' e \<in> set out'"
  proof (intro allI impI)
    fix title' df' fs f e
    assume h: "(title', df') \<in> set (q # qs) \<and> image_functions = Some fs
            \<and> map_of fs sheet_name = Some f \<and> f df' title' = Inl e"
    show "failed_images_warning sheet_name title' e \<in> set out'"
    proof (cases "(title', df') = q")
      case True
      then have "out2 = out @ [failed_images_warning sheet_name title' e]"
        using b(8) h q by auto
      then show ?thesis using c(10) by auto
    next
      case False
      then have "(title', df') \<in> set qs" using h by simp
      then show ?thesis using c(11) h by blast
    qed
  qed
  show ?case
    apply (rule exI[of _ ws'], rule exI[of _ row'], rule exI[of _ out'], rule exI[of _ starts'])
    using run c(2,3) names frame len each incr outs warn
    by (simp add: c(5) b(5) a(5))
qed

text \<open>Without image functions the loop is the one of \<open>create_results_sheets\<close>.\<close>

lemma table_images_None [simp]:
  "table_images env None sheet_name df table_title ws row out = (ws, row, out)"
  by (simp add: table_images_def dict_truthy_def)

lemma place_tables_with_images_None:
  "place_tables_with_images env None sheet_name self ws qs row out =
     (case place_tables self ws qs row of
        Inl e \<Rightarrow> Inl e
      | Inr (self', ws', row') \<Rightarrow> Inr (self', ws', row', out))"
  by (induction qs arbitrary: self ws row) (auto split: sum.splits)

subsection \<open>The width pass\<close>

lemma fold_max_Max: "fold max xs (a :: int) = Max (insert a (set xs))"
  using Max.set_eq_fold[of a xs] by simp

lemma max_column_ge: "(r, c) \<in> cell_keys ws \<Longrightarrow> c \<le> max_column ws"
  by (force simp: max_column_def fold_max_Max cell_keys_def intro!: Max_ge)

lemma max_row_ge: "(r, c) \<in> cell_keys ws \<Longrightarrow> r \<le> max_row ws"
  by (force simp: max_row_def fold_max_Max cell_keys_def intro!: Max_ge)

lemma max_column_bounds: "ws_inv ws \<Longrightarrow> 1 \<le> max_column ws \<and> max_column ws \<le> 18278"
  by (auto simp: max_column_def fold_max_Max ws_inv_def list_all_iff)

lemma max_row_bounds: "ws_inv ws \<Longrightarrow> 1 \<le> max_row ws \<and> max_row ws \<le> max 1 (current_row ws)"
  by (auto simp: max_row_def fold_max_Max ws_inv_def list_all_iff)

lemma ws_columns_values:
  "ws_columns ws =
     (if current_row ws = 0 then []
      else map (\<lambda>c. (c, column_values ws c)) [1..max_column ws])"
  by (simp add: ws_columns_def column_values_def)

lemma set_widths_result:
  assumes "\<forall>c \<in> set cs. 1 \<le> c \<and> c \<le> 18278"
  shows "\<exists>ws'. set_widths adjusted (map (\<lambda>c. (c, f c)) cs) ws = Inr ws'
          \<and> cells ws' = cells ws \<and> current_row ws' = current_row ws
          \<and> tables ws' = tables ws \<and> images ws' = images ws
          \<and> (\<forall>letter. column_dimensions ws' letter =
                (if \<exists>c \<in> set cs. get_column_letter c = Inr letter
                 then Some (adjusted (max_length (f (column_index_from_string letter))))
                 else column_dimensions ws letter))"
  using assms
proof (induction cs arbitrary: ws)
  case Nil
  then show ?case by simp
next
  case (Cons c cs)
  obtain l where l: "get_column_letter c = Inr l"
    using Cons.prems by (simp add: get_column_letter_def)
  have idx: "column_index_from_string l = c"
    using l by (rule get_column_letter_index)
  define ws1 where "ws1 = ws\<lparr>column_dimensions := (column_dimensions ws)(l \<mapsto> adjusted (max_length (f c)))\<rparr>"
  obtain ws' where s: "set_widths adjusted (map (\<lambda>c. (c, f c)) cs) ws1 = Inr ws'"
      "cells ws' = cells ws1" "current_row ws' = current_row ws1"
      "tables ws' = tables ws1" "images ws' = images ws1"
      "\<forall>letter. column_dimensions ws' letter =
                (if \<exists>c \<in> set cs. get_column_letter c = Inr letter
                 then Some (adjusted (max_length (f (column_index_from_string letter))))
                 else column_dimensions ws1 letter)"
    using Cons.IH[of ws1] Cons.prems by (simp, elim exE conjE) blast
  have "column_dimensions ws' letter =
                (if \<exists>c' \<in> set (c # cs). get_column_letter c' = Inr letter
                 then Some (adjusted (max_length (f (column_index_from_string letter))))
                 else column_dimensions ws letter)" for letter
    using idx by (auto simp: s(6) ws1_def l)
  then show ?case
    using s(1-5) by (simp add: l ws1_def[symmetric]) (simp add: ws1_def)
qed

lemma column_values_cong: "cells ws' = cells ws \<Longrightarrow> column_values ws' c = column_values ws c"
  by (simp add: column_values_def max_row_def value_at_def)

lemma max_column_cong: "cells ws' = cells ws \<Longrightarrow> max_column ws' = max_column ws"
  by (simp add: max_column_def)

lemma auto_width_result:
  assumes "ws_inv ws"
  shows "\<exists>ws'. auto_width adjusted ws = Inr ws'
          \<and> cells ws' = cells ws \<and> current_row ws' = current_row ws
          \<and> tables ws' = tables ws \<and> images ws' = images ws
          \<and> widths_set adjusted ws'"
proof (cases "current_row ws = 0")
  case True
  then show ?thesis
    by (simp add: auto_width_def ws_columns_values widths_set_def)
next
  case False
  have rng: "\<forall>c \<in> set [1..max_column ws]. 1 \<le> c \<and> c \<le> 18278"
    using max_column_bounds[OF assms] by auto
  obtain ws' where s:
      "set_widths adjusted (map (\<lambda>c. (c, column_values ws c)) [1..max_column ws]) ws = Inr ws'"
      "cells ws' = cells ws" "current_row ws' = current_row ws"
      "tables ws' = tables ws" "images ws' = images ws"
      "\<forall>letter. column_dimensions ws' letter =
                (if \<exists>c \<in> set [1..max_column ws]. get_column_letter c = Inr letter
                 then Some (adjusted (max_length (column_values ws (column_index_from_string letter))))
                 else column_dimensions ws letter)"
    using set_widths_result[OF rng, of adjusted "column_values ws" ws]
    by (elim exE conjE) blast
  have "case get_column_letter c of
          Inl e \<Rightarrow> False
        | Inr letter \<Rightarrow>
            column_dimensions ws' letter = Some (adjusted (max_length (column_values ws' c)))"
    if c: "1 \<le> c" "c \<le> max_column ws'" for c
  proof -
    have c': "c \<in> set [1..max_column ws]"
      using c by (simp add: max_column_cong[OF s(2)])
    have "1 \<le> c \<and> c \<le> 18278"
      using rng c' by blast
    then obtain l where l: "get_column_letter c = Inr l"
      by (simp add: get_column_letter_def)
    have idx: "column_index_from_string l = c"
      using l by (rule get_column_letter_index)
    have ex: "\<exists>c \<in> set [1..max_column ws]. get_column_letter c = Inr l"
      using c' l by blast
    have "column_dimensions ws' l =
            Some (adjusted (max_length (column_values ws (column_index_from_string l))))"
      using s(6) ex by simp
    then show ?thesis
      by (simp add: l idx column_values_cong[OF s(2)])
  qed
  then have "widths_set adjusted ws'"
    using False by (simp add: widths_set_def s(3) list_all_iff)
  then show ?thesis
    using s(1-5) False by (simp add: auto_width_def ws_columns_values)
qed

subsection \<open>New sheets\<close>

lemma avoid_duplicate_name_fresh:
  "lower v \<notin> set (map lower names) \<Longrightarrow> avoid_duplicate_name names v = v"
proof -
  assume "lower v \<notin> set (map lower names)"
  then have "\<not> (\<exists>n \<in> set names. lower n = lower v)"
    by (metis image_eqI set_map)
  then show ?thesis
    by (simp add: avoid_duplicate_name_def)
qed

lemma valid_title_filter: "valid_title name \<Longrightarrow> filter invalid_title_char name = []"
  by (simp add: valid_title_def list_all_iff filter_empty_conv)

lemma create_sheet_fresh:
  assumes "valid_title name" and "lower name \<notin> set (map lower (sheetnames w))"
  shows "create_sheet w name None =
           Inr (w\<lparr>sheets := sheets w @ [(name, new_worksheet)]\<rparr>, length (sheets w))"
  using assms
  by (simp add: create_sheet_def valid_title_filter avoid_duplicate_name_fresh Let_def)
     (simp add: valid_title_def)

lemma create_sheet_first:
  assumes "valid_title name" and "lower name \<notin> set (map lower (sheetnames w))"
  shows "create_sheet w name (Some 0) =
           Inr (w\<lparr>sheets := (name, new_worksheet) # sheets w\<rparr>, 0)"
  using assms
  by (simp add: create_sheet_def valid_title_filter avoid_duplicate_name_fresh Let_def)
     (simp add: valid_title_def)

lemma sheet_at_last [simp]:
  "sheet_at (w\<lparr>sheets := sheets w @ [(name, ws)]\<rparr>) (length (sheets w)) = ws"
  by (simp add: sheet_at_def)

lemma set_sheet_last [simp]:
  "set_sheet (w\<lparr>sheets := xs @ [(name, ws)]\<rparr>) (length xs) ws' = w\<lparr>sheets := xs @ [(name, ws')]\<rparr>"
  by (simp add: set_sheet_def)

section \<open>The sheets of the results\<close>

lemma table_names_append:
  "0 \<le> n \<Longrightarrow> 0 \<le> m \<Longrightarrow> table_names c (n + m) = table_names c n @ table_names (c + n) m"
proof -
  assume n: "0 \<le> n" and m: "0 \<le> m"
  show ?thesis
  proof (cases "n = 0")
    case True
    then show ?thesis by simp
  next
    case False
    then have "[c..c + (n + m) - 1] = [c..c + n - 1] @ [c + n - 1 + 1..c + (n + m) - 1]"
      using n m by (intro upto_split2) auto
    then show ?thesis
      by (simp add: table_names_def add.assoc)
  qed
qed

lemma table_at_cong: "cells ws' = cells ws \<Longrightarrow> table_at ws' t df s = table_at ws t df s"
  by (simp add: table_at_def value_at_def)

lemma tables_placed_cong:
  "cells ws' = cells ws \<Longrightarrow> current_row ws' = current_row ws \<Longrightarrow>
   tables_placed ws' qs = tables_placed ws qs"
proof -
  assume c: "cells ws' = cells ws" and r: "current_row ws' = current_row ws"
  show ?thesis
    by (simp add: tables_placed_def table_at_cong[OF c] r)
qed

lemma total_tables_nonneg: "0 \<le> total_tables rs"
  by (induction rs) (auto simp: total_tables_def)

lemma total_tables_Cons: "total_tables ((n, qs) # rs) = int (length qs) + total_tables rs"
  by (simp add: total_tables_def)

lemma sheet_table_names_append:
  "sheet_table_names (xs @ ys) = sheet_table_names xs @ sheet_table_names ys"
  by (simp add: sheet_table_names_def)

lemma names_free_tables:
  assumes "names_free w new_worksheet c" and "0 \<le> c" and "0 \<le> n"
    and "sheet_table_names (sheets w') = sheet_table_names (sheets w) @ table_names c n"
  shows "names_free w' new_worksheet (c + n)"
  unfolding names_free_def
proof (intro allI impI)
  fix k assume k: "c + n \<le> k"
  show "\<not> duplicate_name w' new_worksheet (''Table'' @ str_int k)"
  proof
    assume "duplicate_name w' new_worksheet (''Table'' @ str_int k)"
    then have "lower (''Table'' @ str_int k)
                 \<in> lower ` (set (sheet_table_names (sheets w)) \<union> set (table_names c n))"
      by (simp add: duplicate_name_iff assms(4) new_worksheet_def)
    then consider "lower (''Table'' @ str_int k) \<in> lower ` set (sheet_table_names (sheets w))"
      | "lower (''Table'' @ str_int k) \<in> lower ` set (table_names c n)"
      by blast
    then show False
    proof cases
      case 1
      have "c \<le> k" using k assms(3) by linarith
      then have "\<not> duplicate_name w new_worksheet (''Table'' @ str_int k)"
        using assms(1) by (simp add: names_free_def)
      then show False
        using 1 by (simp add: duplicate_name_iff new_worksheet_def)
    next
      case 2
      then obtain j where j: "c \<le> j" "j \<le> c + n - 1"
        "lower (''Table'' @ str_int k) = lower (''Table'' @ str_int j)"
        by (auto simp: table_names_def)
      have "0 \<le> k" using k j(1,2) assms(2) by linarith
      then have "k = j"
        using lower_table_name_inj[OF _ _ j(3)] j(1) assms(2) by simp
      then show False
        using k j(2) by simp
    qed
  qed
qed

text \<open>One sheet: its tables placed from row 1 of a new worksheet.\<close>

lemma sheet_tables_with_images:
  assumes "list_all (\<lambda>(title, df). storable_string title \<and> wf_dataframe df) qs"
    and "0 \<le> global_table_counter self"
    and "names_free (wb self) new_worksheet (global_table_counter self)"
  shows "\<exists>ws' row' out'.
      place_tables_with_images env image_functions sheet_name self new_worksheet qs 1 out =
        Inr (self\<lparr>global_table_counter := global_table_counter self + int (length qs)\<rparr>,
             ws', row', out')
    \<and> ws_inv ws'
    \<and> map displayName (tables ws') = table_names (global_table_counter self) (int (length qs))
    \<and> tables_placed ws' qs
    \<and> (\<exists>extra. out' = out @ extra)
    \<and> (\<forall>title df fs f e. (title, df) \<in> set qs \<and> image_functions = Some fs
            \<and> map_of fs sheet_name = Some f \<and> f df title = Inl e \<longrightarrow>
          failed_images_warning sheet_name title e \<in> set out')"
proof -
  have cur: "current_row new_worksheet < 1"
    by (simp add: new_worksheet_def)
  obtain ws' row' out' starts where r:
    "place_tables_with_images env image_functions sheet_name self new_worksheet qs 1 out =
        Inr (self\<lparr>global_table_counter := global_table_counter self + int (length qs)\<rparr>,
             ws', row', out')"
    "ws_inv ws'"
    "map displayName (tables ws') =
        map displayName (tables new_worksheet) @ table_names (global_table_counter self) (int (length qs))"
    "length starts = length qs"
    "\<forall>i < length qs. 1 \<le> starts ! i
          \<and> starts ! i + 1 + int (length (data_rows (snd (qs ! i)))) \<le> current_row ws'
          \<and> table_at ws' (fst (qs ! i)) (snd (qs ! i)) (starts ! i)"
    "\<forall>i j. i < j \<and> j < length qs \<longrightarrow>
          starts ! i + 1 + int (length (data_rows (snd (qs ! i)))) < starts ! j"
    "\<exists>extra. out' = out @ extra"
    "\<forall>title df fs f e. (title, df) \<in> set qs \<and> image_functions = Some fs
            \<and> map_of fs sheet_name = Some f \<and> f df title = Inl e \<longrightarrow>
          failed_images_warning sheet_name title e \<in> set out'"
    using place_tables_with_images_result[OF ws_inv_new_worksheet cur assms,
        of env image_functions sheet_name out]
    by (elim exE conjE) blast
  have placed: "tables_placed ws' qs"
    unfolding tables_placed_def
    by (rule exI[of _ starts]) (intro conjI r(4) r(5) r(6))
  have names: "map displayName (tables ws') = table_names (global_table_counter self) (int (length qs))"
    using r(3) by (simp add: new_worksheet_def)
  show ?thesis
    by (rule exI[of _ ws'], rule exI[of _ row'], rule exI[of _ out'])
       (intro conjI r(1) r(2) names placed r(7) r(8))
qed

lemma sheet_tables:
  assumes "list_all (\<lambda>(title, df). storable_string title \<and> wf_dataframe df) qs"
    and "0 \<le> global_table_counter self"
    and "names_free (wb self) new_worksheet (global_table_counter self)"
  shows "\<exists>ws' row'.
      place_tables self new_worksheet qs 1 =
        Inr (self\<lparr>global_table_counter := global_table_counter self + int (length qs)\<rparr>,
             ws', row')
    \<and> ws_inv ws'
    \<and> map displayName (tables ws') = table_names (global_table_counter self) (int (length qs))
    \<and> tables_placed ws' qs"
proof -
  obtain ws' row' out' where r:
    "place_tables_with_images undefined None [] self new_worksheet qs 1 [] =
        Inr (self\<lparr>global_table_counter := global_table_counter self + int (length qs)\<rparr>,
             ws', row', out')"
    "ws_inv ws'"
    "map displayName (tables ws') = table_names (global_table_counter self) (int (length qs))"
    "tables_placed ws' qs"
    using sheet_tables_with_images[OF assms, of undefined None "[]" "[]"]
    by (elim exE conjE) blast
  have "place_tables self new_worksheet qs 1 =
        Inr (self\<lparr>global_table_counter := global_table_counter self + int (length qs)\<rparr>,
             ws', row')"
    using r(1) unfolding place_tables_with_images_None
    by (cases "place_tables self new_worksheet qs 1") auto
  then show ?thesis
    by (intro exI[of _ ws'] exI[of _ row'] conjI r(2) r(3) r(4))
qed

lemma results_sheets_with_images_loop_result:
  assumes "list_all valid_title (map fst rs)"
    and "distinct (map lower (map fst rs))"
    and "\<forall>n \<in> set (map fst rs). lower n \<notin> set (map lower (sheetnames (wb self)))"
    and "list_all (\<lambda>(sheet_name, queries_dict).
                     list_all (\<lambda>(title, df). storable_string title \<and> wf_dataframe df) queries_dict) rs"
    and "0 \<le> global_table_counter self"
    and "names_free (wb self) new_worksheet (global_table_counter self)"
  shows "\<exists>new out'.
      results_sheets_with_images_loop env image_functions self rs out =
        Inr (self\<lparr>wb := (wb self)\<lparr>sheets := sheets (wb self) @ new\<rparr>,
                   global_table_counter := global_table_counter self + total_tables rs\<rparr>, out')
    \<and> map fst new = map fst rs
    \<and> sheet_table_names new = table_names (global_table_counter self) (total_tables rs)
    \<and> (\<forall>i < length rs. ws_inv (snd (new ! i))
          \<and> widths_set adjusted_width_capped (snd (new ! i))
          \<and> tables_placed (snd (new ! i)) (snd (rs ! i))
          \<and> map displayName (tables (snd (new ! i))) =
              table_names (global_table_counter self + total_tables (take i rs))
                (int (length (snd (rs ! i)))))
    \<and> (\<exists>extra. out' = out @ extra)
    \<and> (\<forall>sheet_name qs title df fs f e.
          (sheet_name, qs) \<in> set rs \<and> (title, df) \<in> set qs \<and> image_functions = Some fs
            \<and> map_of fs sheet_name = Some f \<and> f df title = Inl e \<longrightarrow>
          failed_images_warning sheet_name title e \<in> set out')"
  using assms
proof (induction rs arbitrary: self out)
  case Nil
  show ?case
    by (rule exI[of _ "[]"], rule exI[of _ out])
       (simp add: total_tables_def sheet_table_names_def)
next
  case (Cons p rs)
  obtain name qs where p: "p = (name, qs)" by (cases p)
  let ?c = "global_table_counter self"
  let ?n = "int (length qs)"
  have vt: "valid_title name" and fresh: "lower name \<notin> set (map lower (sheetnames (wb self)))"
    and wfq: "list_all (\<lambda>(title, df). storable_string title \<and> wf_dataframe df) qs"
    using Cons.prems by (simp_all add: p)
  define w1 where "w1 = (wb self)\<lparr>sheets := sheets (wb self) @ [(name, new_worksheet)]\<rparr>"
  have cs: "create_sheet (wb self) name None = Inr (w1, length (sheets (wb self)))"
    unfolding w1_def by (rule create_sheet_fresh[OF vt fresh])
  have at: "sheet_at w1 (length (sheets (wb self))) = new_worksheet"
    by (simp add: w1_def)
  define self0 where "self0 = self\<lparr>wb := w1\<rparr>"
  define self1 where "self1 = self0\<lparr>global_table_counter := global_table_counter self0 + ?n\<rparr>"
  have c0: "0 \<le> global_table_counter self0"
    using Cons.prems(5) by (simp add: self0_def)
  have names1: "sheet_table_names (sheets w1) = sheet_table_names (sheets (wb self))"
    by (simp add: w1_def sheet_table_names_append) (simp add: sheet_table_names_def new_worksheet_def)
  have free0: "names_free (wb self0) new_worksheet (global_table_counter self0)"
    using Cons.prems(6) by (simp add: self0_def names_free_cong[OF refl names1])
  obtain ws1 row1 out1 where t:
    "place_tables_with_images env image_functions name self0 new_worksheet qs 1 out =
        Inr (self1, ws1, row1, out1)"
    "ws_inv ws1"
    "map displayName (tables ws1) = table_names (global_table_counter self0) ?n"
    "tables_placed ws1 qs"
    "\<exists>extra. out1 = out @ extra"
    "\<forall>title df fs f e. (title, df) \<in> set qs \<and> image_functions = Some fs
            \<and> map_of fs name = Some f \<and> f df title = Inl e \<longrightarrow>
          failed_images_warning name title e \<in> set out1"
    using sheet_tables_with_images[OF wfq c0 free0, of env image_functions name out]
    unfolding self1_def by (elim exE conjE) blast
  obtain ws2 where a: "auto_width adjusted_width_capped ws1 = Inr ws2"
    "cells ws2 = cells ws1" "current_row ws2 = current_row ws1"
    "tables ws2 = tables ws1" "widths_set adjusted_width_capped ws2"
    using auto_width_result[OF t(2), of adjusted_width_capped]
    by (elim exE conjE) blast
  define self2 where "self2 = self1\<lparr>wb := set_sheet (wb self1) (length (sheets (wb self))) ws2\<rparr>"
  have wb2: "wb self2 = (wb self)\<lparr>sheets := sheets (wb self) @ [(name, ws2)]\<rparr>"
    by (simp add: self2_def self1_def self0_def w1_def)
  have c2: "global_table_counter self2 = ?c + ?n"
    by (simp add: self2_def self1_def self0_def)
  have step: "results_sheets_with_images_loop env image_functions self (p # rs) out =
              results_sheets_with_images_loop env image_functions self2 rs out1"
    by (simp add: p cs at self0_def[symmetric] t(1) a(1) self2_def)
  have pre12: "list_all valid_title (map fst rs)" "distinct (map lower (map fst rs))"
    using Cons.prems(1,2) by (simp_all add: p)
  have pre3: "\<forall>n \<in> set (map fst rs). lower n \<notin> set (map lower (sheetnames (wb self2)))"
  proof
    fix n assume n: "n \<in> set (map fst rs)"
    have "lower name \<notin> set (map lower (map fst rs))"
      using Cons.prems(2) by (simp add: p)
    then have "lower n \<noteq> lower name"
      using n by (metis image_eqI set_map)
    moreover have "lower n \<notin> set (map lower (sheetnames (wb self)))"
      using Cons.prems(3) n by auto
    ultimately show "lower n \<notin> set (map lower (sheetnames (wb self2)))"
      by (simp add: wb2 sheetnames_def)
  qed
  have pre4: "list_all (\<lambda>(sheet_name, queries_dict).
                     list_all (\<lambda>(title, df). storable_string title \<and> wf_dataframe df) queries_dict) rs"
    using Cons.prems(4) by simp
  have pre5: "0 \<le> global_table_counter self2"
    using Cons.prems(5) by (simp add: c2)
  have pre6: "names_free (wb self2) new_worksheet (global_table_counter self2)"
  proof -
    have "sheet_table_names (sheets (wb self2)) =
            sheet_table_names (sheets (wb self)) @ table_names ?c ?n"
      using t(3) by (simp add: wb2 sheet_table_names_append)
         (simp add: sheet_table_names_def a(4) self0_def)
    then show ?thesis
      unfolding c2 by (intro names_free_tables[OF Cons.prems(6,5)]) simp_all
  qed
  note pre = pre12 pre3 pre4 pre5 pre6
  obtain new out' where r:
    "results_sheets_with_images_loop env image_functions self2 rs out1 =
        Inr (self2\<lparr>wb := (wb self2)\<lparr>sheets := sheets (wb self2) @ new\<rparr>,
                   global_table_counter := global_table_counter self2 + total_tables rs\<rparr>, out')"
    "map fst new = map fst rs"
    "sheet_table_names new = table_names (global_table_counter self2) (total_tables rs)"
    "\<forall>i < length rs. ws_inv (snd (new ! i))
          \<and> widths_set adjusted_width_capped (snd (new ! i))
          \<and> tables_placed (snd (new ! i)) (snd (rs ! i))
          \<and> map displayName (tables (snd (new ! i))) =
              table_names (global_table_counter self2 + total_tables (take i rs))
                (int (length (snd (rs ! i))))"
    "\<exists>extra. out' = out1 @ extra"
    "\<forall>sheet_name qs title df fs f e.
          (sheet_name, qs) \<in> set rs \<and> (title, df) \<in> set qs \<and> image_functions = Some fs
            \<and> map_of fs sheet_name = Some f \<and> f df title = Inl e \<longrightarrow>
          failed_images_warning sheet_name title e \<in> set out'"
    using Cons.IH[OF pre, of out1] by (elim exE conjE) blast
  define new' where "new' = (name, ws2) # new"
  have run: "results_sheets_with_images_loop env image_functions self (p # rs) out =
        Inr (self\<lparr>wb := (wb self)\<lparr>sheets := sheets (wb self) @ new'\<rparr>,
                   global_table_counter := ?c + total_tables (p # rs)\<rparr>, out')"
    unfolding step r(1)
    by (simp add: wb2 c2 new'_def p total_tables_Cons self2_def self1_def self0_def w1_def
          add.assoc)
  have names: "map fst new' = map fst (p # rs)"
    by (simp add: new'_def r(2) p)
  have tn: "sheet_table_names new' = table_names ?c (total_tables (p # rs))"
    using table_names_append[of ?n "total_tables rs" ?c] total_tables_nonneg[of rs]
    by (simp add: new'_def sheet_table_names_def[of "_ # _"] sheet_table_names_def[symmetric]
          r(3) c2 a(4) t(3) self0_def p total_tables_Cons)
  have each: "\<forall>i < length (p # rs). ws_inv (snd (new' ! i))
          \<and> widths_set adjusted_width_capped (snd (new' ! i))
          \<and> tables_placed (snd (new' ! i)) (snd ((p # rs) ! i))
          \<and> map displayName (tables (snd (new' ! i))) =
              table_names (?c + total_tables (take i (p # rs)))
                (int (length (snd ((p # rs) ! i))))"
  proof (intro allI impI)
    fix i assume i: "i < length (p # rs)"
    show "ws_inv (snd (new' ! i))
          \<and> widths_set adjusted_width_capped (snd (new' ! i))
          \<and> tables_placed (snd (new' ! i)) (snd ((p # rs) ! i))
          \<and> map displayName (tables (snd (new' ! i))) =
              table_names (?c + total_tables (take i (p # rs)))
                (int (length (snd ((p # rs) ! i))))"
    proof (cases i)
      case 0
      have "ws_inv ws2" using t(2) by (simp add: ws_inv_cong[OF a(2,3)])
      moreover have "tables_placed ws2 qs"
        using t(4) by (simp add: tables_placed_cong[OF a(2,3)])
      moreover have "map displayName (tables ws2) = table_names ?c ?n"
        using t(3) by (simp add: a(4) self0_def)
      ultimately show ?thesis
        using a(5) by (simp add: 0 new'_def p total_tables_def)
    next
      case (Suc j)
      then have "j < length rs" using i by simp
      then show ?thesis
        using r(4) by (simp add: Suc new'_def p total_tables_Cons c2 add.assoc)
    qed
  qed
  have outs: "\<exists>extra. out' = out @ extra"
    using t(5) r(5) by auto
  have warn: "\<forall>sheet_name qs' title df fs f e.
          (sheet_name, qs') \<in> set (p # rs) \<and> (title, df) \<in> set qs' \<and> image_functions = Some fs
            \<and> map_of fs sheet_name = Some f \<and> f df title = Inl e \<longrightarrow>
          failed_images_warning sheet_name title e \<in> set out'"
  proof (intro allI impI)
    fix sheet_name qs' title df fs f e
    assume h: "(sheet_name, qs') \<in> set (p # rs) \<and> (title, df) \<in> set qs' \<and> image_functions = Some fs
            \<and> map_of fs sheet_name = Some f \<and> f df title = Inl e"
    show "failed_images_warning sheet_name title e \<in> set out'"
    proof (cases "(sheet_name, qs') = p")
      case True
      then have "failed_images_warning sheet_name title e \<in> set out1"
        using t(6) h p by blast
      then show ?thesis using r(5) by auto
    next
      case False
      then have "(sheet_name, qs') \<in> set rs" using h by simp
      then show ?thesis using r(6) h by blast
    qed
  qed
  show ?case
    by (rule exI[of _ new'], rule exI[of _ out'])
       (intro conjI run names tn each outs warn)
qed

lemma results_sheets_loop_result:
  assumes "list_all valid_title (map fst rs)"
    and "distinct (map lower (map fst rs))"
    and "\<forall>n \<in> set (map fst rs). lower n \<notin> set (map lower (sheetnames (wb self)))"
    and "list_all (\<lambda>(sheet_name, queries_dict).
                     list_all (\<lambda>(title, df). storable_string title \<and> wf_dataframe df) queries_dict) rs"
    and "0 \<le> global_table_counter self"
    and "names_free (wb self) new_worksheet (global_table_counter self)"
  shows "\<exists>new.
      results_sheets_loop self rs =
        Inr (self\<lparr>wb := (wb self)\<lparr>sheets := sheets (wb self) @ new\<rparr>,
                   global_table_counter := global_table_counter self + total_tables rs\<rparr>)
    \<and> map fst new = map fst rs
    \<and> sheet_table_names new = table_names (global_table_counter self) (total_tables rs)
    \<and> (\<forall>i < length rs. ws_inv (snd (new ! i))
          \<and> widths_set adjusted_width (snd (new ! i))
          \<and> tables_placed (snd (new ! i)) (snd (rs ! i))
          \<and> map displayName (tables (snd (new ! i))) =
              table_names (global_table_counter self + total_tables (take i rs))
                (int (length (snd (rs ! i)))))"
  using assms
proof (induction rs arbitrary: self)
  case Nil
  show ?case
    by (rule exI[of _ "[]"]) (simp add: total_tables_def sheet_table_names_def)
next
  case (Cons p rs)
  obtain name qs where p: "p = (name, qs)" by (cases p)
  let ?c = "global_table_counter self"
  let ?n = "int (length qs)"
  have vt: "valid_title name" and fresh: "lower name \<notin> set (map lower (sheetnames (wb self)))"
    and wfq: "list_all (\<lambda>(title, df). storable_string title \<and> wf_dataframe df) qs"
    using Cons.prems by (simp_all add: p)
  define w1 where "w1 = (wb self)\<lparr>sheets := sheets (wb self) @ [(name, new_worksheet)]\<rparr>"
  have cs: "create_sheet (wb self) name None = Inr (w1, length (sheets (wb self)))"
    unfolding w1_def by (rule create_sheet_fresh[OF vt fresh])
  have at: "sheet_at w1 (length (sheets (wb self))) = new_worksheet"
    by (simp add: w1_def)
  define self0 where "self0 = self\<lparr>wb := w1\<rparr>"
  define self1 where "self1 = self0\<lparr>global_table_counter := global_table_counter self0 + ?n\<rparr>"
  have c0: "0 \<le> global_table_counter self0"
    using Cons.prems(5) by (simp add: self0_def)
  have names1: "sheet_table_names (sheets w1) = sheet_table_names (sheets (wb self))"
    by (simp add: w1_def sheet_table_names_append) (simp add: sheet_table_names_def new_worksheet_def)
  have free0: "names_free (wb self0) new_worksheet (global_table_counter self0)"
    using Cons.prems(6) by (simp add: self0_def names_free_cong[OF refl names1])
  obtain ws1 row1 where t:
    "place_tables self0 new_worksheet qs 1 = Inr (self1, ws1, row1)"
    "ws_inv ws1"
    "map displayName (tables ws1) = table_names (global_table_counter self0) ?n"
    "tables_placed ws1 qs"
    using sheet_tables[OF wfq c0 free0]
    unfolding self1_def by (elim exE conjE) blast
  obtain ws2 where a: "auto_width adjusted_width ws1 = Inr ws2"
    "cells ws2 = cells ws1" "current_row ws2 = current_row ws1"
    "tables ws2 = tables ws1" "widths_set adjusted_width ws2"
    using auto_width_result[OF t(2), of adjusted_width]
    by (elim exE conjE) blast
  define self2 where "self2 = self1\<lparr>wb := set_sheet (wb self1) (length (sheets (wb self))) ws2\<rparr>"
  have wb2: "wb self2 = (wb self)\<lparr>sheets := sheets (wb self) @ [(name, ws2)]\<rparr>"
    by (simp add: self2_def self1_def self0_def w1_def)
  have c2: "global_table_counter self2 = ?c + ?n"
    by (simp add: self2_def self1_def self0_def)
  have step: "results_sheets_loop self (p # rs) = results_sheets_loop self2 rs"
    by (simp add: p cs at self0_def[symmetric] t(1) a(1) self2_def)
  have pre12: "list_all valid_title (map fst rs)" "distinct (map lower (map fst rs))"
    using Cons.prems(1,2) by (simp_all add: p)
  have pre3: "\<forall>n \<in> set (map fst rs). lower n \<notin> set (map lower (sheetnames (wb self2)))"
  proof
    fix n assume n: "n \<in> set (map fst rs)"
    have "lower name \<notin> set (map lower (map fst rs))"
      using Cons.prems(2) by (simp add: p)
    then have "lower n \<noteq> lower name"
      using n by (metis image_eqI set_map)
    moreover have "lower n \<notin> set (map lower (sheetnames (wb self)))"
      using Cons.prems(3) n by auto
    ultimately show "lower n \<notin> set (map lower (sheetnames (wb self2)))"
      by (simp add: wb2 sheetnames_def)
  qed
  have pre4: "list_all (\<lambda>(sheet_name, queries_dict).
                     list_all (\<lambda>(title, df). storable_string title \<and> wf_dataframe df) queries_dict) rs"
    using Cons.prems(4) by simp
  have pre5: "0 \<le> global_table_counter self2"
    using Cons.prems(5) by (simp add: c2)
  have pre6: "names_free (wb self2) new_worksheet (global_table_counter self2)"
  proof -
    have "sheet_table_names (sheets (wb self2)) =
            sheet_table_names (sheets (wb self)) @ table_names ?c ?n"
      using t(3) by (simp add: wb2 sheet_table_names_append)
         (simp add: sheet_table_names_def a(4) self0_def)
    then show ?thesis
      unfolding c2 by (intro names_free_tables[OF Cons.prems(6,5)]) simp_all
  qed
  note pre = pre12 pre3 pre4 pre5 pre6
  obtain new where r:
    "results_sheets_loop self2 rs =
        Inr (self2\<lparr>wb := (wb self2)\<lparr>sheets := sheets (wb self2) @ new\<rparr>,
                   global_table_counter := global_table_counter self2 + total_tables rs\<rparr>)"
    "map fst new = map fst rs"
    "sheet_table_names new = table_names (global_table_counter self2) (total_tables rs)"
    "\<forall>i < length rs. ws_inv (snd (new ! i))
          \<and> widths_set adjusted_width (snd (new ! i))
          \<and> tables_placed (snd (new ! i)) (snd (rs ! i))
          \<and> map displayName (tables (snd (new ! i))) =
              table_names (global_table_counter self2 + total_tables (take i rs))
                (int (length (snd (rs ! i))))"
    using Cons.IH[OF pre] by (elim exE conjE) blast
  define new' where "new' = (name, ws2) # new"
  have run: "results_sheets_loop self (p # rs) =
        Inr (self\<lparr>wb := (wb self)\<lparr>sheets := sheets (wb self) @ new'\<rparr>,
                   global_table_counter := ?c + total_tables (p # rs)\<rparr>)"
    unfolding step r(1)
    by (simp add: wb2 c2 new'_def p total_tables_Cons self2_def self1_def self0_def w1_def
          add.assoc)
  have names: "map fst new' = map fst (p # rs)"
    by (simp add: new'_def r(2) p)
  have tn: "sheet_table_names new' = table_names ?c (total_tables (p # rs))"
    using table_names_append[of ?n "total_tables rs" ?c] total_tables_nonneg[of rs]
    by (simp add: new'_def sheet_table_names_def[of "_ # _"] sheet_table_names_def[symmetric]
          r(3) c2 a(4) t(3) self0_def p total_tables_Cons)
  have each: "\<forall>i < length (p # rs). ws_inv (snd (new' ! i))
          \<and> widths_set adjusted_width (snd (new' ! i))
          \<and> tables_placed (snd (new' ! i)) (snd ((p # rs) ! i))
          \<and> map displayName (tables (snd (new' ! i))) =
              table_names (?c + total_tables (take i (p # rs)))
                (int (length (snd ((p # rs) ! i))))"
  proof (intro allI impI)
    fix i assume i: "i < length (p # rs)"
    show "ws_inv (snd (new' ! i))
          \<and> widths_set adjusted_width (snd (new' ! i))
          \<and> tables_placed (snd (new' ! i)) (snd ((p # rs) ! i))
          \<and> map displayName (tables (snd (new' ! i))) =
              table_names (?c + total_tables (take i (p # rs)))
                (int (length (snd ((p # rs) ! i))))"
    proof (cases i)
      case 0
      have "ws_inv ws2" using t(2) by (simp add: ws_inv_cong[OF a(2,3)])
      moreover have "tables_placed ws2 qs"
        using t(4) by (simp add: tables_placed_cong[OF a(2,3)])
      moreover have "map displayName (tables ws2) = table_names ?c ?n"
        using t(3) by (simp add: a(4) self0_def)
      ultimately show ?thesis
        using a(5) by (simp add: 0 new'_def p total_tables_def)
    next
      case (Suc j)
      then have "j < length rs" using i by simp
      then show ?thesis
        using r(4) by (simp add: Suc new'_def p total_tables_Cons c2 add.assoc)
    qed
  qed
  show ?case
    by (rule exI[of _ new']) (intro conjI run names tn each)
qed

subsection \<open>The introduction sheet\<close>

lemma valid_title_Introduction: "valid_title ''Introduction''"
  by (simp add: valid_title_def invalid_title_char_def)

lemma create_introduction_sheet_result:
  assumes "lower ''Introduction'' \<notin> set (map lower (sheetnames (wb self)))"
    and "list_all storable_string (intro_text self)"
  shows "\<exists>ws. create_introduction_sheet self =
               Inr (self\<lparr>wb := (wb self)\<lparr>sheets := (''Introduction'', ws) # sheets (wb self)\<rparr>\<rparr>)
           \<and> tables ws = [] \<and> images ws = []
           \<and> value_at ws (1, 1) = VStr ''Introduction''
           \<and> font_at ws (1, 1) = Some \<lparr>font_bold = True, font_size = 14\<rparr>
           \<and> column_dimensions ws ''A'' = Some 100
           \<and> current_row ws = 1 + int (length (intro_text self))"
proof -
  define ws1 where "ws1 = append_row new_worksheet [VStr ''Introduction'']"
  define ws2 where "ws2 = modify_cell (ws_get_cell ws1 (1, 1)) (1, 1)
                       (\<lambda>c. c\<lparr>cell_font := Some \<lparr>font_bold = True, font_size = 14\<rparr>\<rparr>)"
  define ws3 where "ws3 = fold (\<lambda>line ws'. append_row ws' [VStr line]) (intro_text self) ws2"
  define ws4 where "ws4 = ws3\<lparr>column_dimensions := (column_dimensions ws3)(''A'' \<mapsto> 100)\<rparr>"
  have cs: "create_sheet (wb self) ''Introduction'' (Some 0) =
              Inr ((wb self)\<lparr>sheets := (''Introduction'', new_worksheet) # sheets (wb self)\<rparr>, 0)"
    by (rule create_sheet_first[OF valid_title_Introduction assms(1)])
  have title: "ws_append new_worksheet [VStr ''Introduction''] = Inr ws1"
    unfolding ws1_def
    by (rule ws_append_ok) (simp add: storable_string_def illegal_character_def ord_def)
  have lines: "append_rows ws2 (map (\<lambda>line. [VStr line]) (intro_text self)) = Inr ws3"
    using assms(2)
    by (simp add: append_rows_ok list_all_iff ws3_def fold_map comp_def)
  have run: "create_introduction_sheet self =
               Inr (self\<lparr>wb := (wb self)\<lparr>sheets := (''Introduction'', ws4) # sheets (wb self)\<rparr>\<rparr>)"
    using title lines
    by (simp add: create_introduction_sheet_def cs sheet_at_def set_sheet_def Let_def
          ws2_def[symmetric] ws4_def)
  have cr1: "current_row ws1 = 1"
    by (simp add: ws1_def new_worksheet_def)
  have at1: "cell_at ws1 (1, 1) = new_cell (VStr ''Introduction'')"
    by (simp add: ws1_def cell_at_append new_worksheet_def)
  have k1: "(1, 1) \<in> cell_keys ws1"
    by (simp add: ws1_def cell_keys_append new_worksheet_def)
  have cr2: "current_row ws2 = 1"
    by (simp add: ws2_def cr1 current_row_get_cell)
  have at2: "cell_at ws2 (1, 1) =
      \<lparr>cell_value = VStr ''Introduction'', cell_font = Some \<lparr>font_bold = True, font_size = 14\<rparr>,
       number_format = ''General''\<rparr>"
    by (simp add: ws2_def cell_at_modify_cell at1 new_cell_def)
  have app: "\<And>ws. current_row (fold (\<lambda>line ws'. append_row ws' [VStr line]) ls ws)
                 = current_row ws + int (length ls)
              \<and> tables (fold (\<lambda>line ws'. append_row ws' [VStr line]) ls ws) = tables ws
              \<and> images (fold (\<lambda>line ws'. append_row ws' [VStr line]) ls ws) = images ws
              \<and> (\<forall>r c. r \<le> current_row ws \<longrightarrow>
                    cell_at (fold (\<lambda>line ws'. append_row ws' [VStr line]) ls ws) (r, c)
                    = cell_at ws (r, c))" for ls
    by (induction ls) (auto simp: cell_at_append)
  have t2: "tables ws2 = []" "images ws2 = []"
    by (simp_all add: ws2_def ws1_def new_worksheet_def others_modify_cell others_get_cell
        others_append)
  have app3: "current_row ws3 = current_row ws2 + int (length (intro_text self))
              \<and> tables ws3 = tables ws2 \<and> images ws3 = images ws2
              \<and> (\<forall>r c. r \<le> current_row ws2 \<longrightarrow> cell_at ws3 (r, c) = cell_at ws2 (r, c))"
    unfolding ws3_def by (rule app)
  have at3: "cell_at ws3 (1, 1) = cell_at ws2 (1, 1)"
    using app3 cr2 by simp
  have cr3: "current_row ws3 = 1 + int (length (intro_text self))"
    using app3 cr2 by simp
  have t3: "tables ws3 = []" "images ws3 = []"
    using app3 t2 by simp_all
  have "tables ws4 = []" "images ws4 = []"
    "value_at ws4 (1, 1) = VStr ''Introduction''"
    "font_at ws4 (1, 1) = Some \<lparr>font_bold = True, font_size = 14\<rparr>"
    "column_dimensions ws4 ''A'' = Some 100"
    "current_row ws4 = 1 + int (length (intro_text self))"
    using at3 at2 t3 cr3
    by (simp_all add: ws4_def value_at_cell_at font_at_cell_at cell_at_def)
  then show ?thesis
    using run by (intro exI[of _ ws4]) simp
qed

section \<open>The whole report\<close>

lemma new_generator:
  "ExcelReportGenerator rs intro =
     \<lparr>results = rs, intro_text = intro, wb = \<lparr>sheets = []\<rparr>, global_table_counter = 1\<rparr>"
  by (simp add: ExcelReportGenerator_def Workbook_def del_sheet_def sheetnames_def Let_def)

lemma names_free_no_tables:
  "sheet_table_names (sheets w) = [] \<Longrightarrow> names_free w new_worksheet c"
  by (simp add: names_free_def duplicate_name_iff new_worksheet_def)

lemma wf_results_loop_pre:
  assumes "wf_results rs" and "set (sheetnames w) \<subseteq> {''Introduction''}"
  shows "list_all valid_title (map fst rs)"
    and "distinct (map lower (map fst rs))"
    and "\<forall>n \<in> set (map fst rs). lower n \<notin> set (map lower (sheetnames w))"
    and "list_all (\<lambda>(sheet_name, queries_dict).
                     list_all (\<lambda>(title, df). storable_string title \<and> wf_dataframe df) queries_dict) rs"
proof -
  show "list_all valid_title (map fst rs)"
    and "distinct (map lower (map fst rs))"
    and "list_all (\<lambda>(sheet_name, queries_dict).
                     list_all (\<lambda>(title, df). storable_string title \<and> wf_dataframe df) queries_dict) rs"
    using assms(1) by (simp_all add: wf_results_def)
  have intro: "lower ''Introduction'' \<notin> set (map lower (map fst rs))"
    using assms(1) by (simp add: wf_results_def)
  show "\<forall>n \<in> set (map fst rs). lower n \<notin> set (map lower (sheetnames w))"
  proof
    fix n assume n: "n \<in> set (map fst rs)"
    show "lower n \<notin> set (map lower (sheetnames w))"
    proof
      assume "lower n \<in> set (map lower (sheetnames w))"
      then obtain m where m: "m \<in> set (sheetnames w)" "lower n = lower m"
        by auto
      have "m = ''Introduction''"
        using m(1) assms(2) by blast
      then have "lower ''Introduction'' \<in> set (map lower (map fst rs))"
        using n m(2) by (metis image_eqI set_map)
      then show False
        using intro by simp
    qed
  qed
qed

lemma create_results_sheets_with_images_result:
  assumes "wf_results (results self)" and "set (sheetnames (wb self)) \<subseteq> {''Introduction''}"
    and "0 \<le> global_table_counter self"
    and "names_free (wb self) new_worksheet (global_table_counter self)"
  shows "\<exists>new out'.
      create_results_sheets_with_images env self image_functions out =
        Inr (self\<lparr>wb := (wb self)\<lparr>sheets := sheets (wb self) @ new\<rparr>,
                   global_table_counter := global_table_counter self + total_tables (results self)\<rparr>, out')
    \<and> map fst new = map fst (results self)
    \<and> sheet_table_names new = table_names (global_table_counter self) (total_tables (results self))
    \<and> (\<forall>i < length (results self). ws_inv (snd (new ! i))
          \<and> widths_set adjusted_width_capped (snd (new ! i))
          \<and> tables_placed (snd (new ! i)) (snd (results self ! i))
          \<and> map displayName (tables (snd (new ! i))) =
              table_names (global_table_counter self + total_tables (take i (results self)))
                (int (length (snd (results self ! i)))))
    \<and> (\<exists>extra. out' = out @ extra)
    \<and> (\<forall>sheet_name qs title df fs f e.
          (sheet_name, qs) \<in> set (results self) \<and> (title, df) \<in> set qs \<and> image_functions = Some fs
            \<and> map_of fs sheet_name = Some f \<and> f df title = Inl e \<longrightarrow>
          failed_images_warning sheet_name title e \<in> set out')"
  unfolding create_results_sheets_with_images_def
  by (rule results_sheets_with_images_loop_result[OF wf_results_loop_pre[OF assms(1,2)] assms(3,4)])

lemma create_results_sheets_result:
  assumes "wf_results (results self)" and "set (sheetnames (wb self)) \<subseteq> {''Introduction''}"
    and "0 \<le> global_table_counter self"
    and "names_free (wb self) new_worksheet (global_table_counter self)"
  shows "\<exists>new.
      create_results_sheets self =
        Inr (self\<lparr>wb := (wb self)\<lparr>sheets := sheets (wb self) @ new\<rparr>,
                   global_table_counter := global_table_counter self + total_tables (results self)\<rparr>)
    \<and> map fst new = map fst (results self)
    \<and> sheet_table_names new = table_names (global_table_counter self) (total_tables (results self))
    \<and> (\<forall>i < length (results self). ws_inv (snd (new ! i))
          \<and> widths_set adjusted_width (snd (new ! i))
          \<and> tables_placed (snd (new ! i)) (snd (results self ! i))
          \<and> map displayName (tables (snd (new ! i))) =
              table_names (global_table_counter self + total_tables (take i (results self)))
                (int (length (snd (results self ! i)))))"
  unfolding create_results_sheets_def
  by (rule results_sheets_loop_result[OF wf_results_loop_pre[OF assms(1,2)] assms(3,4)])

lemma generate_workbook_result:
  assumes "wf_results rs" and "list_all storable_string intro" and "writable w path"
  shows "\<exists>iws new out'.
      generate_workbook env (ExcelReportGenerator rs intro) path image_functions w =
        Inr (\<lparr>results = rs, intro_text = intro, wb = \<lparr>sheets = (''Introduction'', iws) # new\<rparr>,
              global_table_counter = 1 + total_tables rs\<rparr>,
             w\<lparr>saved := (path, \<lparr>sheets = (''Introduction'', iws) # new\<rparr>) # saved w,
               stdout := out' @ [''Workbook successfully saved to '' @ path]\<rparr>)
    \<and> tables iws = []
    \<and> value_at iws (1, 1) = VStr ''Introduction''
    \<and> map fst new = map fst rs
    \<and> sheet_table_names new = table_names 1 (total_tables rs)
    \<and> (\<forall>i < length rs. ws_inv (snd (new ! i))
          \<and> widths_set (if dict_truthy image_functions then adjusted_width_capped else adjusted_width)
               (snd (new ! i))
          \<and> tables_placed (snd (new ! i)) (snd (rs ! i))
          \<and> map displayName (tables (snd (new ! i))) =
              table_names (1 + total_tables (take i rs)) (int (length (snd (rs ! i)))))
    \<and> (\<exists>extra. out' = stdout w @ extra)
    \<and> (\<not> dict_truthy image_functions \<longrightarrow> out' = stdout w)"
proof -
  define g where "g = ExcelReportGenerator rs intro"
  have g: "results g = rs" "intro_text g = intro" "sheets (wb g) = []" "global_table_counter g = 1"
    by (simp_all add: g_def new_generator)
  have fresh: "lower ''Introduction'' \<notin> set (map lower (sheetnames (wb g)))"
    by (simp add: sheetnames_def g)
  have lines: "list_all storable_string (intro_text g)"
    using assms(2) by (simp add: g)
  obtain iws where i:
    "create_introduction_sheet g =
       Inr (g\<lparr>wb := (wb g)\<lparr>sheets := (''Introduction'', iws) # sheets (wb g)\<rparr>\<rparr>)"
    "tables iws = []" "value_at iws (1, 1) = VStr ''Introduction''"
    using create_introduction_sheet_result[OF fresh lines] by (elim exE conjE) blast
  define g1 where "g1 = g\<lparr>wb := (wb g)\<lparr>sheets := (''Introduction'', iws) # sheets (wb g)\<rparr>\<rparr>"
  have g1: "results g1 = rs" "intro_text g1 = intro" "sheets (wb g1) = [(''Introduction'', iws)]"
    "global_table_counter g1 = 1"
    by (simp_all add: g1_def g)
  have pre: "wf_results (results g1)" "set (sheetnames (wb g1)) \<subseteq> {''Introduction''}"
    "0 \<le> global_table_counter g1"
    "names_free (wb g1) new_worksheet (global_table_counter g1)"
    using assms(1) i(2)
    by (simp_all add: g1 sheetnames_def names_free_no_tables sheet_table_names_def)
  have eq: "g1\<lparr>wb := (wb g1)\<lparr>sheets := sheets (wb g1) @ new\<rparr>,
               global_table_counter := global_table_counter g1 + total_tables (results g1)\<rparr>
            = \<lparr>results = rs, intro_text = intro, wb = \<lparr>sheets = (''Introduction'', iws) # new\<rparr>,
               global_table_counter = 1 + total_tables rs\<rparr>" for new
    using g1 by (cases g1, cases "wb g1") simp
  show ?thesis
  proof (cases "dict_truthy image_functions")
    case True
    from create_results_sheets_with_images_result[OF pre, of env image_functions "stdout w"]
    obtain new out' where r:
      "create_results_sheets_with_images env g1 image_functions (stdout w) =
        Inr (g1\<lparr>wb := (wb g1)\<lparr>sheets := sheets (wb g1) @ new\<rparr>,
                 global_table_counter := global_table_counter g1 + total_tables (results g1)\<rparr>, out')"
      "map fst new = map fst (results g1)"
      "sheet_table_names new = table_names (global_table_counter g1) (total_tables (results g1))"
      "\<forall>i < length (results g1). ws_inv (snd (new ! i))
          \<and> widths_set adjusted_width_capped (snd (new ! i))
          \<and> tables_placed (snd (new ! i)) (snd (results g1 ! i))
          \<and> map displayName (tables (snd (new ! i))) =
              table_names (global_table_counter g1 + total_tables (take i (results g1)))
                (int (length (snd (results g1 ! i))))"
      "\<exists>extra. out' = stdout w @ extra"
      by (elim exE conjE) blast
    have run: "generate_workbook env (ExcelReportGenerator rs intro) path image_functions w =
        Inr (\<lparr>results = rs, intro_text = intro, wb = \<lparr>sheets = (''Introduction'', iws) # new\<rparr>,
              global_table_counter = 1 + total_tables rs\<rparr>,
             w\<lparr>saved := (path, \<lparr>sheets = (''Introduction'', iws) # new\<rparr>) # saved w,
               stdout := out' @ [''Workbook successfully saved to '' @ path]\<rparr>)"
      using i(1) r(1) True assms(3)
      unfolding g1_def[symmetric] g_def[symmetric] eq
      by (simp add: generate_workbook_def save_def)
    have each: "\<forall>i < length rs. ws_inv (snd (new ! i))
          \<and> widths_set (if dict_truthy image_functions then adjusted_width_capped else adjusted_width)
               (snd (new ! i))
          \<and> tables_placed (snd (new ! i)) (snd (rs ! i))
          \<and> map displayName (tables (snd (new ! i))) =
              table_names (1 + total_tables (take i rs)) (int (length (snd (rs ! i))))"
      using r(4) True by (simp add: g1)
    have names: "map fst new = map fst rs"
      and tn: "sheet_table_names new = table_names 1 (total_tables rs)"
      using r(2,3) by (simp_all add: g1)
    have quiet: "\<not> dict_truthy image_functions \<longrightarrow> out' = stdout w"
      using True by simp
    show ?thesis
      by (rule exI[of _ iws], rule exI[of _ new], rule exI[of _ out'])
         (intro conjI run i(2) i(3) names tn each r(5) quiet)
  next
    case False
    from create_results_sheets_result[OF pre]
    obtain new where r:
      "create_results_sheets g1 =
        Inr (g1\<lparr>wb := (wb g1)\<lparr>sheets := sheets (wb g1) @ new\<rparr>,
                 global_table_counter := global_table_counter g1 + total_tables (results g1)\<rparr>)"
      "map fst new = map fst (results g1)"
      "sheet_table_names new = table_names (global_table_counter g1) (total_tables (results g1))"
      "\<forall>i < length (results g1). ws_inv (snd (new ! i))
          \<and> widths_set adjusted_width (snd (new ! i))
          \<and> tables_placed (snd (new ! i)) (snd (results g1 ! i))
          \<and> map displayName (tables (snd (new ! i))) =
              table_names (global_table_counter g1 + total_tables (take i (results g1)))
                (int (length (snd (results g1 ! i))))"
      by (elim exE conjE) blast
    have run: "generate_workbook env (ExcelReportGenerator rs intro) path image_functions w =
        Inr (\<lparr>results = rs, intro_text = intro, wb = \<lparr>sheets = (''Introduction'', iws) # new\<rparr>,
              global_table_counter = 1 + total_tables rs\<rparr>,
             w\<lparr>saved := (path, \<lparr>sheets = (''Introduction'', iws) # new\<rparr>) # saved w,
               stdout := stdout w @ [''Workbook successfully saved to '' @ path]\<rparr>)"
      using i(1) r(1) False assms(3)
      unfolding g1_def[symmetric] g_def[symmetric] eq
      by (simp add: generate_workbook_def save_def)
    have each: "\<forall>i < length rs. ws_inv (snd (new ! i))
          \<and> widths_set (if dict_truthy image_functions then adjusted_width_capped else adjusted_width)
               (snd (new ! i))
          \<and> tables_placed (snd (new ! i)) (snd (rs ! i))
          \<and> map displayName (tables (snd (new ! i))) =
              table_names (1 + total_tables (take i rs)) (int (length (snd (rs ! i))))"
      using r(4) False by (simp add: g1)
    have names: "map fst new = map fst rs"
      and tn: "sheet_table_names new = table_names 1 (total_tables rs)"
      using r(2,3) by (simp_all add: g1)
    have ex: "\<exists>extra. stdout w = stdout w @ extra"
      by simp
    have quiet: "\<not> dict_truthy image_functions \<longrightarrow> stdout w = stdout w"
      by simp
    show ?thesis
      by (rule exI[of _ iws], rule exI[of _ new], rule exI[of _ "stdout w"])
         (intro conjI run i(2) i(3) names tn each ex quiet)
  qed
qed

lemma length_table_names: "0 \<le> n \<Longrightarrow> length (table_names c n) = nat n"
  by (simp add: table_names_def)

lemma distinct_table_names: "0 \<le> c \<Longrightarrow> distinct (table_names c n)"
proof -
  assume c: "0 \<le> c"
  have "inj_on (\<lambda>k. ''Table'' @ str_int k) (set [c..c + n - 1])"
  proof (rule inj_onI)
    fix x y
    assume "x \<in> set [c..c + n - 1]" "y \<in> set [c..c + n - 1]"
      and "''Table'' @ str_int x = ''Table'' @ str_int y"
    then show "x = y"
      using c str_int_inj[of x y] by auto
  qed
  then show ?thesis
    by (simp add: table_names_def distinct_map)
qed

lemma wf_results_two_sheets: "wf_results two_sheets"
  by code_simp

lemma ws_cell_tables: "ws_cell ws r c v = Inr ws' \<Longrightarrow> tables ws' = tables ws"
  by (auto simp: ws_cell_def Let_def split: if_splits option.splits sum.splits)

lemma ws_append_tables: "ws_append ws row = Inr ws' \<Longrightarrow> tables ws' = tables ws"
  by (auto simp: ws_append_def Let_def split: sum.splits)

lemma append_rows_tables: "append_rows ws rows = Inr ws' \<Longrightarrow> tables ws' = tables ws"
proof (induction rows arbitrary: ws)
  case Nil
  then show ?case by simp
next
  case (Cons row rows)
  then obtain ws1 where a: "ws_append ws row = Inr ws1" "append_rows ws1 rows = Inr ws'"
    by (auto split: sum.splits)
  show ?case
    using Cons.IH[OF a(2)] ws_append_tables[OF a(1)] by simp
qed

lemma format_rows_tables: "format_rows ws c rows = Inr ws' \<Longrightarrow> tables ws' = tables ws"
proof (induction rows arbitrary: ws)
  case Nil
  then show ?case by simp
next
  case (Cons r rows)
  then obtain ws1 where a: "ws_cell ws r c None = Inr ws1"
    "format_rows (modify_cell ws1 (r, c) (\<lambda>c. c\<lparr>number_format := ''0%''\<rparr>)) c rows = Inr ws'"
    by (auto split: sum.splits)
  show ?case
    using Cons.IH[OF a(2)] ws_cell_tables[OF a(1)] by simp
qed

lemma format_rate_columns_tables:
  "format_rate_columns ws rate cols rows = Inr ws' \<Longrightarrow> tables ws' = tables ws"
proof (induction cols arbitrary: ws)
  case Nil
  then show ?case by simp
next
  case (Cons p cols)
  obtain c name where p: "p = (c, name)" by (cases p)
  show ?case
  proof (cases "name \<in> set rate")
    case False
    then show ?thesis using Cons by (simp add: p)
  next
    case True
    then obtain ws1 where a: "format_rows ws c rows = Inr ws1"
      "format_rate_columns ws1 rate cols rows = Inr ws'"
      using Cons.prems by (auto simp: p split: sum.splits)
    show ?thesis
      using Cons.IH[OF a(2)] format_rows_tables[OF a(1)] by simp
  qed
qed

text \<open>Every placement that returns takes the next name and moves the counter by one.\<close>

lemma append_df_as_table_names:
  assumes "append_df_as_table self ws df table_title start_row = Inr (self', ws', next_row)"
  shows "global_table_counter self' = global_table_counter self + 1
    \<and> map displayName (tables ws') =
        map displayName (tables ws) @ [''Table'' @ str_int (global_table_counter self)]"
proof -
  obtain ws1 where a: "ws_cell ws start_row 1 (Some table_title) = Inr ws1"
    using assms by (auto simp: append_df_as_table_def split: sum.splits)
  define ws2 where "ws2 = modify_cell ws1 (start_row, 1)
                       (\<lambda>c. c\<lparr>cell_font := Some \<lparr>font_bold = True, font_size = 12\<rparr>\<rparr>)"
  obtain ws3 where b: "append_rows ws2 (dataframe_to_rows df) = Inr ws3"
    using assms a unfolding ws2_def
    by (auto simp: append_df_as_table_def Let_def split: sum.splits)
  obtain l1 l2 where l: "get_column_letter 1 = Inr l1" "get_column_letter (shape1 df) = Inr l2"
    using assms a b unfolding ws2_def
    by (auto simp: append_df_as_table_def Let_def split: sum.splits)
  define tbl where "tbl = \<lparr>displayName = ''Table'' @ str_int (global_table_counter self),
       ref = l1 @ str_int (start_row + 1) @ '':'' @ l2 @
             str_int (start_row + 1 + int (length (dataframe_to_rows df)) - 1),
       tableStyleInfo = Some TableStyleMedium9\<rparr>"
  obtain ws4 where c: "add_table (wb self) ws3 tbl = Inr ws4"
    using assms a b l unfolding ws2_def tbl_def
    by (auto simp: append_df_as_table_def Let_def split: sum.splits)
  have d: "format_rate_columns ws4 (filter (str_contains ''Rate'') (columns df))
             (zip [1..int (length (columns df))] (columns df))
             [start_row + 1 + 1..start_row + 1 + int (length (dataframe_to_rows df)) - 1] = Inr ws'"
    and e: "self' = self\<lparr>global_table_counter := global_table_counter self + 1\<rparr>"
    using assms a b l c unfolding ws2_def tbl_def
    by (auto simp: append_df_as_table_def Let_def split: sum.splits)
  have "tables ws4 = tables ws3 @ [tbl]"
    using c by (auto simp: add_table_def split: if_splits)
  moreover have "tables ws3 = tables ws"
    using append_rows_tables[OF b] ws_cell_tables[OF a] by (simp add: ws2_def)
  ultimately have "tables ws' = tables ws @ [tbl]"
    using format_rate_columns_tables[OF d] by simp
  then show ?thesis
    by (simp add: e tbl_def)
qed

lemma create_introduction_sheet_names:
  assumes "create_introduction_sheet self = Inr self'"
  shows "global_table_counter self' = global_table_counter self
    \<and> sheet_table_names (sheets (wb self')) = sheet_table_names (sheets (wb self))"
proof -
  obtain w i where a: "create_sheet (wb self) ''Introduction'' (Some 0) = Inr (w, i)"
    using assms by (auto simp: create_introduction_sheet_def split: sum.splits)
  obtain name where w: "w = (wb self)\<lparr>sheets := (name, new_worksheet) # sheets (wb self)\<rparr>" "i = 0"
    using a by (auto simp: create_sheet_def Let_def split: list.splits)
  obtain ws1 where b: "ws_append new_worksheet [VStr ''Introduction''] = Inr ws1"
    using assms a by (auto simp: create_introduction_sheet_def w sheet_at_def split: sum.splits)
  define ws2 where "ws2 = modify_cell (ws_get_cell ws1 (1, 1)) (1, 1)
                            (\<lambda>c. c\<lparr>cell_font := Some \<lparr>font_bold = True, font_size = 14\<rparr>\<rparr>)"
  obtain ws3 where c: "append_rows ws2 (map (\<lambda>line. [VStr line]) (intro_text self)) = Inr ws3"
    using assms a b unfolding ws2_def
    by (auto simp: create_introduction_sheet_def w sheet_at_def Let_def split: sum.splits)
  have e: "self' = self\<lparr>wb := set_sheet w 0
              (ws3\<lparr>column_dimensions := (column_dimensions ws3)(''A'' \<mapsto> 100)\<rparr>)\<rparr>"
    using assms a b c unfolding ws2_def
    by (auto simp: create_introduction_sheet_def w sheet_at_def Let_def split: sum.splits)
  have "tables ws3 = []"
    using append_rows_tables[OF c] ws_append_tables[OF b] by (simp add: ws2_def new_worksheet_def)
  then show ?thesis
    by (simp add: e w set_sheet_def sheet_table_names_def)
qed



text \<open>
  Claim C2. A new generator has the counter 1. Every call of \<open>append_df_as_table\<close>
  that returns has registered one table, under the name \<open>Table\<close> followed by the
  counter, and has moved the counter by one; the introduction sheet leaves the counter and
  the table names of the workbook as they are; the names of two counter values differ.
  So after \<open>generate_workbook\<close> on a well-formed input, with or without image
  functions, the table names of the workbook, read sheet by sheet and on each sheet in
  the order of placement, are \<open>Table1\<close>, \<open>Table2\<close>, ... up to the number of tables of
  the input, no name twice. The sheet of position \<open>i\<close> among the result sheets holds the
  names that follow those of the sheets before it, one for each of its tables; the
  introduction sheet has no table; the counter ends one above the number of tables.
\<close>

theorem table_names_count_from_Table1:
  "global_table_counter (ExcelReportGenerator rs intro) = 1
   \<and> (\<forall>self ws df table_title start_row self' ws' next_row.
         append_df_as_table self ws df table_title start_row = Inr (self', ws', next_row) \<longrightarrow>
         global_table_counter self' = global_table_counter self + 1
         \<and> map displayName (tables ws') =
             map displayName (tables ws) @ [''Table'' @ str_int (global_table_counter self)])
   \<and> (\<forall>self self'.
         create_introduction_sheet self = Inr self' \<longrightarrow>
         global_table_counter self' = global_table_counter self
         \<and> sheet_table_names (sheets (wb self')) = sheet_table_names (sheets (wb self)))
   \<and> (\<forall>a b. 0 \<le> a \<and> 0 \<le> b \<and> ''Table'' @ str_int a = ''Table'' @ str_int b \<longrightarrow> a = b)
   \<and> (wf_results rs \<and> list_all storable_string intro \<and> writable w path \<longrightarrow>
       (\<exists>self' w'.
          generate_workbook env (ExcelReportGenerator rs intro) path image_functions w = Inr (self', w')
        \<and> sheet_table_names (sheets (wb self')) = map (\<lambda>k. ''Table'' @ str_int k) [1..total_tables rs]
        \<and> distinct (sheet_table_names (sheets (wb self')))
        \<and> tables (sheet_at (wb self') 0) = []
        \<and> (\<forall>i < length rs.
              map displayName (tables (sheet_at (wb self') (Suc i))) =
                map (\<lambda>k. ''Table'' @ str_int k)
                  [1 + total_tables (take i rs)..total_tables (take i rs) + int (length (snd (rs ! i)))])
        \<and> global_table_counter self' = 1 + total_tables rs))"
proof (intro conjI allI impI)
  show "global_table_counter (ExcelReportGenerator rs intro) = 1"
    by (simp add: new_generator)
next
  fix self ws df table_title start_row self' ws' next_row
  assume "append_df_as_table self ws df table_title start_row = Inr (self', ws', next_row)"
  from append_df_as_table_names[OF this]
  show "global_table_counter self' = global_table_counter self + 1"
    and "map displayName (tables ws') =
             map displayName (tables ws) @ [''Table'' @ str_int (global_table_counter self)]"
    by simp_all
next
  fix self self'
  assume "create_introduction_sheet self = Inr self'"
  from create_introduction_sheet_names[OF this]
  show "global_table_counter self' = global_table_counter self"
    and "sheet_table_names (sheets (wb self')) = sheet_table_names (sheets (wb self))"
    by simp_all
next
  fix a b :: int
  assume "0 \<le> a \<and> 0 \<le> b \<and> ''Table'' @ str_int a = ''Table'' @ str_int b"
  then show "a = b"
    using str_int_inj[of a b] by simp
next
  assume assms: "wf_results rs \<and> list_all storable_string intro \<and> writable w path"
  show "\<exists>self' w'.
          generate_workbook env (ExcelReportGenerator rs intro) path image_functions w = Inr (self', w')
        \<and> sheet_table_names (sheets (wb self')) = map (\<lambda>k. ''Table'' @ str_int k) [1..total_tables rs]
        \<and> distinct (sheet_table_names (sheets (wb self')))
        \<and> tables (sheet_at (wb self') 0) = []
        \<and> (\<forall>i < length rs.
              map displayName (tables (sheet_at (wb self') (Suc i))) =
                map (\<lambda>k. ''Table'' @ str_int k)
                  [1 + total_tables (take i rs)..total_tables (take i rs) + int (length (snd (rs ! i)))])
        \<and> global_table_counter self' = 1 + total_tables rs"
  proof -
  obtain iws new out' where r:
    "generate_workbook env (ExcelReportGenerator rs intro) path image_functions w =
        Inr (\<lparr>results = rs, intro_text = intro, wb = \<lparr>sheets = (''Introduction'', iws) # new\<rparr>,
              global_table_counter = 1 + total_tables rs\<rparr>,
             w\<lparr>saved := (path, \<lparr>sheets = (''Introduction'', iws) # new\<rparr>) # saved w,
               stdout := out' @ [''Workbook successfully saved to '' @ path]\<rparr>)"
    "tables iws = []"
    "sheet_table_names new = table_names 1 (total_tables rs)"
    "\<forall>i < length rs. ws_inv (snd (new ! i))
          \<and> widths_set (if dict_truthy image_functions then adjusted_width_capped else adjusted_width)
               (snd (new ! i))
          \<and> tables_placed (snd (new ! i)) (snd (rs ! i))
          \<and> map displayName (tables (snd (new ! i))) =
              table_names (1 + total_tables (take i rs)) (int (length (snd (rs ! i))))"
    using generate_workbook_result[of rs intro w path env image_functions] assms
    by (elim exE conjE) blast
  have all: "sheet_table_names ((''Introduction'', iws) # new) = table_names 1 (total_tables rs)"
    by (simp add: sheet_table_names_def[of "_ # _"] sheet_table_names_def[symmetric] r(2,3))
  have up: "table_names c n = map (\<lambda>k. ''Table'' @ str_int k) [c..c + n - 1]" for c n
    by (simp add: table_names_def)
  have each: "\<forall>i < length rs.
          map displayName (tables (sheet_at \<lparr>sheets = (''Introduction'', iws) # new\<rparr> (Suc i))) =
            map (\<lambda>k. ''Table'' @ str_int k)
              [1 + total_tables (take i rs)..total_tables (take i rs) + int (length (snd (rs ! i)))]"
    using r(4) by (simp add: sheet_at_def up)
  have d: "distinct (table_names 1 (total_tables rs))"
    by (rule distinct_table_names) simp
  show ?thesis
    unfolding r(1) using each d
    by (simp add: all r(2) sheet_at_def up)
qed

qed

theorem table_names_count_from_Table1_witness:
  "wf_results two_sheets \<and> list_all storable_string test_intro_text
   \<and> writable new_world ''report.xlsx''
   \<and> (\<exists>self' w'.
         generate_workbook with_pillow (ExcelReportGenerator two_sheets test_intro_text)
           ''report.xlsx'' None new_world = Inr (self', w')
       \<and> sheet_table_names (sheets (wb self')) = [''Table1'', ''Table2'', ''Table3'']
       \<and> map displayName (tables (sheet_at (wb self') 0)) = []
       \<and> map displayName (tables (sheet_at (wb self') 1)) = [''Table1'', ''Table2'']
       \<and> map displayName (tables (sheet_at (wb self') 2)) = [''Table3'']
       \<and> global_table_counter self' = 4)"
proof -
  have h: "wf_results two_sheets" "list_all storable_string test_intro_text"
    "writable new_world ''report.xlsx''"
    by (rule wf_results_two_sheets, code_simp, simp add: new_world_def)
  have n: "str_int 1 = ''1''" "str_int 2 = ''2''" "str_int 3 = ''3''"
    "[1..2] = [1, 2::int]" "[1..3] = [1, 2, 3::int]" "[3..3] = [3::int]"
    by code_simp+
  have t: "total_tables two_sheets = 3" "total_tables (take 0 two_sheets) = 0"
    "total_tables (take (Suc 0) two_sheets) = 2" "length two_sheets = 2"
    "int (length (snd (two_sheets ! 0))) = 2" "int (length (snd (two_sheets ! Suc 0))) = 1"
    by (simp_all add: total_tables_def two_sheets_def)
  obtain self' w' where r:
    "generate_workbook with_pillow (ExcelReportGenerator two_sheets test_intro_text)
           ''report.xlsx'' None new_world = Inr (self', w')"
    "sheet_table_names (sheets (wb self')) = map (\<lambda>k. ''Table'' @ str_int k) [1..total_tables two_sheets]"
    "tables (sheet_at (wb self') 0) = []"
    "\<forall>i < length two_sheets.
          map displayName (tables (sheet_at (wb self') (Suc i))) =
            map (\<lambda>k. ''Table'' @ str_int k)
              [1 + total_tables (take i two_sheets)..
               total_tables (take i two_sheets) + int (length (snd (two_sheets ! i)))]"
    "global_table_counter self' = 1 + total_tables two_sheets"
    using table_names_count_from_Table1
            [of two_sheets test_intro_text new_world "''report.xlsx''" with_pillow None] h
    by (elim exE conjE) blast
  have s1: "map displayName (tables (sheet_at (wb self') 1)) = [''Table1'', ''Table2'']"
    using r(4)[rule_format, of 0] by (simp add: t n total_tables_def)
  have s2: "map displayName (tables (sheet_at (wb self') 2)) = [''Table3'']"
    using r(4)[rule_format, of 1] by (simp add: t n numeral_2_eq_2)
  have a: "sheet_table_names (sheets (wb self')) = [''Table1'', ''Table2'', ''Table3'']"
    using r(2) by (simp add: t n)
  have s0: "map displayName (tables (sheet_at (wb self') 0)) = []"
    using r(3) by simp
  have c: "global_table_counter self' = 4"
    using r(5) by (simp add: t)
  show ?thesis
    by (intro conjI exI[of _ self'] exI[of _ w'] h r(1) a s0 s1 s2 c)
qed


section \<open>Placing an image\<close>



text \<open>
  Claim C8. Let \<open>s\<close> be the name, in capital letters, of the column at position
  \<open>k\<close> (\<open>C\<close> for 3). Both routines do the same with \<open>start_col = s\<close> and with
  \<open>start_col = k\<close>, for every row, width and height: the anchor is \<open>s\<close> followed
  by the row, and sheet, returned row and output agree.
\<close>

theorem anchor_index_letter_equivalence:
  assumes "s \<noteq> []" and "\<forall>c \<in> set s. capital_letter c"
    and "column_index_from_string s = k" and "k \<le> 18278"
  shows "anchor_cell (ColInt k) start_row = Inr (s @ str_int start_row)
       \<and> anchor_cell (ColStr s) start_row = anchor_cell (ColInt k) start_row
       \<and> add_image_from_figure env ws fig start_row (ColStr s) width height out =
           add_image_from_figure env ws fig start_row (ColInt k) width height out
       \<and> add_image_from_file env ws image_path start_row (ColStr s) width height out =
           add_image_from_file env ws image_path start_row (ColInt k) width height out"
proof -
  have letter: "get_column_letter k = Inr s"
    using get_column_letter_of_index[of s] assms by simp
  have anchors: "anchor_cell (ColStr s) start_row = anchor_cell (ColInt k) start_row"
    by (simp add: anchor_cell_def letter)
  have int_anchor: "anchor_cell (ColInt k) start_row = Inr (s @ str_int start_row)"
    by (simp add: anchor_cell_def letter)
  show ?thesis
    unfolding add_image_from_figure_def add_image_from_file_def anchors
    using int_anchor by simp
qed

theorem anchor_index_letter_equivalence_witness:
  "''C'' \<noteq> [] \<and> capital_letter (CHR ''C'') \<and> column_index_from_string ''C'' = 3
   \<and> (3 :: int) \<le> 18278
   \<and> anchor_cell (ColInt 3) 1 = Inr ''C1''
   \<and> anchor_cell (ColStr ''C'') 1 = anchor_cell (ColInt 3) 1"
proof -
  have h: "\<forall>c \<in> set ''C''. capital_letter c" "column_index_from_string ''C'' = 3"
    by (simp_all add: capital_letter_def ord_def column_index_from_string_def)
  have "str_int 1 = ''1''"
    by (simp add: str_int_def str_digits_small chr_def char_of_def)
  then show ?thesis
    using anchor_index_letter_equivalence[of "''C''" 3 1, OF _ h] h by simp
qed

end
